(* ===== verification/F64.thy ===== *)
theory F64
  imports Complex_Main "HOL-Library.Log_Nat" Prelude
begin

text \<open>
  Rust's \<open>f64\<close> (and Lua's numbers): IEEE 754 binary64 with rounding to nearest,
  ties to even. A finite value is the rational it denotes; every operation computes
  exactly and then rounds with \<open>rnd\<close>, a value beyond the largest finite one being
  an infinity. Zero has no sign here: no operation of the gateway tells the two
  zeros apart (\<open>fdiv\<close> takes its divisor's zero as positive).
\<close>

named_theorems rnd_laws \<open>laws of rounding\<close>

subsection \<open>Rounding\<close>

definition flog2 :: "rat \<Rightarrow> int" where
  "flog2 x =
     (let (n, d) = quotient_of x;
          k = bitlen n - bitlen d
      in if 2 powi k \<le> x then k else k - 1)"

definition rne :: "rat \<Rightarrow> int" where
  "rne x =
     (let f = \<lfloor>x\<rfloor>; d = x - of_int f
      in if d < 1/2 \<or> (d = 1/2 \<and> even f) then f else f + 1)"

definition qexp :: "rat \<Rightarrow> int" where
  "qexp x = max (flog2 \<bar>x\<bar> - 52) (- 1074)"

definition rnd :: "rat \<Rightarrow> rat" where
  "rnd x = (if x = 0 then 0
            else let q = 2 powi (qexp x) in of_int (rne (x / q)) * q)"

lemma powi2_add: "(2::rat) powi a * 2 powi b = 2 powi (a + b)"
  by (rule power_int_add [symmetric]) simp

lemma powi2_pos [simp]: "(0::rat) < 2 powi a"
  by (rule zero_less_power_int) simp

lemma powi2_le_iff [simp]: "(2::rat) powi a \<le> 2 powi b \<longleftrightarrow> a \<le> b"
proof
  show "a \<le> b \<Longrightarrow> (2::rat) powi a \<le> 2 powi b"
    by (rule power_int_increasing) simp_all
  show "(2::rat) powi a \<le> 2 powi b \<Longrightarrow> a \<le> b"
    using power_int_strict_increasing [of b a "2::rat"] by fastforce
qed

lemma powi2_less_iff [simp]: "(2::rat) powi a < 2 powi b \<longleftrightarrow> a < b"
  by (meson linorder_not_less powi2_le_iff)

lemma floorlog2_bounds:
  assumes "0 < n"
  shows "(2::rat) ^ (floorlog 2 n - 1) \<le> of_nat n" "of_nat n < (2::rat) ^ floorlog 2 n"
    and "0 < floorlog 2 n"
proof -
  have b: "2 ^ (floorlog 2 n - 1) \<le> n \<and> n < 2 ^ floorlog 2 n"
    using floorlog_bounds [of n 2] assms by simp
  then have "of_nat (2 ^ (floorlog 2 n - 1)) \<le> (of_nat n :: rat)"
    and "(of_nat n :: rat) < of_nat (2 ^ floorlog 2 n)"
    by (simp_all only: of_nat_le_iff of_nat_less_iff)
  then show "(2::rat) ^ (floorlog 2 n - 1) \<le> of_nat n" "of_nat n < (2::rat) ^ floorlog 2 n"
    by simp_all
  show "0 < floorlog 2 n"
    using assms by (simp add: floorlog_def)
qed

lemma flog2_bounds:
  assumes "0 < x"
  shows "2 powi (flog2 x) \<le> x" "x < 2 powi (flog2 x + 1)"
proof -
  obtain n d where q: "quotient_of x = (n, d)" by (cases "quotient_of x")
  have d: "0 < d" using q quotient_of_denom_pos by blast
  have x: "x = of_int n / of_int d" using q quotient_of_div by blast
  with assms d have n: "0 < n" by (simp add: zero_less_divide_iff)
  define N where "N = floorlog 2 (nat n)"
  define D where "D = floorlog 2 (nat d)"
  define k where "k = int N - int D"
  have on: "(of_nat (nat n) :: rat) = of_int n" and od: "(of_nat (nat d) :: rat) = of_int d"
    using n d by simp_all
  have Nb: "(2::rat) ^ (N - 1) \<le> of_int n" "of_int n < (2::rat) ^ N" "0 < N"
    using floorlog2_bounds [of "nat n"] n on unfolding N_def by auto
  have Db: "(2::rat) ^ (D - 1) \<le> of_int d" "of_int d < (2::rat) ^ D" "0 < D"
    using floorlog2_bounds [of "nat d"] d od unfolding D_def by auto
  have p1: "(2::rat) ^ (N - 1) = 2 powi (int N - 1)" "(2::rat) ^ (D - 1) = 2 powi (int D - 1)"
    using Nb(3) Db(3) by (simp_all add: power_int_def nat_diff_distrib)
  have N': "2 powi (int N - 1) \<le> (of_int n :: rat)" "of_int n < (2::rat) powi (int N)"
    using Nb(1,2) by (simp_all add: p1 [symmetric])
  have D': "2 powi (int D - 1) \<le> (of_int d :: rat)" "of_int d < (2::rat) powi (int D)"
    using Db(1,2) by (simp_all add: p1 [symmetric])
  have dpos: "(0::rat) < of_int d" using d by simp
  have "2 powi (k - 1) * of_int d \<le> 2 powi (k - 1) * (2::rat) powi (int D)"
    using D'(2) by (intro mult_left_mono less_imp_le) simp_all
  also have "\<dots> = 2 powi (int N - 1)"
    unfolding powi2_add by (simp add: k_def)
  also have "\<dots> \<le> of_int n"
    by (rule N'(1))
  finally have lower: "2 powi (k - 1) \<le> x"
    using dpos by (simp add: x pos_le_divide_eq)
  have "(of_int n :: rat) < 2 powi (int N)"
    by (rule N'(2))
  also have "\<dots> = 2 powi (k + 1) * 2 powi (int D - 1)"
    unfolding powi2_add by (simp add: k_def)
  also have "\<dots> \<le> 2 powi (k + 1) * of_int d"
    using D'(1) by (intro mult_left_mono less_imp_le [OF powi2_pos])
  finally have upper: "x < 2 powi (k + 1)"
    using dpos by (simp add: x pos_divide_less_eq)
  have fl: "flog2 x = (if 2 powi k \<le> x then k else k - 1)"
    by (simp add: flog2_def q N_def D_def k_def bitlen_def)
  show "2 powi (flog2 x) \<le> x" "x < 2 powi (flog2 x + 1)"
    using lower upper by (simp_all add: fl)
qed

lemma flog2_mono: "0 < x \<Longrightarrow> x \<le> y \<Longrightarrow> flog2 x \<le> flog2 y"
proof -
  assume xy: "0 < x" "x \<le> y"
  have "2 powi (flog2 x) < (2::rat) powi (flog2 y + 1)"
    using flog2_bounds [of x] flog2_bounds [of y] xy by linarith
  then show ?thesis by simp
qed

lemma flog2_less: "0 < x \<Longrightarrow> x < 2 powi k \<Longrightarrow> flog2 x < k"
  using flog2_bounds(1) [of x] by (metis order.strict_trans1 powi2_less_iff)

lemma flog2_ge: "2 powi k \<le> x \<Longrightarrow> k \<le> flog2 x"
proof -
  assume k: "2 powi k \<le> x"
  have "(0::rat) < 2 powi k" by simp
  with k have "0 < x" by linarith
  then have "2 powi k < (2::rat) powi (flog2 x + 1)"
    using flog2_bounds(2) [of x] k by linarith
  then show ?thesis by simp
qed

subsection \<open>Rounding to an integer, ties to even\<close>

lemma rne_of_int [simp]: "rne (of_int n) = n"
  by (simp add: rne_def)

lemma rne_error: "\<bar>of_int (rne x) - x\<bar> \<le> 1/2"
  by (simp add: rne_def Let_def abs_if) linarith

lemma rne_mono: "x \<le> y \<Longrightarrow> rne x \<le> rne y"
proof (cases "\<lfloor>x\<rfloor> = \<lfloor>y\<rfloor>")
  case True
  assume "x \<le> y"
  with True show ?thesis by (auto simp: rne_def Let_def)
next
  case False
  assume "x \<le> y"
  with False have "\<lfloor>x\<rfloor> + 1 \<le> \<lfloor>y\<rfloor>"
    using floor_mono [of x y] by linarith
  moreover have "rne x \<le> \<lfloor>x\<rfloor> + 1" "\<lfloor>y\<rfloor> \<le> rne y"
    by (simp_all add: rne_def Let_def)
  ultimately show ?thesis by linarith
qed

lemma rne_minus: "rne (- x) = - rne x"
proof (cases "x \<in> \<int>")
  case True
  then obtain n where "x = of_int n" by (auto elim: Ints_cases)
  then show ?thesis by (metis of_int_minus rne_of_int)
next
  case False
  have c: "\<lfloor>- x\<rfloor> = - \<lfloor>x\<rfloor> - 1"
    using False by (auto simp: floor_minus ceiling_altdef) (metis Ints_of_int)
  have fr: "- x - of_int (- \<lfloor>x\<rfloor> - 1) = 1 - (x - of_int \<lfloor>x\<rfloor>)"
    by simp
  show ?thesis
    unfolding rne_def c Let_def fr by auto
qed

lemma rne_ge: "of_int n \<le> x \<Longrightarrow> n \<le> rne x"
  using rne_mono [of "of_int n" x] by simp

lemma rne_le: "x \<le> of_int n \<Longrightarrow> rne x \<le> n"
  using rne_mono [of x "of_int n"] by simp

subsection \<open>Laws of rounding\<close>

lemma rnd_0 [simp, rnd_laws]: "rnd 0 = 0"
  by (simp add: rnd_def)

lemma rnd_minus [rnd_laws]: "rnd (- x) = - rnd x"
  by (simp add: rnd_def qexp_def Let_def rne_minus)

lemma qexp_ge: "- 1074 \<le> qexp x"
  by (simp add: qexp_def)

lemma rnd_nonneg [rnd_laws]: "0 \<le> x \<Longrightarrow> 0 \<le> rnd x"
proof -
  assume "0 \<le> x"
  then have "(0::rat) \<le> x / 2 powi (qexp x)"
    using powi2_pos [of "qexp x"] by (simp add: less_imp_le)
  then have "0 \<le> rne (x / 2 powi (qexp x))"
    by (intro rne_ge) simp
  then show ?thesis
    using powi2_pos [of "qexp x"] by (simp add: rnd_def Let_def less_imp_le)
qed

lemma rnd_nonpos [rnd_laws]: "x \<le> 0 \<Longrightarrow> rnd x \<le> 0"
  using rnd_nonneg [of "- x"] by (simp add: rnd_minus)

lemma rnd_upper:
  assumes "0 < x"
  shows "rnd x \<le> 2 powi (qexp x + 53)"
proof -
  have "flog2 x + 1 \<le> qexp x + 53" using assms by (simp add: qexp_def)
  then have "(2::rat) powi (flog2 x + 1) \<le> 2 powi (qexp x + 53)" by simp
  with flog2_bounds(2) [OF assms] have "x \<le> 2 powi (qexp x + 53)" by linarith
  then have "x / 2 powi (qexp x) \<le> 2 powi (qexp x + 53) / 2 powi (qexp x)"
    by (intro divide_right_mono) (simp_all add: less_imp_le)
  also have "\<dots> = of_int (2 ^ 53)"
    by (simp add: power_int_add)
  finally have "rne (x / 2 powi (qexp x)) \<le> 2 ^ 53"
    by (rule rne_le)
  then have "of_int (rne (x / 2 powi (qexp x))) * (2::rat) powi (qexp x) \<le> of_int (2 ^ 53) * 2 powi (qexp x)"
    by (intro mult_right_mono) (simp_all only: of_int_le_iff powi2_pos less_imp_le)
  then show ?thesis
    using assms by (simp add: rnd_def Let_def power_int_add)
qed

lemma rnd_lower:
  assumes "0 < x" and "- 1074 < qexp x"
  shows "2 powi (qexp x + 52) \<le> rnd x"
proof -
  have "qexp x + 52 = flog2 x" using assms by (auto simp: qexp_def split: if_splits)
  then have "2 powi (qexp x + 52) \<le> x" using flog2_bounds(1) [OF assms(1)] by simp
  then have "2 powi (qexp x + 52) / 2 powi (qexp x) \<le> x / 2 powi (qexp x)"
    by (intro divide_right_mono) (simp_all add: less_imp_le)
  moreover have "2 powi (qexp x + 52) / (2::rat) powi (qexp x) = of_int (2 ^ 52)"
    by (simp add: power_int_add)
  ultimately have "2 ^ 52 \<le> rne (x / 2 powi (qexp x))"
    by (intro rne_ge) simp
  then have "of_int (2 ^ 52) * (2::rat) powi (qexp x) \<le> of_int (rne (x / 2 powi (qexp x))) * 2 powi (qexp x)"
    by (intro mult_right_mono) (simp_all only: of_int_le_iff powi2_pos less_imp_le)
  then show ?thesis
    using assms(1) by (simp add: rnd_def Let_def power_int_add)
qed

lemma qexp_mono: "0 < x \<Longrightarrow> x \<le> y \<Longrightarrow> qexp x \<le> qexp y"
  using flog2_mono [of x y] by (auto simp: qexp_def)

lemma rnd_mono_pos:
  assumes "0 < x" "x \<le> y"
  shows "rnd x \<le> rnd y"
proof (cases "qexp x = qexp y")
  case True
  have "rne (x / 2 powi (qexp y)) \<le> rne (y / 2 powi (qexp y))"
    using assms by (intro rne_mono divide_right_mono) (simp_all add: less_imp_le)
  then have "of_int (rne (x / 2 powi (qexp y))) * (2::rat) powi (qexp y)
      \<le> of_int (rne (y / 2 powi (qexp y))) * 2 powi (qexp y)"
    by (intro mult_right_mono) (simp_all only: of_int_le_iff powi2_pos less_imp_le)
  with True assms show ?thesis by (simp add: rnd_def Let_def)
next
  case False
  with qexp_mono [OF assms] have less: "qexp x < qexp y" by simp
  have "rnd x \<le> 2 powi (qexp x + 53)" using assms(1) by (rule rnd_upper)
  also have "\<dots> \<le> 2 powi (qexp y + 52)" using less by simp
  also have "\<dots> \<le> rnd y"
    using assms less qexp_ge [of x] by (intro rnd_lower) linarith+
  finally show ?thesis .
qed

lemma rnd_mono [rnd_laws]: "x \<le> y \<Longrightarrow> rnd x \<le> rnd y"
proof -
  assume xy: "x \<le> y"
  consider "0 < x" | "x \<le> 0" "0 \<le> y" | "y < 0" by linarith
  then show ?thesis
  proof cases
    case 1 with xy show ?thesis by (intro rnd_mono_pos)
  next
    case 2 then show ?thesis using rnd_nonneg [of y] rnd_nonpos [of x] by linarith
  next
    case 3
    with xy have "rnd (- y) \<le> rnd (- x)" by (intro rnd_mono_pos) simp_all
    then show ?thesis by (simp add: rnd_minus)
  qed
qed

text \<open>The relative error of a normal result and the absolute error of a subnormal one.\<close>

definition u_rnd :: rat where
  "u_rnd = 2 powi (- 53)"

definition u_sub :: rat where
  "u_sub = 2 powi (- 1075)"

lemma u_pos [simp]: "0 < u_rnd" "0 < u_sub"
  unfolding u_rnd_def u_sub_def by (rule powi2_pos)+

lemma u_nonneg [simp]: "0 \<le> u_rnd" "0 \<le> u_sub" "0 \<le> 1 + u_rnd"
  using u_pos by linarith+

lemma rnd_error_quantum: "\<bar>rnd x - x\<bar> \<le> 2 powi (qexp x - 1)"
proof (cases "x = 0")
  case False
  define q where "q = (2::rat) powi (qexp x)"
  have q: "0 < q" by (simp add: q_def)
  have "rnd x - x = (of_int (rne (x / q)) - x / q) * q"
    using False q by (simp add: rnd_def Let_def q_def [symmetric] left_diff_distrib)
  then have "\<bar>rnd x - x\<bar> = \<bar>of_int (rne (x / q)) - x / q\<bar> * q"
    using q by (simp add: abs_mult)
  also have "\<dots> \<le> 1/2 * q"
    using q by (intro mult_right_mono rne_error) simp
  also have "\<dots> = 2 powi (qexp x - 1)"
    by (simp add: q_def power_int_diff)
  finally show ?thesis .
qed (simp add: less_imp_le)

lemma rnd_error [rnd_laws]: "\<bar>rnd x - x\<bar> \<le> \<bar>x\<bar> * u_rnd + u_sub"
proof (cases "x = 0")
  case False
  then have pos: "0 < \<bar>x\<bar>" by simp
  have m: "qexp x - 1 = max (flog2 \<bar>x\<bar> + - 53) (- 1075)" by (simp add: qexp_def)
  have "(2::rat) powi (qexp x - 1) \<le> 2 powi (flog2 \<bar>x\<bar> + - 53) + 2 powi (- 1075)"
  proof (cases "flog2 \<bar>x\<bar> + - 53 \<le> - 1075")
    case True
    then show ?thesis unfolding m max_def using powi2_pos by (simp only: if_True less_imp_le le_add_same_cancel2)
  next
    case False
    then show ?thesis unfolding m max_def using powi2_pos by (simp only: if_False less_imp_le le_add_same_cancel1)
  qed
  also have "(2::rat) powi (flog2 \<bar>x\<bar> + - 53) = 2 powi (flog2 \<bar>x\<bar>) * u_rnd"
    unfolding u_rnd_def powi2_add ..
  also have "\<dots> + 2 powi (- 1075) \<le> \<bar>x\<bar> * u_rnd + u_sub"
    unfolding u_sub_def using flog2_bounds(1) [OF pos]
    by (intro add_right_mono mult_right_mono less_imp_le [OF u_pos(1)])
  finally show ?thesis
    using rnd_error_quantum [of x] by (rule order.trans [rotated])
qed (simp add: less_imp_le)

text \<open>A value with a 53-bit significand and an exponent in range is exact.\<close>

lemma rnd_exact:
  assumes "x = of_int m * 2 powi k" and "\<bar>m\<bar> < 2 ^ 53" and "- 1074 \<le> k"
  shows "rnd x = x"
proof (cases "m = 0")
  case True
  with assms(1) show ?thesis by simp
next
  case False
  have absx: "\<bar>x\<bar> = of_int \<bar>m\<bar> * 2 powi k"
    by (simp add: assms(1) abs_mult)
  have pos: "0 < \<bar>x\<bar>" using False by (simp add: absx)
  have "(of_int \<bar>m\<bar> :: rat) < of_int (2 ^ 53)"
    using assms(2) by (simp only: of_int_less_iff)
  then have "\<bar>x\<bar> < of_int (2 ^ 53) * 2 powi k"
    unfolding absx by (intro mult_strict_right_mono powi2_pos)
  also have "\<dots> = 2 powi (k + 53)"
    by (simp add: power_int_add)
  finally have "flog2 \<bar>x\<bar> < k + 53" by (rule flog2_less [OF pos])
  then have qk: "qexp x \<le> k" using assms(3) by (simp add: qexp_def)
  then have "(2::rat) powi k = of_int (2 ^ nat (k - qexp x)) * 2 powi (qexp x)"
  proof -
    have "(2::rat) powi k = 2 powi (k - qexp x) * 2 powi (qexp x)" by (simp add: powi2_add)
    also have "(2::rat) powi (k - qexp x) = of_int (2 ^ nat (k - qexp x))"
      using qk by (simp add: power_int_def)
    finally show ?thesis .
  qed
  then have x: "x = of_int (m * 2 ^ nat (k - qexp x)) * 2 powi (qexp x)"
    by (simp add: assms(1))
  then have "x / 2 powi (qexp x) = of_int (m * 2 ^ nat (k - qexp x))"
    using powi2_pos [of "qexp x"] by (metis less_irrefl nonzero_mult_div_cancel_right)
  then have "rne (x / 2 powi (qexp x)) = m * 2 ^ nat (k - qexp x)"
    by (metis rne_of_int)
  with pos x show ?thesis
    by (simp add: rnd_def Let_def)
qed

lemma rnd_of_int: "\<bar>n\<bar> < 2 ^ 53 \<Longrightarrow> rnd (of_int n) = of_int n"
  by (rule rnd_exact [where m = n and k = 0]) simp_all

lemma rnd_of_nat: "n < 2 ^ 53 \<Longrightarrow> rnd (of_nat n) = of_nat n"
  using rnd_of_int [of "int n"] by simp

lemma rnd_1 [simp, rnd_laws]: "rnd 1 = 1"
  using rnd_of_int [of 1] by simp

lemma rnd_powi: "- 1074 \<le> k \<Longrightarrow> rnd (2 powi k) = 2 powi k"
  by (rule rnd_exact [where m = 1 and k = k]) simp_all

lemma rnd_idem [simp, rnd_laws]: "rnd (rnd x) = rnd x"
proof -
  have pos: "rnd (rnd y) = rnd y" if "0 < y" for y
  proof (cases "rne (y / 2 powi (qexp y)) = 2 ^ 53")
    case True
    then have "rnd y = of_int (2 ^ 53) * 2 powi (qexp y)" using that by (simp add: rnd_def Let_def)
    also have "\<dots> = 2 powi (qexp y + 53)" by (simp add: power_int_add)
    finally show ?thesis using rnd_powi [of "qexp y + 53"] qexp_ge [of y] by simp
  next
    case False
    have "of_int (rne (y / 2 powi (qexp y))) * 2 powi (qexp y) \<le> of_int (2 ^ 53) * (2::rat) powi (qexp y)"
      using rnd_upper [OF that] that by (simp add: rnd_def Let_def power_int_add)
    then have "rne (y / 2 powi (qexp y)) \<le> 2 ^ 53"
      by (simp only: mult_le_cancel_right_pos [OF powi2_pos] of_int_le_iff)
    moreover have "0 \<le> rne (y / 2 powi (qexp y))"
      using that by (intro rne_ge) (simp add: less_imp_le)
    ultimately have "\<bar>rne (y / 2 powi (qexp y))\<bar> < 2 ^ 53" using False by simp
    moreover have "rnd y = of_int (rne (y / 2 powi (qexp y))) * 2 powi (qexp y)"
      using that by (simp add: rnd_def Let_def)
    ultimately show ?thesis using rnd_exact qexp_ge by blast
  qed
  consider "0 < x" | "x = 0" | "0 < - x" by linarith
  then show ?thesis
  proof cases
    case 3
    with pos [of "- x"] show ?thesis by (simp add: rnd_minus)
  qed (simp_all add: pos)
qed

lemma rnd_le_exact: "x \<le> y \<Longrightarrow> rnd y = y \<Longrightarrow> rnd x \<le> y"
  using rnd_mono [of x y] by simp

lemma rnd_ge_exact: "y \<le> x \<Longrightarrow> rnd y = y \<Longrightarrow> y \<le> rnd x"
  using rnd_mono [of y x] by simp

subsection \<open>Values and operations\<close>

datatype f64 = Fin rat | PInf | NInf | NaN

definition max_fin :: rat where
  "max_fin = of_int (2 ^ 53 - 1) * 2 powi 971"

definition to_f64 :: "rat \<Rightarrow> f64" where
  "to_f64 x = (let y = rnd x in
     if max_fin < y then PInf else if y < - max_fin then NInf else Fin y)"

fun fneg :: "f64 \<Rightarrow> f64" where
  "fneg (Fin x) = Fin (- x)"
| "fneg PInf = NInf"
| "fneg NInf = PInf"
| "fneg NaN = NaN"

fun fadd :: "f64 \<Rightarrow> f64 \<Rightarrow> f64" where
  "fadd (Fin x) (Fin y) = to_f64 (x + y)"
| "fadd NaN _ = NaN"
| "fadd _ NaN = NaN"
| "fadd PInf NInf = NaN"
| "fadd NInf PInf = NaN"
| "fadd PInf _ = PInf"
| "fadd _ PInf = PInf"
| "fadd NInf _ = NInf"
| "fadd _ NInf = NInf"

definition fsub :: "f64 \<Rightarrow> f64 \<Rightarrow> f64" where
  "fsub a b = fadd a (fneg b)"

fun fsgn :: "f64 \<Rightarrow> rat" where
  "fsgn (Fin x) = sgn x"
| "fsgn PInf = 1"
| "fsgn NInf = - 1"
| "fsgn NaN = 0"

definition inf_of_sign :: "rat \<Rightarrow> f64" where
  "inf_of_sign s = (if 0 < s then PInf else if s < 0 then NInf else NaN)"

fun fmul :: "f64 \<Rightarrow> f64 \<Rightarrow> f64" where
  "fmul (Fin x) (Fin y) = to_f64 (x * y)"
| "fmul a b = inf_of_sign (fsgn a * fsgn b)"

fun fdiv :: "f64 \<Rightarrow> f64 \<Rightarrow> f64" where
  "fdiv (Fin x) (Fin y) = (if y = 0 then inf_of_sign (sgn x) else to_f64 (x / y))"
| "fdiv NaN _ = NaN"
| "fdiv _ NaN = NaN"
| "fdiv (Fin _) _ = Fin 0"
| "fdiv a (Fin y) = inf_of_sign (fsgn a * (if y = 0 then 1 else sgn y))"
| "fdiv _ _ = NaN"

fun fle :: "f64 \<Rightarrow> f64 \<Rightarrow> bool" where
  "fle (Fin x) (Fin y) = (x \<le> y)"
| "fle NaN _ = False"
| "fle _ NaN = False"
| "fle NInf _ = True"
| "fle _ PInf = True"
| "fle _ _ = False"

fun flt :: "f64 \<Rightarrow> f64 \<Rightarrow> bool" where
  "flt (Fin x) (Fin y) = (x < y)"
| "flt NaN _ = False"
| "flt _ NaN = False"
| "flt NInf b = (b \<noteq> NInf)"
| "flt a PInf = (a \<noteq> PInf)"
| "flt _ _ = False"

text \<open>\<open>f64::min\<close> ignores a NaN operand.\<close>

definition fmin :: "f64 \<Rightarrow> f64 \<Rightarrow> f64" where
  "fmin a b = (if a = NaN then b else if b = NaN then a else if fle a b then a else b)"

fun ffloor :: "f64 \<Rightarrow> f64" where
  "ffloor (Fin x) = Fin (of_int \<lfloor>x\<rfloor>)"
| "ffloor a = a"

fun fceil :: "f64 \<Rightarrow> f64" where
  "fceil (Fin x) = Fin (of_int \<lceil>x\<rceil>)"
| "fceil a = a"

text \<open>The \<open>as u64\<close> cast: truncates towards zero and saturates, NaN becomes 0.\<close>

fun f64_as_u64 :: "f64 \<Rightarrow> u64" where
  "f64_as_u64 (Fin x) =
     (if x \<le> 0 then 0 else if 18446744073709551616 \<le> x then - 1 else word_of_int \<lfloor>x\<rfloor>)"
| "f64_as_u64 PInf = - 1"
| "f64_as_u64 NInf = 0"
| "f64_as_u64 NaN = 0"

definition f64_of_u64 :: "u64 \<Rightarrow> f64" where
  "f64_of_u64 w = to_f64 (of_nat (unat w))"

text \<open>\<open>Duration::as_secs_f64\<close>; a duration is a number of nanoseconds.\<close>

definition as_secs_f64 :: "nat \<Rightarrow> f64" where
  "as_secs_f64 ns =
     fadd (to_f64 (of_nat (ns div 10 ^ 9)))
       (fdiv (to_f64 (of_nat (ns mod 10 ^ 9))) (Fin (10 ^ 9)))"

text \<open>A value the hardware can hold.\<close>

fun representable :: "f64 \<Rightarrow> bool" where
  "representable (Fin x) \<longleftrightarrow> rnd x = x \<and> \<bar>x\<bar> \<le> max_fin"
| "representable _ = True"

lemma max_fin_pos: "0 < max_fin"
  unfolding max_fin_def by (intro mult_pos_pos powi2_pos) simp

lemma max_fin_ge: "of_nat (2 ^ 64) \<le> max_fin"
proof -
  have "(2::rat) powi 64 \<le> 2 powi 971" by simp
  moreover have "1 * (2::rat) powi 971 \<le> of_int (2 ^ 53 - 1) * 2 powi 971"
    by (intro mult_right_mono less_imp_le [OF powi2_pos]) simp
  ultimately show ?thesis unfolding max_fin_def by simp
qed

lemma rnd_max_fin [simp]: "rnd max_fin = max_fin"
  by (rule rnd_exact [where m = "2 ^ 53 - 1" and k = 971]) (simp_all add: max_fin_def)

lemma to_f64_Fin: "\<bar>x\<bar> \<le> max_fin \<Longrightarrow> to_f64 x = Fin (rnd x)"
proof -
  assume a: "\<bar>x\<bar> \<le> max_fin"
  have "rnd x \<le> max_fin" using a by (intro rnd_le_exact) simp_all
  moreover have "- max_fin \<le> rnd x" using a by (intro rnd_ge_exact) (simp_all add: rnd_minus)
  ultimately show ?thesis by (simp add: to_f64_def Let_def)
qed

lemma representable_to_f64 [simp]: "representable (to_f64 x)"
  using max_fin_pos by (simp add: to_f64_def Let_def abs_if)

lemma to_f64_representable: "representable (Fin x) \<Longrightarrow> to_f64 x = Fin x"
  by (simp add: to_f64_Fin)

lemma representable_ops [simp]:
  "representable (fadd a b)" if "representable a" "representable b" for a b
  using that by (induction a b rule: fadd.induct) simp_all

lemma to_f64_not_NaN [simp]: "to_f64 x \<noteq> NaN" "NaN \<noteq> to_f64 x"
  by (simp_all add: to_f64_def Let_def)

lemma fle_refl: "a \<noteq> NaN \<Longrightarrow> fle a a"
  by (cases a) simp_all

lemma fle_trans: "fle a b \<Longrightarrow> fle b c \<Longrightarrow> fle a c"
  by (cases a; cases b; cases c) simp_all

lemma fle_not_NaN: "fle a b \<Longrightarrow> a \<noteq> NaN \<and> b \<noteq> NaN"
  by (cases a; cases b) simp_all

lemma fle_total: "a \<noteq> NaN \<Longrightarrow> b \<noteq> NaN \<Longrightarrow> fle a b \<or> fle b a"
  by (cases a; cases b) auto

lemma not_fle: "a \<noteq> NaN \<Longrightarrow> b \<noteq> NaN \<Longrightarrow> \<not> fle a b \<longleftrightarrow> flt b a"
  by (cases a; cases b) auto

lemma fmin_le_right: "b \<noteq> NaN \<Longrightarrow> fle (fmin a b) b"
  using fle_total [of a b] fle_refl [of b] by (auto simp: fmin_def)

lemma fmin_ge: "fle c a \<Longrightarrow> fle c b \<Longrightarrow> fle c (fmin a b)"
  by (auto simp: fmin_def)

lemma to_f64_mono: "x \<le> y \<Longrightarrow> fle (to_f64 x) (to_f64 y)"
  using rnd_mono [of x y] max_fin_pos by (auto simp: to_f64_def Let_def)

lemma to_f64_nonneg: "0 \<le> x \<Longrightarrow> fle (Fin 0) (to_f64 x)"
  using rnd_nonneg [of x] max_fin_pos by (auto simp: to_f64_def Let_def)

lemma fadd_nonneg: "fle (Fin 0) a \<Longrightarrow> fle (Fin 0) b \<Longrightarrow> fle (Fin 0) (fadd a b)"
  by (induction a b rule: fadd.induct) (simp_all add: to_f64_nonneg)

lemma fmul_nonneg: "fle (Fin 0) a \<Longrightarrow> a \<noteq> PInf \<Longrightarrow> fle (Fin 0) b \<Longrightarrow> b \<noteq> PInf \<Longrightarrow> fle (Fin 0) (fmul a b)"
  by (cases a; cases b) (simp_all add: to_f64_nonneg)

lemma fdiv_nonneg: "0 \<le> x \<Longrightarrow> 0 < y \<Longrightarrow> fle (Fin 0) (fdiv (Fin x) (Fin y))"
  by (simp add: to_f64_nonneg)

lemma unat_u64_less: "unat (w :: u64) < 2 ^ 64"
proof -
  have "unat w < 2 ^ LENGTH(64)" by (rule unsigned_less)
  then show ?thesis by simp
qed

lemma f64_of_u64_Fin: "\<exists>x. f64_of_u64 w = Fin x \<and> 0 \<le> x"
proof -
  have "(of_nat (unat w) :: rat) \<le> of_nat (2 ^ 64)"
    using unat_u64_less [of w] by (simp only: of_nat_le_iff less_imp_le)
  also have "\<dots> \<le> max_fin" by (rule max_fin_ge)
  finally have "\<bar>of_nat (unat w) :: rat\<bar> \<le> max_fin" by (simp only: abs_of_nat)
  then show ?thesis
    unfolding f64_of_u64_def using rnd_nonneg [of "of_nat (unat w)"] of_nat_0_le_iff
    by (simp only: to_f64_Fin f64.inject ex_simps simp_thms)
qed

lemma to_f64_code [code]:
  "to_f64 x = (let y = rnd x in
     if \<bar>y\<bar> \<le> 18446744073709551616 then Fin y
     else if max_fin < y then PInf else if y < - max_fin then NInf else Fin y)"
  using max_fin_ge by (auto simp: to_f64_def Let_def)

end
