(* ===== verification/Config_Types.thy ===== *)
theory Config_Types
  imports F64
begin

text \<open>
  The configuration of the gateway (\<open>shared/src/config_types.rs\<close>), the errors its
  validation reports (\<open>shared/src/config_error.rs\<close>), and the YAML and JSON values the
  control plane builds. A struct is a record whose fields carry a prefix for the struct;
  \<open>Option\<close> is \<open>option\<close>, \<open>Vec\<close> is \<open>list\<close>, \<open>usize\<close> is 64 bits wide.
\<close>

subsection \<open>YAML and JSON values\<close>

datatype number = PosInt u64 | NegInt int | Float f64

datatype yaml =
  YNull | YBool bool | YNumber number | YString string
| YSequence "yaml list" | YMapping "(yaml \<times> yaml) list"

datatype json =
  JNull | JBool bool | JNumber number | JString string
| JArray "json list" | JObject "(string \<times> json) list"

text \<open>\<open>Mapping::insert\<close> keeps the insertion order and replaces the value of a key that
  is present.\<close>

fun mapping_insert :: "'k \<Rightarrow> 'v \<Rightarrow> ('k \<times> 'v) list \<Rightarrow> ('k \<times> 'v) list" where
  "mapping_insert k v [] = [(k, v)]"
| "mapping_insert k v ((k', v') # m) =
     (if k' = k then (k, v) # m else (k', v') # mapping_insert k v m)"

definition mapping_of :: "('k \<times> 'v) list \<Rightarrow> ('k \<times> 'v) list" where
  "mapping_of kvs = foldl (\<lambda>m (k, v). mapping_insert k v m) [] kvs"

lemma mapping_insert_lookup [simp]:
  "map_of (mapping_insert k v m) = (map_of m)(k \<mapsto> v)"
  by (induction m) (auto simp: fun_eq_iff)

lemma mapping_insert_fresh: "k \<notin> fst ` set m \<Longrightarrow> mapping_insert k v m = m @ [(k, v)]"
  by (induction m) auto

lemma mapping_insert_keys: "fst ` set (mapping_insert k v m) = insert k (fst ` set m)"
  by (induction k v m rule: mapping_insert.induct) (simp_all add: insert_commute)

lemma mapping_insert_distinct:
  "distinct (map fst m) \<Longrightarrow> distinct (map fst (mapping_insert k v m))"
proof (induction m)
  case (Cons p m)
  then show ?case using mapping_insert_keys [of k v m] by (cases p) auto
qed simp

lemma mapping_of_fresh:
  assumes "distinct (map fst kvs)"
  shows "mapping_of kvs = kvs"
proof -
  have "foldl (\<lambda>m (k, v). mapping_insert k v m) acc kvs = acc @ kvs"
    if "distinct (map fst (acc @ kvs))" for acc :: "('a \<times> 'b) list"
    using that
  proof (induction kvs arbitrary: acc)
    case (Cons p kvs)
    then have "fst p \<notin> fst ` set acc" by auto
    with Cons show ?case by (cases p) (simp add: mapping_insert_fresh)
  qed simp
  from this [of "[]"] assms show ?thesis by (simp add: mapping_of_def)
qed

subsection \<open>Configuration\<close>

record PluginInstance =
  pi_name :: string
  pi_enabled :: bool
  pi_fail_mode :: string
  pi_config :: yaml

record PluginLimits =
  pl_max_memory_bytes :: u64
  pl_max_instructions :: u32
  pl_chain_timeout_ms :: u64

record PluginsConfig =
  pc_enabled :: bool
  pc_directory :: string
  pc_limits :: PluginLimits
  pc_global :: "PluginInstance list"

record XdsConfig =
  xc_enabled :: bool
  xc_listen_address :: string

record ExtProcConfig =
  ep_enabled :: bool
  ep_listen_address :: string

record TracingConfig =
  tc_enabled :: bool
  tc_otlp_endpoint :: string
  tc_sample_rate :: f64

record ObservabilityConfig =
  oc_access_log_json :: bool
  oc_prometheus_enabled :: bool
  oc_tracing :: TracingConfig

record HealthCheckConfig =
  hc_path :: string
  hc_interval_ms :: u64
  hc_timeout_ms :: u64

record ServiceConfig =
  sc_name :: string
  sc_endpoints :: "string list"
  sc_health_check :: HealthCheckConfig

record UpstreamConfig =
  uc_service :: string
  uc_request_timeout_ms :: u64
  uc_retries :: u32

record RouteRateLimit =
  rl_bucket_capacity :: u64
  rl_refill_rate_per_sec :: f64
  rl_key_by :: string

record RouteConfig =
  rc_name :: string
  rc_hostnames :: "string list"
  rc_path_prefix :: string
  rc_methods :: "string list"
  rc_auth_required :: bool
  rc_auth_provider :: "string option"
  rc_required_scopes :: "string list option"
  rc_rate_limit :: RouteRateLimit
  rc_upstream :: UpstreamConfig
  rc_plugins :: "PluginInstance list"

record SurvivabilityMode =
  sm_enabled :: bool
  sm_fallback_capacity :: u64
  sm_fallback_refill_rate_per_sec :: f64

record RateLimitsConfig =
  rls_redis_address :: string
  rls_redis_db :: u32
  rls_redis_key_prefix :: string
  rls_default_timeout_ms :: u64
  rls_fail_open :: bool
  rls_survivability_mode :: SurvivabilityMode

record AuthProvider =
  ap_name :: string
  ap_issuer :: string
  ap_audience :: string
  ap_jwks_uri :: string
  ap_cache_ttl_seconds :: u64
  ap_clock_skew_seconds :: u64

record AuthConfig =
  ac_providers :: "AuthProvider list"

record GatewayServer =
  gs_listen_address :: string
  gs_admin_address :: string
  gs_request_timeout_ms :: u64
  gs_idle_timeout_ms :: u64
  gs_max_request_body_bytes :: u64
  gs_trust_forwarded_headers :: bool
  gs_extauthz_address :: "string option"
  gs_max_concurrent_requests :: "u64 option"

record GatewayConfig =
  gc_version :: u32
  gc_gateway :: GatewayServer
  gc_auth :: AuthConfig
  gc_rate_limits :: RateLimitsConfig
  gc_routes :: "RouteConfig list"
  gc_services :: "ServiceConfig list"
  gc_observability :: ObservabilityConfig
  gc_plugins :: PluginsConfig
  gc_xds :: XdsConfig
  gc_ext_proc :: ExtProcConfig

subsection \<open>Defaults\<close>

definition default_true :: bool where "default_true = True"
definition default_fail_mode :: string where "default_fail_mode = ''closed''"
definition default_plugin_max_memory_bytes :: u64 where
  "default_plugin_max_memory_bytes = 8 * 1024 * 1024"
definition default_plugin_max_instructions :: u32 where
  "default_plugin_max_instructions = 1000000"
definition default_plugin_chain_timeout_ms :: u64 where "default_plugin_chain_timeout_ms = 50"
definition default_xds_listen_address :: string where
  "default_xds_listen_address = ''0.0.0.0:18000''"
definition default_ext_proc_listen_address :: string where
  "default_ext_proc_listen_address = ''0.0.0.0:19000''"

definition PluginLimits_default :: PluginLimits where
  "PluginLimits_default =
     \<lparr>pl_max_memory_bytes = default_plugin_max_memory_bytes,
      pl_max_instructions = default_plugin_max_instructions,
      pl_chain_timeout_ms = default_plugin_chain_timeout_ms\<rparr>"

definition PluginsConfig_default :: PluginsConfig where
  "PluginsConfig_default =
     \<lparr>pc_enabled = False, pc_directory = [], pc_limits = PluginLimits_default, pc_global = []\<rparr>"

definition XdsConfig_default :: XdsConfig where
  "XdsConfig_default =
     \<lparr>xc_enabled = False, xc_listen_address = default_xds_listen_address\<rparr>"

definition ExtProcConfig_default :: ExtProcConfig where
  "ExtProcConfig_default =
     \<lparr>ep_enabled = False, ep_listen_address = default_ext_proc_listen_address\<rparr>"

subsection \<open>Errors\<close>

datatype ConfigError =
  InvalidVersion u32 u32
| DuplicateName string string
| UnknownReference string string string
| InvalidValue string string
| MissingConditional string string
| YamlParse string

text \<open>The \<open>Display\<close> texts of the errors; \<open>write\<close> of a \<open>u32\<close> is its decimal.\<close>

fun ConfigError_to_string :: "ConfigError \<Rightarrow> string" where
  "ConfigError_to_string (InvalidVersion expected actual) =
     ''version must be '' @ show_nat (unat expected) @ '', got '' @ show_nat (unat actual)"
| "ConfigError_to_string (DuplicateName kind name) = ''duplicate '' @ kind @ '' name: '' @ name"
| "ConfigError_to_string (UnknownReference field target_kind target) =
     field @ '' references unknown '' @ target_kind @ '': '' @ target"
| "ConfigError_to_string (InvalidValue field reason) = field @ '': '' @ reason"
| "ConfigError_to_string (MissingConditional field reason) = field @ '': '' @ reason"
| "ConfigError_to_string (YamlParse e) = ''YAML parse error: '' @ e"

record ConfigErrors =
  ce_errors :: "ConfigError list"

definition ConfigErrors_new :: "ConfigError list \<Rightarrow> ConfigErrors" where
  "ConfigErrors_new errors = \<lparr>ce_errors = errors\<rparr>"

definition ConfigErrors_is_empty :: "ConfigErrors \<Rightarrow> bool" where
  "ConfigErrors_is_empty e \<longleftrightarrow> ce_errors e = []"

definition ConfigErrors_len :: "ConfigErrors \<Rightarrow> nat" where
  "ConfigErrors_len e = length (ce_errors e)"

definition newline :: string where "newline = [CHR 0x0A]"

definition ConfigErrors_to_string :: "ConfigErrors \<Rightarrow> string" where
  "ConfigErrors_to_string e =
     show_nat (length (ce_errors e)) @ '' config error(s):'' @ newline
     @ concat (map (\<lambda>(i, err). ''  '' @ show_nat (i + 1) @ '': '' @ ConfigError_to_string err @ newline)
         (enumerate 0 (ce_errors e)))"

text \<open>\<open>GatewayError\<close> of \<open>shared/src/error.rs\<close> and its \<open>Display\<close>.\<close>

datatype GatewayError =
  InvalidSpec string | RouteNotFound string string | ValidationFailed string | Upstream string | Config ConfigErrors

fun GatewayError_to_string :: "GatewayError \<Rightarrow> string" where
  "GatewayError_to_string (InvalidSpec e) = ''invalid OpenAPI spec: '' @ e"
| "GatewayError_to_string (RouteNotFound mthd path) = ''route not found: '' @ mthd @ '' '' @ path"
| "GatewayError_to_string (ValidationFailed e) = ''validation failed: '' @ e"
| "GatewayError_to_string (Upstream e) = ''upstream error: '' @ e"
| "GatewayError_to_string (Config e) = ConfigErrors_to_string e"

end
