(* ===== verification/Validation.thy ===== *)
theory Validation
  imports Config_Types
begin

text \<open>
  Validation and loading of a configuration (\<open>controlplane/src/config/validation.rs\<close>,
  \<open>loader.rs\<close>). A check that pushes onto \<open>errs\<close> is a function to the errors it
  pushes, in order. \<open>Url::parse\<close> is the parameter \<open>url_parse\<close>, which tells whether
  the text is a URL, and \<open>serde_yaml::from_str\<close> the parameter \<open>from_str\<close>.
\<close>

subsection \<open>The checks\<close>

definition VALID_METHODS :: "string list" where
  "VALID_METHODS = [''GET'', ''POST'', ''PUT'', ''DELETE'', ''PATCH'', ''HEAD'']"

definition VALID_KEY_BY :: "string list" where
  "VALID_KEY_BY = [''ip'', ''sub'']"

definition VALID_PLUGIN_FAIL_MODES :: "string list" where
  "VALID_PLUGIN_FAIL_MODES = [''closed'', ''open'']"

definition must_start_with_slash :: string where
  "must_start_with_slash = ''must start with '' @ [CHR 0x27, CHR ''/'', CHR 0x27]"

definition push_if :: "bool \<Rightarrow> ConfigError \<Rightarrow> ConfigError list" where
  "push_if b e = (if b then [e] else [])"

fun join :: "string \<Rightarrow> string list \<Rightarrow> string" where
  "join sep [] = []"
| "join sep [x] = x"
| "join sep (x # y # xs) = x @ sep @ join sep (y # xs)"

definition check_version :: "GatewayConfig \<Rightarrow> ConfigError list" where
  "check_version cfg = push_if (gc_version cfg \<noteq> 1) (InvalidVersion 1 (gc_version cfg))"

text \<open>The loop \<open>if !seen.insert(name) { push }\<close>.\<close>

fun check_names :: "string \<Rightarrow> string list \<Rightarrow> string list \<Rightarrow> ConfigError list" where
  "check_names kind seen [] = []"
| "check_names kind seen (n # ns) =
     (if n \<in> set seen then DuplicateName kind n # check_names kind seen ns
      else check_names kind (n # seen) ns)"

definition check_uniqueness :: "GatewayConfig \<Rightarrow> ConfigError list" where
  "check_uniqueness cfg =
     check_names ''route'' [] (map rc_name (gc_routes cfg))
     @ check_names ''service'' [] (map sc_name (gc_services cfg))
     @ check_names ''auth provider'' [] (map ap_name (ac_providers (gc_auth cfg)))"

definition check_referential_integrity :: "GatewayConfig \<Rightarrow> ConfigError list" where
  "check_referential_integrity cfg =
     (let service_names = map sc_name (gc_services cfg);
          provider_names = map ap_name (ac_providers (gc_auth cfg))
      in concat (map (\<lambda>r.
           push_if (uc_service (rc_upstream r) \<notin> set service_names)
             (UnknownReference (''routes['' @ rc_name r @ ''].upstream.service'') ''service''
               (uc_service (rc_upstream r)))
           @ (if rc_auth_required r then
                (case rc_auth_provider r of
                   Some provider \<Rightarrow> push_if (provider \<notin> set provider_names)
                     (UnknownReference (''routes['' @ rc_name r @ ''].auth_provider'')
                       ''auth provider'' provider)
                 | None \<Rightarrow> [])
              else [])) (gc_routes cfg)))"

definition validate_plugin_instance :: "PluginInstance \<Rightarrow> string \<Rightarrow> ConfigError list" where
  "validate_plugin_instance plugin field_prefix =
     push_if (trim (pi_name plugin) = [])
       (InvalidValue (field_prefix @ ''[].name'') ''must not be empty'')
     @ push_if (pi_fail_mode plugin \<notin> set VALID_PLUGIN_FAIL_MODES)
         (InvalidValue (field_prefix @ ''['' @ pi_name plugin @ ''].fail_mode'')
           (''must be one of: '' @ join '', '' VALID_PLUGIN_FAIL_MODES))"

text \<open>\<open>value.rsplitn(2, ':')\<close>: the port is the part after the last colon.\<close>

definition validate_host_port :: "string \<Rightarrow> string \<Rightarrow> ConfigError list" where
  "validate_host_port v field =
     push_if (case rsplit_once CHR '':'' v of
                None \<Rightarrow> True
              | Some (host, port) \<Rightarrow> parse_uint (2 ^ 16) port = None \<or> host = [])
       (InvalidValue field (''must be host:port format, got: '' @ v))"

fun check_plugins ::
  "string \<Rightarrow> string \<Rightarrow> (string \<Rightarrow> string) \<Rightarrow> string list \<Rightarrow> PluginInstance list \<Rightarrow> ConfigError list" where
  "check_plugins field kind label seen [] = []"
| "check_plugins field kind label seen (p # ps) =
     validate_plugin_instance p field
     @ (if pi_name p \<in> set seen
        then DuplicateName kind (label (pi_name p)) # check_plugins field kind label seen ps
        else check_plugins field kind label (pi_name p # seen) ps)"

definition check_auth_provider :: "(string \<Rightarrow> bool) \<Rightarrow> AuthProvider \<Rightarrow> ConfigError list" where
  "check_auth_provider url_parse p =
     push_if (ap_name p = []) (InvalidValue ''auth.providers[].name'' ''must not be empty'')
     @ push_if (\<not> url_parse (ap_jwks_uri p))
         (InvalidValue (''auth.providers['' @ ap_name p @ ''].jwks_uri'') ''must be a valid URL'')
     @ push_if (ap_cache_ttl_seconds p = 0)
         (InvalidValue (''auth.providers['' @ ap_name p @ ''].cache_ttl_seconds'') ''must be > 0'')"

definition check_route :: "RouteConfig \<Rightarrow> ConfigError list" where
  "check_route r =
     (let pre = ''routes['' @ rc_name r @ '']'' in
      push_if (rc_name r = []) (InvalidValue ''routes[].name'' ''must not be empty'')
      @ push_if (rc_hostnames r = []) (InvalidValue (pre @ ''.hostnames'') ''must not be empty'')
      @ push_if (rc_methods r = []) (InvalidValue (pre @ ''.methods'') ''must not be empty'')
      @ push_if (\<not> starts_with (rc_path_prefix r) ''/'')
          (InvalidValue (pre @ ''.path_prefix'') must_start_with_slash)
      @ concat (map (\<lambda>m. push_if (m \<notin> set VALID_METHODS)
          (InvalidValue (pre @ ''.methods'') (''invalid HTTP method: '' @ m))) (rc_methods r))
      @ push_if (rl_bucket_capacity (rc_rate_limit r) < 1)
          (InvalidValue (pre @ ''.rate_limit.bucket_capacity'') ''must be >= 1'')
      @ push_if (fle (rl_refill_rate_per_sec (rc_rate_limit r)) (Fin 0))
          (InvalidValue (pre @ ''.rate_limit.refill_rate_per_sec'') ''must be > 0'')
      @ push_if (rl_key_by (rc_rate_limit r) \<notin> set VALID_KEY_BY)
          (InvalidValue (pre @ ''.rate_limit.key_by'')
            (''must be one of: '' @ join '', '' VALID_KEY_BY))
      @ check_plugins (pre @ ''.plugins'') ''route plugin'' (\<lambda>n. rc_name r @ '':'' @ n) []
          (rc_plugins r))"

definition check_service :: "ServiceConfig \<Rightarrow> ConfigError list" where
  "check_service s =
     (let pre = ''services['' @ sc_name s @ '']'' in
      push_if (sc_name s = []) (InvalidValue ''services[].name'' ''must not be empty'')
      @ push_if (sc_endpoints s = []) (InvalidValue (pre @ ''.endpoints'') ''must not be empty'')
      @ concat (map (\<lambda>ep. validate_host_port ep (pre @ ''.endpoints'')) (sc_endpoints s))
      @ push_if (\<not> starts_with (hc_path (sc_health_check s)) ''/'')
          (InvalidValue (pre @ ''.health_check.path'') must_start_with_slash))"

definition check_addresses :: "GatewayConfig \<Rightarrow> ConfigError list" where
  "check_addresses cfg =
     validate_host_port (gs_listen_address (gc_gateway cfg)) ''gateway.listen_address''
     @ validate_host_port (gs_admin_address (gc_gateway cfg)) ''gateway.admin_address''
     @ (case gs_extauthz_address (gc_gateway cfg) of
          Some a \<Rightarrow> validate_host_port a ''gateway.extauthz_address'' | None \<Rightarrow> [])
     @ (if xc_enabled (gc_xds cfg)
        then validate_host_port (xc_listen_address (gc_xds cfg)) ''xds.listen_address'' else [])
     @ (if ep_enabled (gc_ext_proc cfg)
        then validate_host_port (ep_listen_address (gc_ext_proc cfg)) ''ext_proc.listen_address''
        else [])"

definition check_plugin_limits :: "PluginsConfig \<Rightarrow> ConfigError list" where
  "check_plugin_limits p =
     (if pc_enabled p then
        push_if (trim (pc_directory p) = [])
          (InvalidValue ''plugins.directory'' ''must not be empty when plugins are enabled'')
        @ push_if (pl_max_memory_bytes (pc_limits p) = 0)
            (InvalidValue ''plugins.limits.max_memory_bytes'' ''must be > 0'')
        @ push_if (pl_max_instructions (pc_limits p) = 0)
            (InvalidValue ''plugins.limits.max_instructions'' ''must be > 0'')
        @ push_if (pl_chain_timeout_ms (pc_limits p) = 0)
            (InvalidValue ''plugins.limits.chain_timeout_ms'' ''must be > 0'')
      else [])"

definition check_value_constraints :: "(string \<Rightarrow> bool) \<Rightarrow> GatewayConfig \<Rightarrow> ConfigError list" where
  "check_value_constraints url_parse cfg =
     (let sample_rate = tc_sample_rate (oc_tracing (gc_observability cfg)) in
      check_addresses cfg
      @ concat (map (check_auth_provider url_parse) (ac_providers (gc_auth cfg)))
      @ validate_host_port (rls_redis_address (gc_rate_limits cfg)) ''rate_limits.redis_address''
      @ concat (map check_route (gc_routes cfg))
      @ concat (map check_service (gc_services cfg))
      @ push_if (flt sample_rate (Fin 0) \<or> flt (Fin 1) sample_rate)
          (InvalidValue ''observability.tracing.sample_rate'' ''must be between 0.0 and 1.0'')
      @ check_plugin_limits (gc_plugins cfg)
      @ check_plugins ''plugins.global'' ''global plugin'' (\<lambda>n. n) [] (pc_global (gc_plugins cfg)))"

definition check_conditional_requirements :: "GatewayConfig \<Rightarrow> ConfigError list" where
  "check_conditional_requirements cfg =
     concat (map (\<lambda>r.
       let pre = ''routes['' @ rc_name r @ '']'' in
       push_if (rc_auth_required r \<and> rc_auth_provider r = None)
         (MissingConditional (pre @ ''.auth_provider'') ''required when auth_required is true'')
       @ (case rc_required_scopes r of
            Some scopes \<Rightarrow> push_if (scopes = [])
              (InvalidValue (pre @ ''.required_scopes'') ''must be non-empty when present'')
          | None \<Rightarrow> [])) (gc_routes cfg))
     @ push_if (tc_enabled (oc_tracing (gc_observability cfg))
           \<and> tc_otlp_endpoint (oc_tracing (gc_observability cfg)) = [])
         (MissingConditional ''observability.tracing.otlp_endpoint''
           ''required when tracing is enabled'')"

definition validate :: "(string \<Rightarrow> bool) \<Rightarrow> GatewayConfig \<Rightarrow> (ConfigErrors, unit) result" where
  "validate url_parse cfg =
     (let errs = check_version cfg @ check_uniqueness cfg @ check_referential_integrity cfg
            @ check_value_constraints url_parse cfg @ check_conditional_requirements cfg
      in if errs = [] then Inr () else Inl (ConfigErrors_new errs))"

subsection \<open>Loading\<close>

definition load_config_from_str ::
  "(string \<Rightarrow> (string, GatewayConfig) result) \<Rightarrow> (string \<Rightarrow> bool) \<Rightarrow> string
    \<Rightarrow> (ConfigErrors, GatewayConfig) result" where
  "load_config_from_str from_str url_parse text =
     (case from_str text of
        Inl e \<Rightarrow> Inl (ConfigErrors_new [YamlParse e])
      | Inr cfg \<Rightarrow> and_then (validate url_parse cfg) (\<lambda>_. Inr cfg))"

text \<open>\<open>read\<close> is the file system: the contents of a path or the message of the error.\<close>

definition load_config ::
  "(string \<Rightarrow> (string, string) result) \<Rightarrow> (string \<Rightarrow> (string, GatewayConfig) result)
    \<Rightarrow> (string \<Rightarrow> bool) \<Rightarrow> string \<Rightarrow> (ConfigErrors, GatewayConfig) result" where
  "load_config read from_str url_parse path =
     (case read path of
        Inl e \<Rightarrow> Inl (ConfigErrors_new [YamlParse (''failed to read '' @ path @ '': '' @ e)])
      | Inr contents \<Rightarrow> load_config_from_str from_str url_parse contents)"

subsection \<open>What a valid configuration is\<close>

text \<open>The specification, after the rules of \<open>specs/config-schema.md\<close>: one condition per rule,
  without the traversal.\<close>

definition host_port :: "string \<Rightarrow> bool" where
  "host_port v \<longleftrightarrow> (\<exists>host port. v = host @ '':'' @ port \<and> host \<noteq> [] \<and> CHR '':'' \<notin> set port
     \<and> parse_uint (2 ^ 16) port \<noteq> None)"

definition valid_plugins :: "PluginInstance list \<Rightarrow> bool" where
  "valid_plugins ps \<longleftrightarrow> distinct (map pi_name ps)
     \<and> (\<forall>p \<in> set ps. trim (pi_name p) \<noteq> [] \<and> pi_fail_mode p \<in> {''closed'', ''open''})"

definition valid_rate_limit :: "RouteRateLimit \<Rightarrow> bool" where
  "valid_rate_limit rl \<longleftrightarrow> 1 \<le> rl_bucket_capacity rl \<and> flt (Fin 0) (rl_refill_rate_per_sec rl)
     \<and> rl_key_by rl \<in> {''ip'', ''sub''}"

definition valid_route :: "string set \<Rightarrow> string set \<Rightarrow> RouteConfig \<Rightarrow> bool" where
  "valid_route services providers r \<longleftrightarrow>
     rc_name r \<noteq> [] \<and> rc_hostnames r \<noteq> [] \<and> starts_with (rc_path_prefix r) ''/''
     \<and> rc_methods r \<noteq> [] \<and> set (rc_methods r) \<subseteq> {''GET'', ''POST'', ''PUT'', ''DELETE'', ''PATCH'', ''HEAD''}
     \<and> valid_rate_limit (rc_rate_limit r) \<and> valid_plugins (rc_plugins r)
     \<and> uc_service (rc_upstream r) \<in> services
     \<and> (rc_auth_required r \<longrightarrow> (\<exists>p \<in> providers. rc_auth_provider r = Some p))
     \<and> rc_required_scopes r \<noteq> Some []"

definition valid_service :: "ServiceConfig \<Rightarrow> bool" where
  "valid_service s \<longleftrightarrow> sc_name s \<noteq> [] \<and> sc_endpoints s \<noteq> [] \<and> (\<forall>ep \<in> set (sc_endpoints s). host_port ep)
     \<and> starts_with (hc_path (sc_health_check s)) ''/''"

definition valid_provider :: "(string \<Rightarrow> bool) \<Rightarrow> AuthProvider \<Rightarrow> bool" where
  "valid_provider url_parse p \<longleftrightarrow> ap_name p \<noteq> [] \<and> url_parse (ap_jwks_uri p) \<and> ap_cache_ttl_seconds p \<noteq> 0"

definition valid_addresses :: "GatewayConfig \<Rightarrow> bool" where
  "valid_addresses cfg \<longleftrightarrow>
     host_port (gs_listen_address (gc_gateway cfg)) \<and> host_port (gs_admin_address (gc_gateway cfg))
     \<and> (\<forall>a. gs_extauthz_address (gc_gateway cfg) = Some a \<longrightarrow> host_port a)
     \<and> (xc_enabled (gc_xds cfg) \<longrightarrow> host_port (xc_listen_address (gc_xds cfg)))
     \<and> (ep_enabled (gc_ext_proc cfg) \<longrightarrow> host_port (ep_listen_address (gc_ext_proc cfg)))
     \<and> host_port (rls_redis_address (gc_rate_limits cfg))"

definition valid_tracing :: "TracingConfig \<Rightarrow> bool" where
  "valid_tracing t \<longleftrightarrow> fle (Fin 0) (tc_sample_rate t) \<and> fle (tc_sample_rate t) (Fin 1)
     \<and> (tc_enabled t \<longrightarrow> tc_otlp_endpoint t \<noteq> [])"

definition valid_plugins_config :: "PluginsConfig \<Rightarrow> bool" where
  "valid_plugins_config p \<longleftrightarrow> valid_plugins (pc_global p)
     \<and> (pc_enabled p \<longrightarrow> trim (pc_directory p) \<noteq> [] \<and> pl_max_memory_bytes (pc_limits p) \<noteq> 0
          \<and> pl_max_instructions (pc_limits p) \<noteq> 0 \<and> pl_chain_timeout_ms (pc_limits p) \<noteq> 0)"

definition valid_config :: "(string \<Rightarrow> bool) \<Rightarrow> GatewayConfig \<Rightarrow> bool" where
  "valid_config url_parse cfg \<longleftrightarrow>
     (let services = map sc_name (gc_services cfg);
          providers = map ap_name (ac_providers (gc_auth cfg)) in
      gc_version cfg = 1
      \<and> distinct (map rc_name (gc_routes cfg)) \<and> distinct services \<and> distinct providers
      \<and> (\<forall>r \<in> set (gc_routes cfg). valid_route (set services) (set providers) r)
      \<and> (\<forall>s \<in> set (gc_services cfg). valid_service s)
      \<and> (\<forall>p \<in> set (ac_providers (gc_auth cfg)). valid_provider url_parse p)
      \<and> valid_addresses cfg \<and> valid_tracing (oc_tracing (gc_observability cfg))
      \<and> valid_plugins_config (gc_plugins cfg))"

text \<open>The checks compare the other way round, and no comparison with NaN holds: NaN passes for a
  refill rate and for a sample rate. So what is accepted is what is valid once every NaN among
  these numbers is replaced by a good one.\<close>

definition or_else :: "f64 \<Rightarrow> f64 \<Rightarrow> f64" where
  "or_else x d = (if x = NaN then d else x)"

definition route_without_nan :: "RouteConfig \<Rightarrow> RouteConfig" where
  "route_without_nan r = r\<lparr>rc_rate_limit := (rc_rate_limit r)
     \<lparr>rl_refill_rate_per_sec := or_else (rl_refill_rate_per_sec (rc_rate_limit r)) (Fin 1)\<rparr>\<rparr>"

definition tracing_without_nan :: "TracingConfig \<Rightarrow> TracingConfig" where
  "tracing_without_nan t = t\<lparr>tc_sample_rate := or_else (tc_sample_rate t) (Fin 0)\<rparr>"

definition without_nan :: "GatewayConfig \<Rightarrow> GatewayConfig" where
  "without_nan cfg = cfg\<lparr>gc_routes := map route_without_nan (gc_routes cfg),
     gc_observability := (gc_observability cfg)\<lparr>oc_tracing := tracing_without_nan (oc_tracing (gc_observability cfg))\<rparr>\<rparr>"

definition accepted_config :: "(string \<Rightarrow> bool) \<Rightarrow> GatewayConfig \<Rightarrow> bool" where
  "accepted_config url_parse cfg \<longleftrightarrow> valid_config url_parse (without_nan cfg)"

text \<open>The same rule by rule.\<close>

definition accepted_rate_limit :: "RouteRateLimit \<Rightarrow> bool" where
  "accepted_rate_limit rl \<longleftrightarrow> 1 \<le> rl_bucket_capacity rl \<and> \<not> fle (rl_refill_rate_per_sec rl) (Fin 0)
     \<and> rl_key_by rl \<in> {''ip'', ''sub''}"

definition accepted_route :: "string set \<Rightarrow> string set \<Rightarrow> RouteConfig \<Rightarrow> bool" where
  "accepted_route services providers r \<longleftrightarrow>
     rc_name r \<noteq> [] \<and> rc_hostnames r \<noteq> [] \<and> starts_with (rc_path_prefix r) ''/''
     \<and> rc_methods r \<noteq> [] \<and> set (rc_methods r) \<subseteq> set VALID_METHODS
     \<and> accepted_rate_limit (rc_rate_limit r) \<and> valid_plugins (rc_plugins r)
     \<and> uc_service (rc_upstream r) \<in> services
     \<and> (rc_auth_required r \<longrightarrow> (\<exists>p \<in> providers. rc_auth_provider r = Some p))
     \<and> rc_required_scopes r \<noteq> Some []"

definition accepted_tracing :: "TracingConfig \<Rightarrow> bool" where
  "accepted_tracing t \<longleftrightarrow> \<not> flt (tc_sample_rate t) (Fin 0) \<and> \<not> flt (Fin 1) (tc_sample_rate t)
     \<and> (tc_enabled t \<longrightarrow> tc_otlp_endpoint t \<noteq> [])"

lemma or_else_checks:
  "flt (Fin 0) (or_else x (Fin 1)) \<longleftrightarrow> \<not> fle x (Fin 0)"
  "fle (Fin 0) (or_else x (Fin 0)) \<and> fle (or_else x (Fin 0)) (Fin 1) \<longleftrightarrow> \<not> flt x (Fin 0) \<and> \<not> flt (Fin 1) x"
  by (cases x; auto simp: or_else_def)+

lemma accepted_route_iff: "valid_route S P (route_without_nan r) \<longleftrightarrow> accepted_route S P r"
  by (auto simp: valid_route_def accepted_route_def valid_rate_limit_def accepted_rate_limit_def route_without_nan_def
      or_else_checks(1) VALID_METHODS_def)

lemma accepted_tracing_iff: "valid_tracing (tracing_without_nan t) \<longleftrightarrow> accepted_tracing t"
  using or_else_checks(2) [of "tc_sample_rate t"]
  by (auto simp: valid_tracing_def accepted_tracing_def tracing_without_nan_def)

lemma route_without_nan_name [simp]: "rc_name (route_without_nan r) = rc_name r"
  by (simp add: route_without_nan_def)

lemma accepted_config_iff:
  "accepted_config url_parse cfg \<longleftrightarrow>
     (let services = map sc_name (gc_services cfg);
          providers = map ap_name (ac_providers (gc_auth cfg)) in
      gc_version cfg = 1
      \<and> distinct (map rc_name (gc_routes cfg)) \<and> distinct services \<and> distinct providers
      \<and> (\<forall>r \<in> set (gc_routes cfg). accepted_route (set services) (set providers) r)
      \<and> (\<forall>s \<in> set (gc_services cfg). valid_service s)
      \<and> (\<forall>p \<in> set (ac_providers (gc_auth cfg)). valid_provider url_parse p)
      \<and> valid_addresses cfg \<and> accepted_tracing (oc_tracing (gc_observability cfg))
      \<and> valid_plugins_config (gc_plugins cfg))"
proof -
  have "valid_addresses (without_nan cfg) = valid_addresses cfg" by (simp add: valid_addresses_def without_nan_def)
  then show ?thesis
    by (simp add: accepted_config_def valid_config_def without_nan_def accepted_route_iff accepted_tracing_iff Let_def comp_def)
qed

lemma route_without_nan_id: "route_without_nan r = r \<longleftrightarrow> rl_refill_rate_per_sec (rc_rate_limit r) \<noteq> NaN"
  by (cases r, cases "rc_rate_limit r") (auto simp: route_without_nan_def or_else_def)

lemma tracing_without_nan_id: "tracing_without_nan t = t \<longleftrightarrow> tc_sample_rate t \<noteq> NaN"
  by (cases t) (auto simp: tracing_without_nan_def or_else_def)

lemma without_nan_id:
  "without_nan cfg = cfg \<longleftrightarrow> (\<forall>r \<in> set (gc_routes cfg). rl_refill_rate_per_sec (rc_rate_limit r) \<noteq> NaN)
     \<and> tc_sample_rate (oc_tracing (gc_observability cfg)) \<noteq> NaN"
proof -
  have "without_nan cfg = cfg \<longleftrightarrow> map route_without_nan (gc_routes cfg) = gc_routes cfg
      \<and> tracing_without_nan (oc_tracing (gc_observability cfg)) = oc_tracing (gc_observability cfg)"
    by (cases cfg, cases "gc_observability cfg") (auto simp: without_nan_def)
  moreover have "map route_without_nan (gc_routes cfg) = gc_routes cfg \<longleftrightarrow> (\<forall>r \<in> set (gc_routes cfg). route_without_nan r = r)"
    by (metis list.map_ident map_eq_conv)
  ultimately show ?thesis by (simp add: route_without_nan_id tracing_without_nan_id)
qed

text \<open>A valid configuration has no NaN among these numbers.\<close>

lemma valid_no_nan:
  assumes "valid_config url_parse cfg"
  shows "without_nan cfg = cfg"
  using assms unfolding without_nan_id
  by (auto simp: valid_config_def valid_route_def valid_rate_limit_def valid_tracing_def Let_def)

subsection \<open>Each check is empty on exactly the valid inputs\<close>

named_theorems no_errors \<open>when a check pushes nothing\<close>

lemma push_if_Nil [simp, no_errors]: "push_if b e = [] \<longleftrightarrow> \<not> b"
  by (simp add: push_if_def)

lemma set_push_if [simp]: "set (push_if b e) = (if b then {e} else {})"
  by (simp add: push_if_def)

lemma check_names_Nil [no_errors]:
  "check_names kind seen ns = [] \<longleftrightarrow> distinct ns \<and> set ns \<inter> set seen = {}"
  by (induction kind seen ns rule: check_names.induct) auto

lemma validate_host_port_Nil [no_errors]: "validate_host_port v field = [] \<longleftrightarrow> host_port v"
proof (cases "rsplit_once CHR '':'' v")
  case None
  then have "CHR '':'' \<notin> set v" by (simp add: rsplit_once_None)
  then have "\<not> host_port v" by (auto simp: host_port_def)
  with None show ?thesis by (simp add: validate_host_port_def)
next
  case (Some p)
  obtain host port where p: "p = (host, port)" by (cases p)
  have "host_port v \<longleftrightarrow> host \<noteq> [] \<and> parse_uint (2 ^ 16) port \<noteq> None"
  proof
    assume "host_port v"
    then obtain h q where "v = h @ CHR '':'' # q" "CHR '':'' \<notin> set q" "h \<noteq> []"
      "parse_uint (2 ^ 16) q \<noteq> None"
      by (auto simp: host_port_def)
    then show "host \<noteq> [] \<and> parse_uint (2 ^ 16) port \<noteq> None"
      using Some p rsplit_once_Some [of "CHR '':''" v h q] by simp
  next
    assume "host \<noteq> [] \<and> parse_uint (2 ^ 16) port \<noteq> None"
    then show "host_port v"
      using Some p rsplit_once_Some [of "CHR '':''" v host port] by (auto simp: host_port_def)
  qed
  with Some p show ?thesis by (auto simp: validate_host_port_def)
qed

lemma validate_plugin_instance_Nil [no_errors]:
  "validate_plugin_instance p field = [] \<longleftrightarrow>
     trim (pi_name p) \<noteq> [] \<and> pi_fail_mode p \<in> {''closed'', ''open''}"
  by (auto simp: validate_plugin_instance_def VALID_PLUGIN_FAIL_MODES_def)

lemma check_plugins_Nil_seen:
  "check_plugins field kind label seen ps = [] \<longleftrightarrow>
     (\<forall>p \<in> set ps. trim (pi_name p) \<noteq> [] \<and> pi_fail_mode p \<in> {''closed'', ''open''})
     \<and> distinct (map pi_name ps) \<and> pi_name ` set ps \<inter> set seen = {}"
  by (induction field kind label seen ps rule: check_plugins.induct)
    (auto simp: validate_plugin_instance_Nil)

lemma check_plugins_Nil [no_errors]: "check_plugins field kind label [] ps = [] \<longleftrightarrow> valid_plugins ps"
  by (auto simp: check_plugins_Nil_seen valid_plugins_def)

lemma check_auth_provider_Nil [no_errors]: "check_auth_provider url p = [] \<longleftrightarrow> valid_provider url p"
  by (auto simp: check_auth_provider_def valid_provider_def)

lemma check_service_Nil [no_errors]: "check_service s = [] \<longleftrightarrow> valid_service s"
  by (auto simp: check_service_def valid_service_def validate_host_port_Nil Let_def)

lemma one_le_u64: "(1 :: u64) \<le> x \<longleftrightarrow> x \<noteq> 0"
  unfolding not_less [symmetric] by simp

lemma check_route_Nil:
  "check_route r = [] \<longleftrightarrow> rc_name r \<noteq> [] \<and> rc_hostnames r \<noteq> [] \<and> rc_methods r \<noteq> []
     \<and> starts_with (rc_path_prefix r) ''/'' \<and> set (rc_methods r) \<subseteq> set VALID_METHODS
     \<and> accepted_rate_limit (rc_rate_limit r) \<and> valid_plugins (rc_plugins r)"
  by (auto simp: check_route_def accepted_rate_limit_def check_plugins_Nil VALID_KEY_BY_def Let_def
      one_le_u64)

lemma check_addresses_Nil:
  "check_addresses cfg = [] \<and> host_port (rls_redis_address (gc_rate_limits cfg)) \<longleftrightarrow> valid_addresses cfg"
  by (auto simp: check_addresses_def valid_addresses_def validate_host_port_Nil split: option.splits)

lemma check_plugin_limits_Nil:
  "check_plugin_limits p = [] \<and> valid_plugins (pc_global p) \<longleftrightarrow> valid_plugins_config p"
  by (auto simp: check_plugin_limits_def valid_plugins_config_def)

lemma check_references_Nil:
  "check_referential_integrity cfg = [] \<longleftrightarrow>
     (\<forall>r \<in> set (gc_routes cfg). uc_service (rc_upstream r) \<in> sc_name ` set (gc_services cfg)
        \<and> (rc_auth_required r \<longrightarrow> (\<forall>p. rc_auth_provider r = Some p \<longrightarrow>
              p \<in> ap_name ` set (ac_providers (gc_auth cfg)))))"
  by (auto simp: check_referential_integrity_def Let_def split: option.splits)

lemma check_conditional_Nil:
  "check_conditional_requirements cfg = [] \<longleftrightarrow>
     (\<forall>r \<in> set (gc_routes cfg). (rc_auth_required r \<longrightarrow> rc_auth_provider r \<noteq> None)
        \<and> rc_required_scopes r \<noteq> Some [])
     \<and> (tc_enabled (oc_tracing (gc_observability cfg)) \<longrightarrow>
          tc_otlp_endpoint (oc_tracing (gc_observability cfg)) \<noteq> [])"
  by (auto simp: check_conditional_requirements_def Let_def split: option.splits)

lemma check_values_Nil:
  "check_value_constraints url cfg = [] \<longleftrightarrow>
     valid_addresses cfg \<and> (\<forall>p \<in> set (ac_providers (gc_auth cfg)). valid_provider url p)
     \<and> (\<forall>r \<in> set (gc_routes cfg). check_route r = [])
     \<and> (\<forall>s \<in> set (gc_services cfg). valid_service s)
     \<and> \<not> flt (tc_sample_rate (oc_tracing (gc_observability cfg))) (Fin 0)
     \<and> \<not> flt (Fin 1) (tc_sample_rate (oc_tracing (gc_observability cfg)))
     \<and> valid_plugins_config (gc_plugins cfg)"
  unfolding check_addresses_Nil [symmetric] check_plugin_limits_Nil [symmetric]
  by (auto simp: check_value_constraints_def Let_def check_auth_provider_Nil check_service_Nil
      validate_host_port_Nil check_plugins_Nil)

lemma validate_ok_iff:
  "validate url_parse cfg = Inr () \<longleftrightarrow> accepted_config url_parse cfg"
proof -
  have v: "check_version cfg = [] \<longleftrightarrow> gc_version cfg = 1" by (simp add: check_version_def)
  have u: "check_uniqueness cfg = [] \<longleftrightarrow> distinct (map rc_name (gc_routes cfg))
      \<and> distinct (map sc_name (gc_services cfg)) \<and> distinct (map ap_name (ac_providers (gc_auth cfg)))"
    by (simp add: check_uniqueness_def check_names_Nil)
  have "validate url_parse cfg = Inr () \<longleftrightarrow> check_version cfg = [] \<and> check_uniqueness cfg = []
      \<and> check_referential_integrity cfg = [] \<and> check_value_constraints url_parse cfg = []
      \<and> check_conditional_requirements cfg = []"
    by (simp add: validate_def Let_def)
  also have "\<dots> \<longleftrightarrow> accepted_config url_parse cfg"
    unfolding v u check_references_Nil check_values_Nil check_conditional_Nil check_route_Nil
      accepted_config_iff accepted_route_def accepted_tracing_def Let_def
    by (auto simp: image_iff) fastforce+
  finally show ?thesis .
qed

end
