(* ===== verification/Sample_Config.thy ===== *)
theory Sample_Config
  imports Validation
begin

text \<open>
  The configuration of the test suite (\<open>shared/src/config_types.rs\<close>, \<open>sample_yaml\<close>),
  with an authenticated route added: the concrete input at which properties of valid
  configurations are applied.
\<close>

definition sample_route :: RouteConfig where
  "sample_route =
     \<lparr>rc_name = ''public-api'', rc_hostnames = [''api.example.com''], rc_path_prefix = ''/public'',
      rc_methods = [''GET'', ''POST''], rc_auth_required = False, rc_auth_provider = None,
      rc_required_scopes = None,
      rc_rate_limit = \<lparr>rl_bucket_capacity = 100, rl_refill_rate_per_sec = Fin 10, rl_key_by = ''ip''\<rparr>,
      rc_upstream = \<lparr>uc_service = ''backend'', uc_request_timeout_ms = 5000, uc_retries = 1\<rparr>,
      rc_plugins = []\<rparr>"

definition sample_private_route :: RouteConfig where
  "sample_private_route =
     sample_route\<lparr>rc_name := ''private-api'', rc_path_prefix := ''/public/private'',
      rc_auth_required := True, rc_auth_provider := Some ''main'',
      rc_required_scopes := Some [''read''],
      rc_rate_limit := \<lparr>rl_bucket_capacity = 2, rl_refill_rate_per_sec = Fin 1, rl_key_by = ''sub''\<rparr>\<rparr>"

definition sample_service :: ServiceConfig where
  "sample_service =
     \<lparr>sc_name = ''backend'', sc_endpoints = [''backend-01:8080''],
      sc_health_check = \<lparr>hc_path = ''/healthz'', hc_interval_ms = 2000, hc_timeout_ms = 500\<rparr>\<rparr>"

definition sample_provider :: AuthProvider where
  "sample_provider =
     \<lparr>ap_name = ''main'', ap_issuer = ''https://auth.example.local/'', ap_audience = ''api-gateway'',
      ap_jwks_uri = ''http://localhost:7001/.well-known/jwks.json'', ap_cache_ttl_seconds = 300,
      ap_clock_skew_seconds = 30\<rparr>"

definition sample_config :: GatewayConfig where
  "sample_config =
     \<lparr>gc_version = 1,
      gc_gateway = \<lparr>gs_listen_address = ''0.0.0.0:8080'', gs_admin_address = ''0.0.0.0:9090'',
        gs_request_timeout_ms = 15000, gs_idle_timeout_ms = 60000,
        gs_max_request_body_bytes = 10485760, gs_trust_forwarded_headers = False,
        gs_extauthz_address = None, gs_max_concurrent_requests = None\<rparr>,
      gc_auth = \<lparr>ac_providers = [sample_provider]\<rparr>,
      gc_rate_limits = \<lparr>rls_redis_address = ''redis:6379'', rls_redis_db = 0,
        rls_redis_key_prefix = ''rl'', rls_default_timeout_ms = 50, rls_fail_open = False,
        rls_survivability_mode = \<lparr>sm_enabled = True, sm_fallback_capacity = 20,
          sm_fallback_refill_rate_per_sec = Fin 5\<rparr>\<rparr>,
      gc_routes = [sample_route, sample_private_route],
      gc_services = [sample_service],
      gc_observability = \<lparr>oc_access_log_json = True, oc_prometheus_enabled = True,
        oc_tracing = \<lparr>tc_enabled = False, tc_otlp_endpoint = [], tc_sample_rate = Fin 0\<rparr>\<rparr>,
      gc_plugins = PluginsConfig_default, gc_xds = XdsConfig_default,
      gc_ext_proc = ExtProcConfig_default\<rparr>"

lemmas sample_defs = sample_config_def sample_route_def sample_private_route_def sample_service_def
  sample_provider_def PluginsConfig_default_def XdsConfig_default_def ExtProcConfig_default_def

lemma host_port_I:
  "\<lbrakk>v = host @ '':'' @ port; host \<noteq> []; CHR '':'' \<notin> set port; parse_uint (2 ^ 16) port = Some n\<rbrakk>
    \<Longrightarrow> host_port v"
  by (auto simp: host_port_def)

lemma sample_host_ports:
  "host_port ''0.0.0.0:8080''" "host_port ''0.0.0.0:9090''" "host_port ''redis:6379''"
  "host_port ''backend-01:8080''"
  by (rule host_port_I [of _ "''0.0.0.0''" "''8080''"] host_port_I [of _ "''0.0.0.0''" "''9090''"]
      host_port_I [of _ "''redis''" "''6379''"] host_port_I [of _ "''backend-01''" "''8080''"];
      simp add: parse_uint_def decimal_value_def digit_value_def is_digit_def)+

lemma sample_valid: "accepted_config (\<lambda>_. True) sample_config"
  by (simp add: accepted_config_iff sample_defs accepted_route_def valid_service_def valid_provider_def
      valid_addresses_def accepted_tracing_def valid_plugins_config_def valid_plugins_def
      accepted_rate_limit_def VALID_METHODS_def sample_host_ports Let_def)

end
