(* ===== verification/Route_Groups.thy ===== *)
theory Route_Groups
  imports Config_Types "HOL-Library.Multiset"
begin

text \<open>
  Grouping of routes into virtual hosts, shared by the bootstrap generator and the xDS
  control plane: routes with the same set of hostnames belong together. The two differ
  in the order of the groups only, which the locale abstracts from.
\<close>

definition route_key :: "RouteConfig \<Rightarrow> string list" where
  "route_key r = sort (rc_hostnames r)"

definition routes_of_key :: "RouteConfig list \<Rightarrow> string list \<Rightarrow> RouteConfig list" where
  "routes_of_key routes k = filter (\<lambda>r. route_key r = k) routes"

lemma routes_of_key_snoc:
  "routes_of_key (routes @ [r]) k = routes_of_key routes k @ (if route_key r = k then [r] else [])"
  by (simp add: routes_of_key_def)

lemma routes_of_key_Nil: "routes_of_key routes k = [] \<longleftrightarrow> k \<notin> route_key ` set routes"
  by (auto simp: routes_of_key_def filter_empty_conv)

lemma set_routes_of_key: "r \<in> set (routes_of_key routes k) \<longleftrightarrow> r \<in> set routes \<and> route_key r = k"
  by (auto simp: routes_of_key_def)

lemma mset_routes_of_keys:
  "distinct ks \<Longrightarrow> mset (concat (map (routes_of_key routes) ks)) = mset (filter (\<lambda>r. route_key r \<in> set ks) routes)"
proof (induction ks)
  case (Cons k ks)
  have "mset (routes_of_key routes k) + mset (filter (\<lambda>r. route_key r \<in> set ks) routes)
      = mset (filter (\<lambda>r. route_key r = k \<or> route_key r \<in> set ks) routes)"
    using Cons.prems unfolding routes_of_key_def by (induction routes) auto
  with Cons show ?case by simp
qed simp

locale grouping =
  fixes keys :: "RouteConfig list \<Rightarrow> string list list"
  assumes keys_distinct: "distinct (keys routes)"
    and keys_set: "set (keys routes) = route_key ` set routes"
begin

lemma no_route_lost: "mset (concat (map (routes_of_key routes) (keys routes))) = mset routes"
  by (simp add: mset_routes_of_keys keys_distinct keys_set)

lemma first_route:
  assumes "k \<in> set (keys routes)"
  shows "hd (routes_of_key routes k) \<in> set routes" "route_key (hd (routes_of_key routes k)) = k"
proof -
  have "routes_of_key routes k \<noteq> []" using assms by (simp add: routes_of_key_Nil keys_set)
  then have "hd (routes_of_key routes k) \<in> set (routes_of_key routes k)" by (rule hd_in_set)
  then show "hd (routes_of_key routes k) \<in> set routes" "route_key (hd (routes_of_key routes k)) = k"
    by (simp_all add: set_routes_of_key)
qed

lemma one_group: "r \<in> set routes \<Longrightarrow> k \<in> set (keys routes) \<Longrightarrow> r \<in> set (routes_of_key routes k) \<longleftrightarrow> k = route_key r"
  by (auto simp: set_routes_of_key)

end

end
