(* ===== verification/Envoy_Gen.thy ===== *)
theory Envoy_Gen
  imports Sample_Config Route_Groups
begin

text \<open>
  Generation of Envoy's static bootstrap (\<open>controlplane/src/config/envoy_gen.rs\<close>,
  \<open>envoy_ext_authz.rs\<close>). A \<open>serde_yaml::Value\<close> is a \<open>yaml\<close>; the two serde
  functions that the code calls, \<open>to_value\<close> and \<open>to_string\<close>, are parameters.
\<close>

datatype EnvoyGenError = InvalidEndpoint string | Serialization string

definition val :: "string \<Rightarrow> yaml" where "val s = YString s"

text \<open>\<open>Mapping::new()\<close> followed by \<open>insert(val(k), v)\<close> for each pair.\<close>

definition ymap :: "(string \<times> yaml) list \<Rightarrow> yaml" where
  "ymap kvs = YMapping (mapping_of (map (\<lambda>(k, v). (val k, v)) kvs))"

definition ynat :: "u64 \<Rightarrow> yaml" where "ynat n = YNumber (PosInt n)"

subsection \<open>Helpers\<close>

definition parse_endpoint :: "string \<Rightarrow> (EnvoyGenError, string \<times> u16) result" where
  "parse_endpoint endpoint =
     (case rsplit_once CHR '':'' endpoint of
        None \<Rightarrow> Inl (InvalidEndpoint endpoint)
      | Some (host, port_str) \<Rightarrow>
          if host = [] then Inl (InvalidEndpoint endpoint)
          else (case parse_uint (2 ^ 16) port_str of
                  None \<Rightarrow> Inl (InvalidEndpoint endpoint)
                | Some port \<Rightarrow> Inr (host, of_nat port)))"

text \<open>The width-3 zero-padded format \<open>{frac:03}\<close>.\<close>

definition pad3 :: "nat \<Rightarrow> string" where
  "pad3 n = replicate (3 - length (show_nat n)) CHR ''0'' @ show_nat n"

definition duration_string :: "u64 \<Rightarrow> string" where
  "duration_string ms =
     (let secs = unat ms div 1000; frac = unat ms mod 1000 in
      if frac = 0 then show_nat secs @ ''s'' else show_nat secs @ ''.'' @ pad3 frac @ ''s'')"

definition build_socket_address :: "string \<Rightarrow> u16 \<Rightarrow> yaml" where
  "build_socket_address host port =
     ymap [(''socket_address'',
       ymap [(''address'', val host), (''port_value'', ynat (ucast port))])]"

definition build_admin :: yaml where
  "build_admin = ymap [(''address'', build_socket_address ''127.0.0.1'' 9901)]"

subsection \<open>The ext_authz filter and cluster\<close>

definition build_ext_authz_filter :: yaml where
  "build_ext_authz_filter =
     (let server_uri = ymap [(''uri'', val ''http://gateway_manager_extauthz''),
            (''cluster'', val ''gateway_manager_extauthz''), (''timeout'', val ''0.250s'')];
          auth_pattern = ymap [(''exact'', val ''authorization'')];
          host_pattern = ymap [(''exact'', val ''host'')];
          fwd_pattern = ymap [(''prefix'', val ''x-forwarded-'')];
          allowed_headers = ymap [(''patterns'', YSequence [auth_pattern, host_pattern, fwd_pattern])];
          auth_request = ymap [(''allowed_headers'', allowed_headers)];
          upstream_pattern = ymap [(''prefix'', val ''x-auth-'')];
          rl_pattern = ymap [(''prefix'', val ''x-ratelimit-'')];
          allowed_upstream = ymap [(''patterns'', YSequence [upstream_pattern, rl_pattern])];
          auth_response = ymap [(''allowed_upstream_headers'', allowed_upstream)];
          http_service = ymap [(''server_uri'', server_uri), (''authorization_request'', auth_request),
            (''authorization_response'', auth_response)];
          typed_config = ymap
            [(''@type'', val ''type.googleapis.com/envoy.extensions.filters.http.ext_authz.v3.ExtAuthz''),
             (''transport_api_version'', val ''V3''), (''http_service'', http_service),
             (''failure_mode_allow'', YBool False)]
      in ymap [(''name'', val ''envoy.filters.http.ext_authz''), (''typed_config'', typed_config)])"

definition build_ext_authz_cluster :: "string \<Rightarrow> u16 \<Rightarrow> yaml" where
  "build_ext_authz_cluster host port =
     (let ep_inner = ymap [(''address'', build_socket_address host port)];
          lb_ep = ymap [(''endpoint'', ep_inner)];
          endpoint_group = ymap [(''lb_endpoints'', YSequence [lb_ep])];
          load_assignment = ymap [(''cluster_name'', val ''gateway_manager_extauthz''),
            (''endpoints'', YSequence [endpoint_group])]
      in ymap [(''name'', val ''gateway_manager_extauthz''), (''type'', val ''STATIC''),
           (''connect_timeout'', val ''0.250s''), (''load_assignment'', load_assignment)])"

subsection \<open>Clusters\<close>

definition build_health_check :: "ServiceConfig \<Rightarrow> yaml" where
  "build_health_check service =
     (let hc = sc_health_check service;
          http_hc = ymap [(''path'', val (hc_path hc))]
      in ymap [(''timeout'', val (duration_string (hc_timeout_ms hc))),
           (''interval'', val (duration_string (hc_interval_ms hc))),
           (''unhealthy_threshold'', ynat 3), (''healthy_threshold'', ynat 1),
           (''http_health_check'', http_hc)])"

definition build_lb_endpoint :: "string \<Rightarrow> (EnvoyGenError, yaml) result" where
  "build_lb_endpoint ep = and_then (parse_endpoint ep) (\<lambda>(host, port).
     Inr (ymap [(''endpoint'', ymap [(''address'', build_socket_address host port)])]))"

definition build_cluster :: "ServiceConfig \<Rightarrow> (EnvoyGenError, yaml) result" where
  "build_cluster service =
     and_then (collect_results build_lb_endpoint (sc_endpoints service)) (\<lambda>lb_endpoints.
       let endpoint_group = ymap [(''lb_endpoints'', YSequence lb_endpoints)];
           load_assignment = ymap [(''cluster_name'', val (sc_name service)),
             (''endpoints'', YSequence [endpoint_group])];
           health_check = build_health_check service
       in Inr (ymap [(''name'', val (sc_name service)), (''type'', val ''STRICT_DNS''),
            (''lb_policy'', val ''ROUND_ROBIN''),
            (''connect_timeout'', val (duration_string (hc_timeout_ms (sc_health_check service)))),
            (''load_assignment'', load_assignment), (''health_checks'', YSequence [health_check])]))"

definition build_clusters :: "ServiceConfig list \<Rightarrow> (EnvoyGenError, yaml list) result" where
  "build_clusters services = collect_results build_cluster services"

subsection \<open>Virtual hosts\<close>

definition build_route_entry :: "RouteConfig \<Rightarrow> yaml" where
  "build_route_entry route =
     (let match_rule = ymap [(''prefix'', val (rc_path_prefix route))];
          retry_policy = ymap [(''retry_on'', val ''5xx,connect-failure''),
            (''num_retries'', ynat (ucast (uc_retries (rc_upstream route))))];
          route_action = ymap
            ([(''cluster'', val (uc_service (rc_upstream route))),
              (''timeout'', val (duration_string (uc_request_timeout_ms (rc_upstream route))))]
             @ (if 0 < uc_retries (rc_upstream route) then [(''retry_policy'', retry_policy)] else []))
      in ymap [(''match'', match_rule), (''route'', route_action)])"

text \<open>One round of the grouping loop: extend the first group with the key of the route, or
  open a group at the end.\<close>

fun add_to_group ::
  "string list \<Rightarrow> string \<Rightarrow> 'a \<Rightarrow> (string list \<times> string \<times> 'a list) list
    \<Rightarrow> (string list \<times> string \<times> 'a list) list" where
  "add_to_group key name entry [] = [(key, name, [entry])]"
| "add_to_group key name entry ((k, n, es) # gs) =
     (if k = key then (k, n, es @ [entry]) # gs else (k, n, es) # add_to_group key name entry gs)"

definition group_routes :: "RouteConfig list \<Rightarrow> (string list \<times> string \<times> yaml list) list" where
  "group_routes routes =
     foldl (\<lambda>groups route.
       add_to_group (sort (rc_hostnames route)) (rc_name route) (build_route_entry route) groups)
       [] routes"

text \<open>\<open>None\<close> is the panic of \<open>expect("route")\<close>.\<close>

definition build_virtual_host ::
  "RouteConfig list \<Rightarrow> string list \<times> string \<times> yaml list \<Rightarrow> yaml option" where
  "build_virtual_host routes g =
     (case g of (_, name, route_entries) \<Rightarrow>
        map_option (\<lambda>matching.
          ymap [(''name'', val name), (''domains'', YSequence (map val (rc_hostnames matching))),
                (''routes'', YSequence route_entries)])
          (find (\<lambda>r. rc_name r = name) routes))"

definition build_virtual_hosts :: "RouteConfig list \<Rightarrow> yaml list option" where
  "build_virtual_hosts routes = those (map (build_virtual_host routes) (group_routes routes))"

subsection \<open>The listener and the whole configuration\<close>

definition http_filters :: "GatewayConfig \<Rightarrow> yaml list" where
  "http_filters cfg =
     (if gs_extauthz_address (gc_gateway cfg) \<noteq> None then [build_ext_authz_filter] else [])
     @ [ymap [(''name'', val ''envoy.filters.http.router''),
          (''typed_config'',
             ymap [(''@type'', val ''type.googleapis.com/envoy.extensions.filters.http.router.v3.Router'')])]]"

text \<open>A panic of \<open>build_virtual_hosts\<close> is kept as the outer \<open>None\<close>.\<close>

definition build_listener :: "GatewayConfig \<Rightarrow> (EnvoyGenError, yaml) result option" where
  "build_listener cfg =
     (case parse_endpoint (gs_listen_address (gc_gateway cfg)) of
        Inl e \<Rightarrow> Some (Inl e)
      | Inr (listen_host, listen_port) \<Rightarrow>
          map_option (\<lambda>virtual_hosts.
            let route_config = ymap [(''name'', val ''local_route''),
                  (''virtual_hosts'', YSequence virtual_hosts)];
                common_http = ymap [(''idle_timeout'',
                  val (duration_string (gs_idle_timeout_ms (gc_gateway cfg))))];
                hcm_typed_config = ymap
                  [(''@type'', val ''type.googleapis.com/envoy.extensions.filters.network.http_connection_manager.v3.HttpConnectionManager''),
                   (''stat_prefix'', val ''ingress_http''), (''generate_request_id'', YBool True),
                   (''common_http_protocol_options'', common_http), (''route_config'', route_config),
                   (''http_filters'', YSequence (http_filters cfg))];
                hcm_filter = ymap [(''name'', val ''envoy.filters.network.http_connection_manager''),
                  (''typed_config'', hcm_typed_config)];
                filter_chain = ymap [(''filters'', YSequence [hcm_filter])]
            in Inr (ymap [(''name'', val ''main_listener''),
                 (''address'', build_socket_address listen_host listen_port),
                 (''filter_chains'', YSequence [filter_chain])]))
            (build_virtual_hosts (gc_routes cfg)))"

definition envoy_root :: "yaml \<Rightarrow> yaml list \<Rightarrow> yaml \<Rightarrow> yaml" where
  "envoy_root listener clusters root0 =
     (let m = (case root0 of YMapping m \<Rightarrow> m | _ \<Rightarrow> []);
          static_resources = ymap [(''listeners'', YSequence [listener]), (''clusters'', YSequence clusters)]
      in YMapping (mapping_insert (val ''admin'') build_admin
           (mapping_insert (val ''static_resources'') static_resources m)))"

definition generate_envoy_config ::
  "(yaml \<Rightarrow> (string, yaml) result) \<Rightarrow> (yaml \<Rightarrow> (string, string) result) \<Rightarrow> GatewayConfig
    \<Rightarrow> (EnvoyGenError, string) result option" where
  "generate_envoy_config to_value to_string cfg =
     map_option (\<lambda>listener_result.
       and_then listener_result (\<lambda>listener.
       and_then (build_clusters (gc_services cfg)) (\<lambda>clusters0.
       and_then (case gs_extauthz_address (gc_gateway cfg) of
                   Some addr \<Rightarrow> and_then (parse_endpoint addr) (\<lambda>(host, port).
                     Inr (clusters0 @ [build_ext_authz_cluster host port]))
                 | None \<Rightarrow> Inr clusters0) (\<lambda>clusters.
       and_then (map_sum Serialization (\<lambda>v. v) (to_value (YMapping []))) (\<lambda>root0.
       map_sum Serialization (\<lambda>s. s) (to_string (envoy_root listener clusters root0)))))))
       (build_listener cfg)"

subsection \<open>Reading a YAML value\<close>

fun yget :: "string \<Rightarrow> yaml \<Rightarrow> yaml option" where
  "yget k (YMapping m) = map_of m (val k)"
| "yget k _ = None"

fun yitems :: "yaml \<Rightarrow> yaml list" where
  "yitems (YSequence xs) = xs"
| "yitems _ = []"

fun ypath :: "string list \<Rightarrow> yaml \<Rightarrow> yaml option" where
  "ypath [] v = Some v"
| "ypath (k # ks) v = Option.bind (yget k v) (ypath ks)"

lemma val_inject [simp]: "val a = val b \<longleftrightarrow> a = b"
  by (simp add: val_def)

lemma yget_ymap [simp]: "yget k (ymap kvs) = map_of (rev kvs) k"
proof -
  have "map_of (foldl (\<lambda>m (k, v). mapping_insert k v m) acc (map (\<lambda>(k, v). (val k, v)) kvs)) (val k)
      = (case map_of (rev kvs) k of Some v \<Rightarrow> Some v | None \<Rightarrow> map_of acc (val k))" for acc :: "(yaml \<times> yaml) list"
    by (induction kvs arbitrary: acc) (auto split: option.splits)
  from this [of "[]"] show ?thesis
    by (simp add: ymap_def mapping_of_def split: option.splits)
qed

subsection \<open>Endpoints and durations\<close>

lemma parse_endpoint_Inr:
  "parse_endpoint v = Inr (host, port) \<longleftrightarrow>
     (\<exists>p n. v = host @ '':'' @ p \<and> host \<noteq> [] \<and> CHR '':'' \<notin> set p
        \<and> parse_uint (2 ^ 16) p = Some n \<and> port = of_nat n)"
proof (cases "rsplit_once CHR '':'' v")
  case None
  then have "CHR '':'' \<notin> set v" by (simp add: rsplit_once_None)
  with None show ?thesis by (auto simp: parse_endpoint_def)
next
  case (Some q)
  obtain h p where q: "q = (h, p)" by (cases q)
  have v: "v = h @ CHR '':'' # p" "CHR '':'' \<notin> set p"
    using Some q rsplit_once_Some [of "CHR '':''" v h p] by simp_all
  have uniq: "h' = h \<and> p' = p" if "v = h' @ CHR '':'' # p'" "CHR '':'' \<notin> set p'" for h' p'
    using that Some q rsplit_once_Some [of "CHR '':''" v h' p'] by simp
  have pe: "parse_endpoint v = Inr (host, port) \<longleftrightarrow>
      host = h \<and> h \<noteq> [] \<and> (\<exists>n. parse_uint (2 ^ 16) p = Some n \<and> port = of_nat n)"
    unfolding parse_endpoint_def Some q by (auto split: option.splits)
  show ?thesis
  proof
    assume "parse_endpoint v = Inr (host, port)"
    with pe v show "\<exists>p n. v = host @ '':'' @ p \<and> host \<noteq> [] \<and> CHR '':'' \<notin> set p
        \<and> parse_uint (2 ^ 16) p = Some n \<and> port = of_nat n"
      by (intro exI [of _ p]) auto
  next
    assume "\<exists>p n. v = host @ '':'' @ p \<and> host \<noteq> [] \<and> CHR '':'' \<notin> set p
        \<and> parse_uint (2 ^ 16) p = Some n \<and> port = of_nat n"
    then obtain p' n where "v = host @ CHR '':'' # p'" "host \<noteq> []" "CHR '':'' \<notin> set p'"
      "parse_uint (2 ^ 16) p' = Some n" "port = of_nat n"
      by auto
    with uniq [of host p'] show "parse_endpoint v = Inr (host, port)" unfolding pe by auto
  qed
qed

lemma parse_endpoint_ok: "is_ok (parse_endpoint v) \<longleftrightarrow> host_port v"
  unfolding is_ok_iff host_port_def
  by (metis (no_types, lifting) not_Some_eq parse_endpoint_Inr surj_pair)

lemma parse_endpoint_total: "host_port v \<Longrightarrow> \<exists>host port. parse_endpoint v = Inr (host, port)"
  using parse_endpoint_ok [of v] by (auto simp: is_ok_iff)

text \<open>A duration as Envoy reads it: whole seconds, an optional fraction of up to nine
  digits, the letter s; the value in nanoseconds.\<close>

definition duration_nanos :: "string \<Rightarrow> nat option" where
  "duration_nanos t =
     (if t = [] \<or> last t \<noteq> CHR ''s'' then None
      else case split_once CHR ''.'' (butlast t) of
             None \<Rightarrow> map_option (\<lambda>s. s * 10 ^ 9) (parse_uint (2 ^ 64) (butlast t))
           | Some (w, f) \<Rightarrow>
               if length f \<le> 9 then
                 Option.bind (parse_uint (2 ^ 64) w) (\<lambda>s.
                   map_option (\<lambda>n. s * 10 ^ 9 + n * 10 ^ (9 - length f)) (parse_uint (10 ^ 9) f))
               else None)"

lemma show_nat_length: "n < 1000 \<Longrightarrow> length (show_nat n) \<le> 3"
  by (subst show_nat.simps, subst show_nat.simps, subst show_nat.simps) simp

lemma decimal_value_zeros: "decimal_value (replicate k CHR ''0'' @ s) = decimal_value s"
  by (induction k) (simp_all add: decimal_value_def digit_value_def)

lemma pad3_parse:
  assumes "n < 1000"
  shows "parse_uint (10 ^ 9) (pad3 n) = Some n" "length (pad3 n) = 3"
proof -
  show "length (pad3 n) = 3" using show_nat_length [OF assms] by (simp add: pad3_def)
  have "is_digit CHR ''0''" by (simp add: is_digit_def)
  have d: "list_all is_digit (pad3 n)"
    using show_nat_digits [of n] \<open>is_digit CHR ''0''\<close> by (auto simp: pad3_def list_all_iff)
  have "pad3 n \<noteq> []" by (simp add: pad3_def)
  then have "hd (pad3 n) \<noteq> CHR ''+''"
    using d by (cases "pad3 n") (auto simp: is_digit_def)
  with d \<open>pad3 n \<noteq> []\<close> show "parse_uint (10 ^ 9) (pad3 n) = Some n"
    using assms by (simp add: parse_uint_def decimal_value_zeros pad3_def)
qed

lemma show_nat_no_dot: "CHR ''.'' \<notin> set (show_nat n)"
  using show_nat_digits [of n] digit_not_sep by (auto simp: list_all_iff)

lemma duration_string_nanos: "duration_nanos (duration_string ms) = Some (unat ms * 10 ^ 6)"
proof -
  define s where "s = unat ms div 1000"
  define f where "f = unat ms mod 1000"
  have ds: "duration_string ms = (if f = 0 then show_nat s @ ''s'' else show_nat s @ ''.'' @ pad3 f @ ''s'')"
    by (simp add: duration_string_def s_def f_def Let_def)
  have ms: "unat ms = s * 1000 + f" by (simp add: s_def f_def)
  have f: "f < 1000" by (simp add: f_def)
  have "s < 2 ^ 64" using unat_u64_less [of ms] by (simp add: s_def)
  then have ps: "parse_uint (2 ^ 64) (show_nat s) = Some s" by (rule parse_show_nat)
  show ?thesis
  proof (cases "f = 0")
    case True
    have "split_once CHR ''.'' (show_nat s) = None" by (simp add: split_once_None show_nat_no_dot)
    with True ps show ?thesis unfolding ds ms by (simp add: duration_nanos_def)
  next
    case False
    have "split_once CHR ''.'' (show_nat s @ CHR ''.'' # pad3 f) = Some (show_nat s, pad3 f)"
      by (simp add: split_once_Some show_nat_no_dot)
    moreover have "butlast (duration_string ms) = show_nat s @ CHR ''.'' # pad3 f"
      "last (duration_string ms) = CHR ''s''" "duration_string ms \<noteq> []"
      using False by (simp_all add: ds butlast_append)
    ultimately show ?thesis
      using ps pad3_parse [OF f] by (simp add: duration_nanos_def ms)
  qed
qed

subsection \<open>Grouping into virtual hosts\<close>

text \<open>The keys in order of first occurrence.\<close>

definition first_keys :: "RouteConfig list \<Rightarrow> string list list" where
  "first_keys routes = rev (remdups (rev (map route_key routes)))"

lemma set_first_keys [simp]: "set (first_keys routes) = route_key ` set routes"
  by (simp add: first_keys_def)

lemma distinct_first_keys [simp]: "distinct (first_keys routes)"
  by (simp add: first_keys_def)

lemma first_keys_snoc:
  "first_keys (routes @ [r]) =
     (if route_key r \<in> route_key ` set routes then first_keys routes
      else first_keys routes @ [route_key r])"
  by (simp add: first_keys_def)

lemma add_to_group_map:
  assumes "distinct ks"
  shows "add_to_group k n e (map (\<lambda>k. (k, name k, es k)) ks) =
    (if k \<in> set ks then map (\<lambda>k'. (k', name k', if k' = k then es k' @ [e] else es k')) ks
     else map (\<lambda>k. (k, name k, es k)) ks @ [(k, n, [e])])"
  using assms by (induction ks) auto

lemma group_routes_eq:
  "group_routes routes =
     map (\<lambda>k. (k, rc_name (hd (routes_of_key routes k)), map build_route_entry (routes_of_key routes k)))
       (first_keys routes)"
proof (induction routes rule: rev_induct)
  case Nil
  then show ?case by (simp add: group_routes_def first_keys_def)
next
  case (snoc r routes)
  have step: "group_routes (routes @ [r]) =
      add_to_group (route_key r) (rc_name r) (build_route_entry r) (group_routes routes)"
    by (simp add: group_routes_def route_key_def)
  note same = routes_of_key_snoc
  have ne: "routes_of_key routes k \<noteq> []" if "k \<in> set (first_keys routes)" for k
    using that by (auto simp: routes_of_key_def filter_empty_conv)
  show ?case
  proof (cases "route_key r \<in> route_key ` set routes")
    case True
    then have "k \<in> set (first_keys routes) \<Longrightarrow> hd (routes_of_key (routes @ [r]) k) = hd (routes_of_key routes k)" for k
      using ne [of k] by (simp add: same)
    with True show ?thesis
      unfolding step snoc.IH add_to_group_map [OF distinct_first_keys] first_keys_snoc
      by (auto simp: same)
  next
    case False
    then have new: "routes_of_key routes (route_key r) = []"
      by (auto simp: routes_of_key_def filter_empty_conv image_iff)
    have old: "routes_of_key (routes @ [r]) k = routes_of_key routes k" if "k \<in> set (first_keys routes)" for k
      using that False by (auto simp: same)
    have "routes_of_key (routes @ [r]) (route_key r) = [r]" by (simp add: same new)
    with False old show ?thesis
      unfolding step snoc.IH add_to_group_map [OF distinct_first_keys] first_keys_snoc
      by simp
  qed
qed

interpretation bootstrap: grouping first_keys
  by unfold_locales simp_all

lemma find_by_name:
  "distinct (map rc_name routes) \<Longrightarrow> r \<in> set routes \<Longrightarrow> find (\<lambda>x. rc_name x = rc_name r) routes = Some r"
  by (induction routes) auto

text \<open>The reference definition of the virtual hosts.\<close>

definition virtual_host_of :: "RouteConfig list \<Rightarrow> string list \<Rightarrow> yaml" where
  "virtual_host_of routes k =
     (let rs = routes_of_key routes k in
      ymap [(''name'', val (rc_name (hd rs))), (''domains'', YSequence (map val (rc_hostnames (hd rs)))),
            (''routes'', YSequence (map build_route_entry rs))])"

lemma those_map_Some: "(\<And>x. x \<in> set xs \<Longrightarrow> f x = Some (g x)) \<Longrightarrow> those (map f xs) = Some (map g xs)"
  by (induction xs) auto

lemma those_not_None: "(\<And>x. x \<in> set xs \<Longrightarrow> \<exists>y. f x = Some y) \<Longrightarrow> those (map f xs) \<noteq> None"
proof (induction xs)
  case (Cons x xs)
  then obtain y where "f x = Some y" by auto
  with Cons show ?case by auto
qed simp

lemma build_virtual_hosts_eq:
  assumes "distinct (map rc_name routes)"
  shows "build_virtual_hosts routes = Some (map (virtual_host_of routes) (first_keys routes))"
proof -
  let ?g = "\<lambda>k. (k, rc_name (hd (routes_of_key routes k)), map build_route_entry (routes_of_key routes k))"
  have "build_virtual_host routes (?g k) = Some (virtual_host_of routes k)"
    if "k \<in> set (first_keys routes)" for k
    using find_by_name [OF assms bootstrap.first_route(1) [OF that]]
    by (simp add: build_virtual_host_def virtual_host_of_def Let_def)
  then show ?thesis
    unfolding build_virtual_hosts_def group_routes_eq map_map by (intro those_map_Some) simp
qed

lemma build_virtual_hosts_no_panic: "build_virtual_hosts routes \<noteq> None"
proof -
  have "\<exists>y. build_virtual_host routes g = Some y" if "g \<in> set (group_routes routes)" for g
  proof -
    from that obtain k where k: "k \<in> set (first_keys routes)"
      "fst (snd g) = rc_name (hd (routes_of_key routes k))"
      by (auto simp: group_routes_eq simp del: set_first_keys)
    then have "find (\<lambda>r. rc_name r = fst (snd g)) routes \<noteq> None"
      using bootstrap.first_route(1) [OF k(1)] by (auto simp: find_None_iff)
    then show ?thesis by (auto simp: build_virtual_host_def split: prod.splits)
  qed
  then show ?thesis unfolding build_virtual_hosts_def by (intro those_not_None) blast
qed

end
