(* ===== verification/Config_Correct.thy ===== *)
theory Config_Correct
  imports Envoy_Gen
begin

text \<open>
  The properties of configuration handling: what validation accepts and reports, and what
  the bootstrap generated from a valid configuration contains.
\<close>

subsection \<open>Helper facts\<close>

lemma validate_errors:
  "validate url_parse cfg = Inl errs \<Longrightarrow>
     ce_errors errs = check_version cfg @ check_uniqueness cfg @ check_referential_integrity cfg
       @ check_value_constraints url_parse cfg @ check_conditional_requirements cfg"
  by (auto simp: validate_def Let_def ConfigErrors_new_def split: if_splits)

lemma route_errors_reported:
  assumes "validate url_parse cfg = Inl errs" "r \<in> set (gc_routes cfg)"
  shows "set (check_route r) \<subseteq> set (ce_errors errs)"
  unfolding validate_errors [OF assms(1)] using assms(2)
  by (auto simp: check_value_constraints_def Let_def)

lemma accepted_configD:
  assumes "accepted_config url_parse cfg"
  shows "distinct (map rc_name (gc_routes cfg))"
    and "host_port (gs_listen_address (gc_gateway cfg))"
    and "gs_extauthz_address (gc_gateway cfg) = Some a \<Longrightarrow> host_port a"
    and "\<forall>s \<in> set (gc_services cfg). valid_service s"
    and "r \<in> set (gc_routes cfg) \<Longrightarrow> accepted_route (sc_name ` set (gc_services cfg))
      (ap_name ` set (ac_providers (gc_auth cfg))) r"
  using assms by (simp_all add: accepted_config_iff valid_addresses_def Let_def)

definition cluster_name :: "yaml \<Rightarrow> yaml option" where
  "cluster_name c = yget ''name'' c"

lemma build_cluster_ok:
  assumes "valid_service s"
  shows "\<exists>c. build_cluster s = Inr c \<and> cluster_name c = Some (val (sc_name s))"
proof -
  have "\<forall>ep \<in> set (sc_endpoints s). is_ok (build_lb_endpoint ep)"
    using assms parse_endpoint_total
    by (fastforce simp: valid_service_def build_lb_endpoint_def)
  then have "is_ok (collect_results build_lb_endpoint (sc_endpoints s))"
    by (simp add: collect_results_ok)
  then show ?thesis
    by (auto simp: is_ok_iff build_cluster_def cluster_name_def Let_def)
qed

lemma build_clusters_ok:
  assumes "\<forall>s \<in> set services. valid_service s"
  shows "\<exists>cs. build_clusters services = Inr cs
    \<and> map cluster_name cs = map (\<lambda>s. Some (val (sc_name s))) services"
  using assms
proof (induction services)
  case (Cons s ss)
  then obtain c cs where "build_cluster s = Inr c" "cluster_name c = Some (val (sc_name s))"
    "build_clusters ss = Inr cs" "map cluster_name cs = map (\<lambda>s. Some (val (sc_name s))) ss"
    using build_cluster_ok [of s] by auto
  then show ?case by (simp add: build_clusters_def)
qed (simp add: build_clusters_def)

text \<open>The path from the root of the bootstrap to the connection manager.\<close>

definition listener_of :: "yaml \<Rightarrow> yaml option" where
  "listener_of b = map_option (hd \<circ> yitems) (ypath [''static_resources'', ''listeners''] b)"

definition clusters_of :: "yaml \<Rightarrow> yaml list" where
  "clusters_of b = (case ypath [''static_resources'', ''clusters''] b of Some v \<Rightarrow> yitems v | None \<Rightarrow> [])"

definition hcm_of :: "yaml \<Rightarrow> yaml option" where
  "hcm_of b = Option.bind (listener_of b) (\<lambda>l.
     Option.bind (yget ''filter_chains'' l) (\<lambda>fc.
     Option.bind (yget ''filters'' (hd (yitems fc))) (\<lambda>fs. yget ''typed_config'' (hd (yitems fs)))))"

definition filters_of :: "yaml \<Rightarrow> yaml list" where
  "filters_of b = (case Option.bind (hcm_of b) (yget ''http_filters'') of Some v \<Rightarrow> yitems v | None \<Rightarrow> [])"

definition virtual_hosts_of :: "yaml \<Rightarrow> yaml list" where
  "virtual_hosts_of b =
     (case Option.bind (hcm_of b) (ypath [''route_config'', ''virtual_hosts'']) of
        Some v \<Rightarrow> yitems v | None \<Rightarrow> [])"

lemma build_listener_valid:
  assumes "accepted_config url_parse cfg"
  shows "\<exists>l. build_listener cfg = Some (Inr l)
    \<and> Option.bind (yget ''filter_chains'' l) (\<lambda>fc.
        Option.bind (yget ''filters'' (hd (yitems fc))) (\<lambda>fs.
        Option.bind (yget ''typed_config'' (hd (yitems fs))) (yget ''http_filters'')))
      = Some (YSequence (http_filters cfg))
    \<and> Option.bind (yget ''filter_chains'' l) (\<lambda>fc.
        Option.bind (yget ''filters'' (hd (yitems fc))) (\<lambda>fs.
        Option.bind (yget ''typed_config'' (hd (yitems fs))) (ypath [''route_config'', ''virtual_hosts''])))
      = Some (YSequence (map (virtual_host_of (gc_routes cfg)) (first_keys (gc_routes cfg))))"
proof -
  obtain host port where "parse_endpoint (gs_listen_address (gc_gateway cfg)) = Inr (host, port)"
    using parse_endpoint_total [OF accepted_configD(2) [OF assms]] by blast
  then show ?thesis
    by (simp add: build_listener_def build_virtual_hosts_eq [OF accepted_configD(1) [OF assms]] Let_def)
qed

lemma generate_valid:
  assumes "accepted_config url_parse cfg" "to_value (YMapping []) = Inr (YMapping [])"
  shows "\<exists>b. generate_envoy_config to_value to_string cfg
      = Some (map_sum Serialization (\<lambda>s. s) (to_string b))
    \<and> filters_of b = http_filters cfg
    \<and> virtual_hosts_of b = map (virtual_host_of (gc_routes cfg)) (first_keys (gc_routes cfg))
    \<and> map cluster_name (clusters_of b)
      = map (\<lambda>s. Some (val (sc_name s))) (gc_services cfg)
        @ (if gs_extauthz_address (gc_gateway cfg) = None then []
           else [Some (val ''gateway_manager_extauthz'')])"
proof -
  obtain l where l: "build_listener cfg = Some (Inr l)"
    and f: "Option.bind (yget ''filter_chains'' l) (\<lambda>fc.
        Option.bind (yget ''filters'' (hd (yitems fc))) (\<lambda>fs.
        Option.bind (yget ''typed_config'' (hd (yitems fs))) (yget ''http_filters'')))
      = Some (YSequence (http_filters cfg))"
    and v: "Option.bind (yget ''filter_chains'' l) (\<lambda>fc.
        Option.bind (yget ''filters'' (hd (yitems fc))) (\<lambda>fs.
        Option.bind (yget ''typed_config'' (hd (yitems fs))) (ypath [''route_config'', ''virtual_hosts''])))
      = Some (YSequence (map (virtual_host_of (gc_routes cfg)) (first_keys (gc_routes cfg))))"
    using build_listener_valid [OF assms(1)] by blast
  obtain cs where cs: "build_clusters (gc_services cfg) = Inr cs"
    "map cluster_name cs = map (\<lambda>s. Some (val (sc_name s))) (gc_services cfg)"
    using build_clusters_ok [OF accepted_configD(4) [OF assms(1)]] by blast
  have root: "listener_of (envoy_root l cs' (YMapping [])) = Some l"
    "clusters_of (envoy_root l cs' (YMapping [])) = cs'" for cs'
    by (simp_all add: listener_of_def clusters_of_def envoy_root_def Let_def)
  have parts: "filters_of (envoy_root l cs' (YMapping [])) = http_filters cfg"
    "virtual_hosts_of (envoy_root l cs' (YMapping []))
      = map (virtual_host_of (gc_routes cfg)) (first_keys (gc_routes cfg))" for cs'
    using f v by (simp_all add: filters_of_def virtual_hosts_of_def hcm_of_def root bind_assoc del: ypath.simps)
  show ?thesis
  proof (cases "gs_extauthz_address (gc_gateway cfg)")
    case None
    then show ?thesis
      using cs by (intro exI [of _ "envoy_root l cs (YMapping [])"])
        (simp add: generate_envoy_config_def l assms(2) root parts)
  next
    case (Some a)
    obtain h p where "parse_endpoint a = Inr (h, p)"
      using parse_endpoint_total [OF accepted_configD(3) [OF assms(1) Some]] by blast
    moreover have "cluster_name (build_ext_authz_cluster h p) = Some (val ''gateway_manager_extauthz'')"
      by (simp add: build_ext_authz_cluster_def cluster_name_def Let_def)
    ultimately show ?thesis
      using cs Some by (intro exI [of _ "envoy_root l (cs @ [build_ext_authz_cluster h p]) (YMapping [])"])
        (simp add: generate_envoy_config_def l assms(2) root parts)
  qed
qed

lemma sample_to_value: "(\<lambda>v. Inr v :: (string, yaml) result) (YMapping []) = Inr (YMapping [])"
  by simp

definition sample_secured :: GatewayConfig where
  "sample_secured = sample_config\<lparr>gc_gateway := (gc_gateway sample_config)
     \<lparr>gs_extauthz_address := Some ''0.0.0.0:9090''\<rparr>\<rparr>"

lemma sample_secured_valid: "accepted_config (\<lambda>_. True) sample_secured"
proof -
  have "valid_addresses sample_secured"
    using sample_valid sample_host_ports
    by (simp add: sample_secured_def accepted_config_iff valid_addresses_def Let_def)
  then show ?thesis
    using sample_valid by (simp add: sample_secured_def accepted_config_iff Let_def)
qed

subsection \<open>Validation\<close>

text \<open>C9. \<open>validate\<close> returns \<open>Ok(())\<close> on exactly the configurations that satisfy every
  rule (version 1, unique names, references that resolve, well-formed addresses, routes,
  services, providers and plugins, numbers within their bounds, and the conditional
  requirements) once every NaN among the refill rates and the sample rate is replaced by a
  number within bounds. So every valid configuration is accepted, and an accepted one is valid
  exactly if none of these numbers is NaN.\<close>

theorem validate_accepts_exactly_valid:
  "(validate url_parse cfg = Inr () \<longleftrightarrow> valid_config url_parse (without_nan cfg))
   \<and> (valid_config url_parse cfg \<longleftrightarrow> validate url_parse cfg = Inr ()
        \<and> list_all (\<lambda>r. rl_refill_rate_per_sec (rc_rate_limit r) \<noteq> NaN) (gc_routes cfg)
        \<and> tc_sample_rate (oc_tracing (gc_observability cfg)) \<noteq> NaN)"
  using valid_no_nan [of url_parse cfg] without_nan_id [of cfg]
  by (auto simp: validate_ok_iff accepted_config_def list_all_iff)

text \<open>Validation is not fail-fast: whatever else is wrong with the configuration, the
  error list names every route with no hostnames, no methods, a bad path prefix, an
  unknown method, a zero capacity, a rate that is not above zero or an unknown key
  dimension.\<close>

theorem validate_reports_every_route:
  assumes "validate url_parse cfg = Inl errs" "r \<in> set (gc_routes cfg)"
    and "pre = ''routes['' @ rc_name r @ '']''"
  shows "(rc_hostnames r = [] \<longrightarrow> InvalidValue (pre @ ''.hostnames'') ''must not be empty'' \<in> set (ce_errors errs))
    \<and> (rc_methods r = [] \<longrightarrow> InvalidValue (pre @ ''.methods'') ''must not be empty'' \<in> set (ce_errors errs))
    \<and> (\<not> starts_with (rc_path_prefix r) ''/'' \<longrightarrow>
         InvalidValue (pre @ ''.path_prefix'') must_start_with_slash \<in> set (ce_errors errs))
    \<and> (\<forall>m \<in> set (rc_methods r). m \<notin> set VALID_METHODS \<longrightarrow>
         InvalidValue (pre @ ''.methods'') (''invalid HTTP method: '' @ m) \<in> set (ce_errors errs))
    \<and> (rl_bucket_capacity (rc_rate_limit r) = 0 \<longrightarrow>
         InvalidValue (pre @ ''.rate_limit.bucket_capacity'') ''must be >= 1'' \<in> set (ce_errors errs))
    \<and> (fle (rl_refill_rate_per_sec (rc_rate_limit r)) (Fin 0) \<longrightarrow>
         InvalidValue (pre @ ''.rate_limit.refill_rate_per_sec'') ''must be > 0'' \<in> set (ce_errors errs))
    \<and> (rl_key_by (rc_rate_limit r) \<notin> set VALID_KEY_BY \<longrightarrow>
         InvalidValue (pre @ ''.rate_limit.key_by'') ''must be one of: ip, sub'' \<in> set (ce_errors errs))"
proof -
  note sub = route_errors_reported [OF assms(1,2), THEN subsetD]
  show ?thesis
    unfolding assms(3)
    by (intro conjI impI ballI; rule sub;
        force simp: check_route_def Let_def VALID_KEY_BY_def)
qed

theorem validate_reports_every_route_witness:
  "\<exists>errs. validate (\<lambda>_. True) (sample_config\<lparr>gc_version := 2, gc_routes := [sample_route\<lparr>rc_hostnames := []\<rparr>]\<rparr>)
      = Inl errs
    \<and> InvalidValue ''routes[public-api].hostnames'' ''must not be empty'' \<in> set (ce_errors errs)"
proof -
  let ?r = "sample_route\<lparr>rc_hostnames := []\<rparr>"
  let ?c = "sample_config\<lparr>gc_version := 2, gc_routes := [?r]\<rparr>"
  have "\<not> accepted_config (\<lambda>_. True) ?c" by (simp add: accepted_config_iff Let_def)
  then have "validate (\<lambda>_. True) ?c \<noteq> Inr ()" by (simp add: validate_ok_iff)
  then obtain errs where e: "validate (\<lambda>_. True) ?c = Inl errs"
    by (cases "validate (\<lambda>_. True) ?c") auto
  with validate_reports_every_route [OF e, of ?r "''routes[public-api]''"] show ?thesis
    by (simp add: sample_route_def)
qed

text \<open>Loading returns a configuration on exactly the texts that parse to a valid one, and
  returns that one; every other text gives an error list that is not empty.\<close>

theorem load_config_from_str_spec:
  "(load_config_from_str from_str url_parse text = Inr cfg \<longleftrightarrow>
      from_str text = Inr cfg \<and> accepted_config url_parse cfg)
   \<and> (\<forall>errs. load_config_from_str from_str url_parse text \<noteq> Inl errs
        \<or> (\<not> ConfigErrors_is_empty errs \<and> (\<forall>c. from_str text = Inr c \<longrightarrow> \<not> accepted_config url_parse c)))"
proof -
  have v: "validate url_parse c = Inl e \<Longrightarrow> ce_errors e \<noteq> [] \<and> \<not> accepted_config url_parse c" for c e
    unfolding validate_ok_iff [symmetric]
    by (auto simp: validate_def Let_def ConfigErrors_new_def split: if_splits)
  show ?thesis
  proof (cases "from_str text")
    case (Inl e)
    then show ?thesis
      by (auto simp: load_config_from_str_def ConfigErrors_is_empty_def ConfigErrors_new_def)
  next
    case (Inr c)
    then show ?thesis
      using v [of c] validate_ok_iff [of url_parse c]
      by (cases "validate url_parse c")
        (auto simp: load_config_from_str_def ConfigErrors_is_empty_def)
  qed
qed

theorem load_config_from_str_spec_witness:
  "load_config_from_str (\<lambda>_. Inr sample_config) (\<lambda>_. True) ''doc'' = Inr sample_config"
  using load_config_from_str_spec [of "\<lambda>_. Inr sample_config" "\<lambda>_. True" "''doc''" sample_config]
    sample_valid by blast

text \<open>The rule \<open>must be > 0\<close> on the refill rate is checked as \<open>rate <= 0.0\<close>, which is
  false of NaN: a valid configuration stays valid when the rate of any of its routes is
  replaced by NaN.\<close>

theorem validate_accepts_nan_rate:
  assumes "validate url_parse cfg = Inr ()" "i < length (gc_routes cfg)"
  shows "validate url_parse (cfg\<lparr>gc_routes := (gc_routes cfg)[i := (gc_routes cfg ! i)
    \<lparr>rc_rate_limit := (rc_rate_limit (gc_routes cfg ! i))\<lparr>rl_refill_rate_per_sec := NaN\<rparr>\<rparr>]\<rparr>) = Inr ()"
proof -
  let ?r = "gc_routes cfg ! i"
  let ?r' = "?r\<lparr>rc_rate_limit := (rc_rate_limit ?r)\<lparr>rl_refill_rate_per_sec := NaN\<rparr>\<rparr>"
  have v: "accepted_config url_parse cfg" using assms(1) by (simp add: validate_ok_iff)
  have names: "map rc_name ((gc_routes cfg)[i := ?r']) = map rc_name (gc_routes cfg)"
    by (simp add: map_update list_update_same_conv assms(2))
  have "accepted_route S P ?r'" if "accepted_route S P ?r" for S P
    using that by (simp add: accepted_route_def accepted_rate_limit_def)
  then have "\<forall>r \<in> set ((gc_routes cfg)[i := ?r']). accepted_route (sc_name ` set (gc_services cfg))
      (ap_name ` set (ac_providers (gc_auth cfg))) r"
    using accepted_configD(5) [OF v] assms(2) by (auto dest!: set_update_subset_insert [THEN subsetD])
  with v names show ?thesis
    unfolding validate_ok_iff by (simp add: accepted_config_iff valid_addresses_def Let_def)
qed

theorem validate_accepts_nan_rate_witness:
  "validate (\<lambda>_. True) (sample_config\<lparr>gc_routes := (gc_routes sample_config)[0 := (gc_routes sample_config ! 0)
    \<lparr>rc_rate_limit := (rc_rate_limit (gc_routes sample_config ! 0))\<lparr>rl_refill_rate_per_sec := NaN\<rparr>\<rparr>]\<rparr>)
    = Inr ()"
  by (rule validate_accepts_nan_rate) (simp_all add: validate_ok_iff sample_valid, simp add: sample_config_def)

subsection \<open>Generation\<close>

text \<open>A configuration that passes validation always yields a bootstrap: no endpoint is
  rejected and nothing panics, so the only failure left is the serializer's own.\<close>

theorem valid_config_generates:
  assumes "validate url_parse cfg = Inr ()"
    and "to_value (YMapping []) = Inr (YMapping [])" "\<And>v. \<exists>t. to_string v = Inr t"
  shows "\<exists>out. generate_envoy_config to_value to_string cfg = Some (Inr out)"
proof -
  have "accepted_config url_parse cfg" using assms(1) by (simp add: validate_ok_iff)
  from generate_valid [where to_value = to_value and to_string = to_string, OF this assms(2)] obtain b where
    "generate_envoy_config to_value to_string cfg = Some (map_sum Serialization (\<lambda>s. s) (to_string b))"
    by blast
  with assms(3) [of b] show ?thesis by auto
qed

theorem valid_config_generates_witness:
  "\<exists>out. generate_envoy_config Inr (\<lambda>_. Inr ''yaml'') sample_config = Some (Inr out)"
  by (rule valid_config_generates [of "\<lambda>_. True"]) (simp_all add: validate_ok_iff sample_valid)

text \<open>C30. With an ext_authz address configured, the first HTTP filter of the generated
  listener is ext_authz, it fails closed, the cluster it calls is among the generated
  clusters, and the router comes after it: no request reaches a route unchecked.\<close>

theorem generated_ext_authz_first:
  assumes "validate url_parse cfg = Inr ()" "gs_extauthz_address (gc_gateway cfg) = Some a"
    and "to_value (YMapping []) = Inr (YMapping [])"
    and "generate_envoy_config to_value to_string cfg = Some (Inr out)"
  shows "\<exists>b f router. to_string b = Inr out \<and> filters_of b = [f, router]
    \<and> yget ''name'' f = Some (val ''envoy.filters.http.ext_authz'')
    \<and> ypath [''typed_config'', ''failure_mode_allow''] f = Some (YBool False)
    \<and> ypath [''typed_config'', ''http_service'', ''server_uri'', ''cluster''] f \<in> cluster_name ` set (clusters_of b)
    \<and> yget ''name'' router = Some (val ''envoy.filters.http.router'')"
proof -
  have "accepted_config url_parse cfg" using assms(1) by (simp add: validate_ok_iff)
  from generate_valid [where to_value = to_value and to_string = to_string, OF this assms(3)] obtain b where
    b: "generate_envoy_config to_value to_string cfg = Some (map_sum Serialization (\<lambda>s. s) (to_string b))"
      "filters_of b = http_filters cfg"
      "map cluster_name (clusters_of b) = map (\<lambda>s. Some (val (sc_name s))) (gc_services cfg)
        @ (if gs_extauthz_address (gc_gateway cfg) = None then []
           else [Some (val ''gateway_manager_extauthz'')])"
    by blast
  from b(1) assms(4) have t: "to_string b = Inr out" by (cases "to_string b") auto
  have "Some (val ''gateway_manager_extauthz'') \<in> set (map cluster_name (clusters_of b))"
    using b(3) assms(2) by simp
  then have c: "Some (val ''gateway_manager_extauthz'') \<in> cluster_name ` set (clusters_of b)" by simp
  show ?thesis
    using t b(2) c assms(2)
    by (intro exI [of _ b] exI [of _ build_ext_authz_filter] exI [of _ "http_filters cfg ! 1"])
      (simp add: http_filters_def build_ext_authz_filter_def Let_def)
qed

theorem generated_ext_authz_first_witness:
  "\<exists>b f router out. generate_envoy_config Inr (\<lambda>_. Inr ''yaml'') sample_secured = Some (Inr out)
    \<and> (\<lambda>_. Inr ''yaml'') b = (Inr out :: (string, string) result) \<and> filters_of b = [f, router]
    \<and> ypath [''typed_config'', ''failure_mode_allow''] f = Some (YBool False)"
proof -
  have v: "validate (\<lambda>_. True) sample_secured = Inr ()"
    by (simp add: validate_ok_iff sample_secured_valid)
  obtain out where "generate_envoy_config Inr (\<lambda>_. Inr ''yaml'') sample_secured = Some (Inr out)"
    using generate_valid [where to_value = Inr and to_string = "\<lambda>_. Inr ''yaml''", OF sample_secured_valid] by auto
  with generated_ext_authz_first [OF v _ _ this, of "''0.0.0.0:9090''"] show ?thesis
    by (auto simp: sample_secured_def)
qed

text \<open>Grouping into virtual hosts: there is one virtual host per distinct set of
  hostnames, in the order the sets first occur, with the domains and the name of the first
  route of the set, holding the entries of all routes of that set in configuration order.
  No route is lost or duplicated.\<close>

theorem build_virtual_hosts_spec:
  assumes "distinct (map rc_name routes)"
  shows "build_virtual_hosts routes = Some (map (virtual_host_of routes) (first_keys routes))
    \<and> distinct (first_keys routes)
    \<and> (\<forall>r \<in> set routes. \<forall>k \<in> set (first_keys routes). r \<in> set (routes_of_key routes k) \<longleftrightarrow> k = route_key r)
    \<and> mset (concat (map (routes_of_key routes) (first_keys routes))) = mset routes"
proof -
  have "mset (concat (map (routes_of_key routes) (first_keys routes))) = mset routes"
    by (rule bootstrap.no_route_lost)
  then show ?thesis
    using build_virtual_hosts_eq [OF assms] by (auto simp: routes_of_key_def)
qed

theorem build_virtual_hosts_spec_witness:
  "build_virtual_hosts [sample_route, sample_private_route]
    = Some (map (virtual_host_of [sample_route, sample_private_route]) (first_keys [sample_route, sample_private_route]))
   \<and> length (first_keys [sample_route, sample_private_route]) = 1"
  using build_virtual_hosts_spec [of "[sample_route, sample_private_route]"]
  by (simp add: sample_defs first_keys_def route_key_def)

text \<open>No dangling cluster: in the bootstrap of a valid configuration every route entry of
  every virtual host forwards to a cluster that the bootstrap defines.\<close>

theorem generated_routes_have_clusters:
  assumes "validate url_parse cfg = Inr ()" "to_value (YMapping []) = Inr (YMapping [])"
    and "generate_envoy_config to_value to_string cfg = Some (Inr out)"
  shows "\<exists>b. to_string b = Inr out \<and> (\<forall>vh \<in> set (virtual_hosts_of b). \<forall>rs. yget ''routes'' vh = Some rs \<longrightarrow>
    (\<forall>e \<in> set (yitems rs). \<exists>c \<in> set (clusters_of b). ypath [''route'', ''cluster''] e = cluster_name c))"
proof -
  have v: "accepted_config url_parse cfg" using assms(1) by (simp add: validate_ok_iff)
  from generate_valid [where to_value = to_value and to_string = to_string, OF this assms(2)] obtain b where
    b: "generate_envoy_config to_value to_string cfg = Some (map_sum Serialization (\<lambda>s. s) (to_string b))"
      "virtual_hosts_of b = map (virtual_host_of (gc_routes cfg)) (first_keys (gc_routes cfg))"
      "map cluster_name (clusters_of b) = map (\<lambda>s. Some (val (sc_name s))) (gc_services cfg)
        @ (if gs_extauthz_address (gc_gateway cfg) = None then []
           else [Some (val ''gateway_manager_extauthz'')])"
    by blast
  from b(1) assms(3) have t: "to_string b = Inr out" by (cases "to_string b") auto
  have "\<exists>c \<in> set (clusters_of b). ypath [''route'', ''cluster''] (build_route_entry r) = cluster_name c"
    if "r \<in> set (gc_routes cfg)" for r
  proof -
    have "uc_service (rc_upstream r) \<in> sc_name ` set (gc_services cfg)"
      using accepted_configD(5) [OF v that] by (simp add: accepted_route_def)
    then have "Some (val (uc_service (rc_upstream r))) \<in> set (map cluster_name (clusters_of b))"
      unfolding b(3) by auto
    moreover have "ypath [''route'', ''cluster''] (build_route_entry r) = Some (val (uc_service (rc_upstream r)))"
      by (simp add: build_route_entry_def Let_def)
    ultimately show ?thesis by auto
  qed
  then show ?thesis
    using t b(2)
    by (intro exI [of _ b]) (fastforce simp: virtual_host_of_def Let_def routes_of_key_def simp del: ypath.simps)
qed

theorem generated_routes_have_clusters_witness:
  "\<exists>b out. generate_envoy_config Inr (\<lambda>_. Inr ''yaml'') sample_config = Some (Inr out)
    \<and> (\<forall>vh \<in> set (virtual_hosts_of b). \<forall>rs. yget ''routes'' vh = Some rs \<longrightarrow>
    (\<forall>e \<in> set (yitems rs). \<exists>c \<in> set (clusters_of b). ypath [''route'', ''cluster''] e = cluster_name c))"
proof -
  have v: "validate (\<lambda>_. True) sample_config = Inr ()" by (simp add: validate_ok_iff sample_valid)
  obtain out where "generate_envoy_config Inr (\<lambda>_. Inr ''yaml'') sample_config = Some (Inr out)"
    using generate_valid [where to_value = Inr and to_string = "\<lambda>_. Inr ''yaml''", OF sample_valid] by auto
  with generated_routes_have_clusters [OF v _ this] show ?thesis by blast
qed

text \<open>C40. A duration survives its rendering: what Envoy reads from \<open>duration_string(ms)\<close>
  is \<open>ms\<close> milliseconds, for every 64-bit value.\<close>

theorem duration_string_roundtrip: "duration_nanos (duration_string ms) = Some (unat ms * 10 ^ 6)"
  by (rule duration_string_nanos)

text \<open>Envoy rejects a domain that occurs in two virtual hosts, and the comment of
  \<open>build_virtual_hosts\<close> promises that it does not happen. It does for hostname sets that
  overlap without being equal: such routes pass validation and are put into different
  virtual hosts that share the domain.\<close>

theorem overlapping_hostnames_duplicate_domain:
  "\<exists>r1 r2 vh1 vh2. validate (\<lambda>_. True) (sample_config\<lparr>gc_routes := [r1, r2]\<rparr>) = Inr ()
    \<and> build_virtual_hosts [r1, r2] = Some [vh1, vh2]
    \<and> (\<exists>d ds1 ds2. yget ''domains'' vh1 = Some ds1 \<and> yget ''domains'' vh2 = Some ds2
         \<and> d \<in> set (yitems ds1) \<and> d \<in> set (yitems ds2))"
proof -
  let ?r1 = "sample_route" and ?r2 = "sample_private_route\<lparr>rc_hostnames := [''api.example.com'', ''b.example.com'']\<rparr>"
  have "accepted_config (\<lambda>_. True) (sample_config\<lparr>gc_routes := [?r1, ?r2]\<rparr>)"
    using sample_valid
    by (simp add: accepted_config_iff Let_def valid_addresses_def accepted_route_def sample_defs)
  moreover have "distinct (map rc_name [?r1, ?r2])" by (simp add: sample_defs)
  from build_virtual_hosts_eq [OF this]
  have "build_virtual_hosts [?r1, ?r2] = Some [virtual_host_of [?r1, ?r2] (route_key ?r1),
      virtual_host_of [?r1, ?r2] (route_key ?r2)]"
    by (simp add: first_keys_def route_key_def sample_defs)
  moreover have "\<exists>ds1 ds2. yget ''domains'' (virtual_host_of [?r1, ?r2] (route_key ?r1)) = Some ds1
      \<and> yget ''domains'' (virtual_host_of [?r1, ?r2] (route_key ?r2)) = Some ds2
      \<and> val ''api.example.com'' \<in> set (yitems ds1) \<and> val ''api.example.com'' \<in> set (yitems ds2)"
    by (simp add: virtual_host_of_def Let_def routes_of_key_def route_key_def sample_defs)
  ultimately show ?thesis unfolding validate_ok_iff by blast
qed

end
