(* ===== verification/Token_Bucket.thy ===== *)
theory Token_Bucket
  imports F64
begin

text \<open>
  The in-memory token bucket of \<open>controlplane/src/ratelimit/bucket.rs\<close>. An
  \<open>Instant\<close> is a number of nanoseconds; the operations that read the clock take the
  reading as an argument. The locale \<open>token_bucket\<close> is the contract any token
  bucket offers to the limiter: what one call may credit and debit. The bound on the
  number of admitted requests follows from it once, for this bucket and for the one the
  Lua script keeps in Redis.
\<close>

subsection \<open>The contract of a token bucket\<close>

text \<open>\<open>serve step ts b\<close>: the calls at the times \<open>ts\<close>, one after the other;
  the final bucket and the number of admitted calls.\<close>

fun serve :: "(nat \<Rightarrow> 'b \<Rightarrow> 'b \<times> bool) \<Rightarrow> nat list \<Rightarrow> 'b \<Rightarrow> 'b \<times> nat" where
  "serve step [] b = (b, 0)"
| "serve step (t # ts) b =
     (let (b', ok) = step t b; (c, n) = serve step ts b'
      in (c, (if ok then 1 else 0) + n))"

locale token_bucket =
  fixes inv :: "'b \<Rightarrow> bool" and level :: "'b \<Rightarrow> rat" and clock :: "'b \<Rightarrow> nat"
    and step :: "nat \<Rightarrow> 'b \<Rightarrow> 'b \<times> bool" and rate :: rat and slack :: rat
    and horizon :: nat
  assumes step_inv: "inv b \<Longrightarrow> inv (fst (step now b))"
    and step_clock: "inv b \<Longrightarrow> clock b \<le> now \<Longrightarrow> clock (fst (step now b)) \<le> now"
    and level_nonneg: "inv b \<Longrightarrow> 0 \<le> level b"
    and step_credit: "inv b \<Longrightarrow> clock b \<le> now \<Longrightarrow> now < horizon \<Longrightarrow>
      level (fst (step now b)) + of_bool (snd (step now b))
        + rate * (of_nat now - of_nat (clock (fst (step now b))))
      \<le> level b + rate * (of_nat now - of_nat (clock b)) + slack"
begin

lemma serve_credit:
  assumes "inv b" and "sorted (clock b # ts)" and "\<forall>t \<in> set ts. t < horizon"
  shows "level (fst (serve step ts b)) + of_nat (snd (serve step ts b))
      + rate * (of_nat T - of_nat (clock (fst (serve step ts b))))
    \<le> level b + rate * (of_nat T - of_nat (clock b)) + of_nat (length ts) * slack"
  using assms
proof (induction ts arbitrary: b)
  case Nil
  then show ?case by simp
next
  case (Cons t ts)
  obtain b' ok where s: "step t b = (b', ok)" by (cases "step t b")
  obtain c n where r: "serve step ts b' = (c, n)" by (cases "serve step ts b'")
  from Cons.prems have le: "clock b \<le> t" and st: "sorted (t # ts)" by simp_all
  have inv': "inv b'" and cl: "clock b' \<le> t"
    using step_inv [OF Cons.prems(1), of t] step_clock [OF Cons.prems(1) le] s by simp_all
  from cl st have "sorted (clock b' # ts)" by auto
  then have IH: "level c + of_nat n + rate * (of_nat T - of_nat (clock c))
      \<le> level b' + rate * (of_nat T - of_nat (clock b')) + of_nat (length ts) * slack"
    using Cons.IH [OF inv'] Cons.prems(3) r by simp
  have "level b' + of_bool ok + rate * (of_nat t - of_nat (clock b'))
      \<le> level b + rate * (of_nat t - of_nat (clock b)) + slack"
    using step_credit [OF Cons.prems(1) le] Cons.prems(3) s by simp
  with IH show ?case
    by (cases ok) (simp_all add: s r algebra_simps)
qed

lemma serve_inv:
  assumes "inv b" and "sorted (clock b # ts)"
  shows "inv (fst (serve step ts b))"
    and "clock (fst (serve step ts b)) \<le> last (clock b # ts)"
proof -
  have "inv (fst (serve step ts b)) \<and> clock (fst (serve step ts b)) \<le> last (clock b # ts)"
    using assms
  proof (induction ts arbitrary: b)
    case Nil
    then show ?case by simp
  next
    case (Cons t ts)
    obtain b' ok where s: "step t b = (b', ok)" by (cases "step t b")
    obtain c n where r: "serve step ts b' = (c, n)" by (cases "serve step ts b'")
    from Cons.prems have le: "clock b \<le> t" and st: "sorted (t # ts)" by simp_all
    have inv': "inv b'" and cl: "clock b' \<le> t"
      using step_inv [OF Cons.prems(1), of t] step_clock [OF Cons.prems(1) le] s by simp_all
    from cl st have "sorted (clock b' # ts)" by auto
    from Cons.IH [OF inv' this] show ?case
      using cl by (simp add: s r split: if_splits)
  qed
  then show "inv (fst (serve step ts b))" "clock (fst (serve step ts b)) \<le> last (clock b # ts)"
    by simp_all
qed

text \<open>No run admits more than the level at its start, what accrues while it lasts, and
  the slack of each call.\<close>

lemma admitted_bound:
  assumes "inv b" and "sorted (clock b # ts @ [T])" and "T < horizon" and "0 \<le> rate"
  shows "of_nat (snd (serve step ts b))
    \<le> level b + rate * (of_nat T - of_nat (clock b)) + of_nat (length ts) * slack"
proof -
  from assms(2) have srt: "sorted (clock b # ts)" and T: "clock b \<le> T" "\<forall>t \<in> set ts. t \<le> T"
    by (auto simp: sorted_append)
  have i: "inv (fst (serve step ts b))" and c: "clock (fst (serve step ts b)) \<le> last (clock b # ts)"
    using serve_inv [OF assms(1) srt] by simp_all
  have "last (clock b # ts) \<le> T"
    using T by (cases ts rule: rev_cases) simp_all
  with c have "clock (fst (serve step ts b)) \<le> T" by simp
  then have "0 \<le> rate * (of_nat T - of_nat (clock (fst (serve step ts b))))"
    using assms(4) by (intro mult_nonneg_nonneg) simp_all
  moreover have "\<forall>t \<in> set ts. t < horizon" using T assms(3) by fastforce
  ultimately show ?thesis
    using serve_credit [OF assms(1) srt, of T] level_nonneg [OF i] by linarith
qed

end

subsection \<open>The bucket\<close>

record LocalBucket =
  lb_tokens :: f64
  lb_capacity :: f64
  lb_refill_rate :: f64
  lb_last_refill :: nat

definition LocalBucket_new :: "f64 \<Rightarrow> f64 \<Rightarrow> nat \<Rightarrow> LocalBucket" where
  "LocalBucket_new capacity refill_rate now =
     \<lparr>lb_tokens = capacity, lb_capacity = capacity, lb_refill_rate = refill_rate,
      lb_last_refill = now\<rparr>"

definition refill :: "nat \<Rightarrow> LocalBucket \<Rightarrow> LocalBucket" where
  "refill now b =
     (let elapsed = as_secs_f64 (now - lb_last_refill b);
          refilled = fmul (lb_refill_rate b) elapsed
      in b\<lparr>lb_tokens := fmin (fadd (lb_tokens b) refilled) (lb_capacity b),
           lb_last_refill := now\<rparr>)"

definition try_consume :: "nat \<Rightarrow> LocalBucket \<Rightarrow> LocalBucket \<times> bool \<times> u64 \<times> u64" where
  "try_consume now b0 =
     (let b = refill now b0 in
      if fle (Fin 1) (lb_tokens b)
      then let b' = b\<lparr>lb_tokens := fsub (lb_tokens b) (Fin 1)\<rparr>
           in (b', True, f64_as_u64 (ffloor (lb_tokens b')), 0)
      else let deficit = fsub (Fin 1) (lb_tokens b);
               retry_ms = (if flt (Fin 0) (lb_refill_rate b)
                 then f64_as_u64 (fceil (fmul (fdiv deficit (lb_refill_rate b)) (Fin 1000)))
                 else - 1)
           in (b, False, 0, retry_ms))"

text \<open>\<open>as usize\<close> on a 64-bit target.\<close>

definition ttl_seconds :: "u64 \<Rightarrow> f64 \<Rightarrow> u64" where
  "ttl_seconds capacity refill_rate =
     (if fle refill_rate (Fin 0) then 3600
      else f64_as_u64 (fceil (fmul (fdiv (f64_of_u64 capacity) refill_rate) (Fin 2))))"

definition build_key :: "string \<Rightarrow> string \<Rightarrow> string \<Rightarrow> string \<Rightarrow> string" where
  "build_key pre route dimension v = pre @ '':'' @ route @ '':'' @ dimension @ '':'' @ v"

subsection \<open>Invariant\<close>

text \<open>The level is a representable number between zero and the capacity. The refill rate
  is not negative; it may be an infinity or NaN.\<close>

definition bucket_ok :: "LocalBucket \<Rightarrow> bool" where
  "bucket_ok b \<longleftrightarrow>
     (\<exists>t c. lb_tokens b = Fin t \<and> lb_capacity b = Fin c \<and> 0 \<le> t \<and> t \<le> c
        \<and> representable (Fin t) \<and> representable (Fin c))
     \<and> \<not> flt (lb_refill_rate b) (Fin 0)"

lemma as_secs_f64_nonneg: "fle (Fin 0) (as_secs_f64 ns)"
  unfolding as_secs_f64_def
  by (intro fadd_nonneg to_f64_nonneg of_nat_0_le_iff)
    (cases "to_f64 (of_nat (ns mod 10 ^ 9) :: rat)",
     use to_f64_nonneg [of "of_nat (ns mod 10 ^ 9)"] in \<open>simp_all add: to_f64_nonneg inf_of_sign_def\<close>)

lemma fmul_rate_sign:
  assumes "\<not> flt r (Fin 0)" "fle (Fin 0) e"
  shows "fmul r e = NaN \<or> fle (Fin 0) (fmul r e)"
  using assms by (cases r; cases e) (auto simp: to_f64_nonneg inf_of_sign_def sgn_if)

lemma fadd_credit_sign:
  assumes "0 \<le> t" "r = NaN \<or> fle (Fin 0) r"
  shows "fadd (Fin t) r = NaN \<or> fle (Fin 0) (fadd (Fin t) r)"
  using assms by (cases r) (auto simp: to_f64_nonneg)

lemma fmin_clamped:
  assumes "a = NaN \<or> fle (Fin 0) a" and "representable a" and "0 \<le> c" "representable (Fin c)"
  shows "\<exists>t. fmin a (Fin c) = Fin t \<and> 0 \<le> t \<and> t \<le> c \<and> representable (Fin t)"
  using assms by (cases a) (auto simp: fmin_def)

lemma representable_fmul [simp]: "representable (fmul a b)"
  by (cases a; cases b) (simp_all add: inf_of_sign_def)

lemma refill_ok: "bucket_ok b \<Longrightarrow> bucket_ok (refill now b)"
proof -
  assume ok: "bucket_ok b"
  then obtain t c where tc: "lb_tokens b = Fin t" "lb_capacity b = Fin c" "0 \<le> t" "t \<le> c"
    "representable (Fin t)" "representable (Fin c)" and r: "\<not> flt (lb_refill_rate b) (Fin 0)"
    by (auto simp: bucket_ok_def)
  let ?r = "fmul (lb_refill_rate b) (as_secs_f64 (now - lb_last_refill b))"
  have "fadd (Fin t) ?r = NaN \<or> fle (Fin 0) (fadd (Fin t) ?r)"
    by (intro fadd_credit_sign fmul_rate_sign as_secs_f64_nonneg tc r)
  then obtain t' where "fmin (fadd (Fin t) ?r) (Fin c) = Fin t'" "0 \<le> t'" "t' \<le> c"
    "representable (Fin t')"
    using fmin_clamped [of "fadd (Fin t) ?r" c] tc by (auto simp del: representable.simps)
  then show ?thesis
    using tc r by (auto simp: bucket_ok_def refill_def)
qed

lemma rnd_pred: "rnd x = x \<Longrightarrow> 1 \<le> x \<Longrightarrow> 0 \<le> rnd (x - 1) \<and> rnd (x - 1) \<le> x"
  using rnd_mono [of 0 "x - 1"] rnd_le_exact [of "x - 1" x] by simp

lemma try_consume_ok: "bucket_ok b \<Longrightarrow> bucket_ok (fst (try_consume now b))"
proof -
  assume "bucket_ok b"
  then have "bucket_ok (refill now b)" by (rule refill_ok)
  then obtain t c where tc: "lb_tokens (refill now b) = Fin t" "lb_capacity (refill now b) = Fin c"
    "0 \<le> t" "t \<le> c" "rnd t = t" "\<bar>t\<bar> \<le> max_fin" "rnd c = c" "\<bar>c\<bar> \<le> max_fin"
    and r: "\<not> flt (lb_refill_rate (refill now b)) (Fin 0)"
    by (auto simp: bucket_ok_def)
  show ?thesis
  proof (cases "1 \<le> t")
    case True
    have "\<bar>t + - 1\<bar> \<le> max_fin" using True tc by simp
    then have f: "fsub (Fin t) (Fin 1) = Fin (rnd (t - 1))"
      by (simp add: fsub_def to_f64_Fin)
    have "0 \<le> rnd (t - 1)" "rnd (t - 1) \<le> t"
      using rnd_pred [OF tc(5) True] by simp_all
    with f tc r True show ?thesis
      by (simp add: try_consume_def Let_def bucket_ok_def)
  next
    case False
    with tc r show ?thesis by (simp add: try_consume_def Let_def bucket_ok_def)
  qed
qed

lemma LocalBucket_new_ok: "\<not> flt r (Fin 0) \<Longrightarrow> bucket_ok (LocalBucket_new (f64_of_u64 cap) r now)"
proof -
  assume r: "\<not> flt r (Fin 0)"
  obtain x where x: "f64_of_u64 cap = Fin x" "0 \<le> x" using f64_of_u64_Fin by blast
  have "representable (f64_of_u64 cap)" by (simp only: f64_of_u64_def representable_to_f64)
  with x r show ?thesis by (simp add: LocalBucket_new_def bucket_ok_def)
qed

subsection \<open>What one call may credit, under rounding\<close>

lemma small_Fin: "\<bar>x\<bar> \<le> 2 ^ 200 \<Longrightarrow> to_f64 x = Fin (rnd x)"
proof (rule to_f64_Fin)
  assume "\<bar>x\<bar> \<le> 2 ^ 200"
  also have "(2::rat) ^ 200 = 2 powi 200" by simp
  also have "\<dots> \<le> 1 * 2 powi 971" by simp
  also have "\<dots> \<le> max_fin"
    unfolding max_fin_def by (intro mult_right_mono less_imp_le [OF powi2_pos]) simp
  finally show "\<bar>x\<bar> \<le> max_fin" .
qed

lemma rnd_le: "0 \<le> x \<Longrightarrow> rnd x \<le> x * (1 + u_rnd) + u_sub"
  using rnd_error [of x] by (simp add: algebra_simps abs_le_iff)

lemma u_rnd_small: "u_rnd \<le> 1 / 2 ^ 53" "u_sub \<le> u_rnd / 2 ^ 100"
proof -
  show "u_rnd \<le> 1 / 2 ^ 53" unfolding u_rnd_def by (simp add: power_int_minus field_simps)
  have "u_sub \<le> (2::rat) powi (- 53 + - 100)" unfolding u_sub_def by simp
  also have "\<dots> = u_rnd / 2 ^ 100"
    unfolding u_rnd_def powi2_add [symmetric] by (simp add: power_int_minus field_simps)
  finally show "u_sub \<le> u_rnd / 2 ^ 100" .
qed

lemma u_sub_le: "u_sub * 1267650600228229401496703205376 \<le> u_rnd" "u_sub \<le> u_rnd / 4"
proof -
  show 1: "u_sub * 1267650600228229401496703205376 \<le> u_rnd"
    using u_rnd_small(2) by simp
  show "u_sub \<le> u_rnd / 4" using 1 u_pos(2) by linarith
qed

lemma credit_arith:
  assumes "0 \<le> D"
  shows "(D * (1 + u_rnd) + 2 * u_sub) * (1 + u_rnd) + u_sub \<le> D * (1 + 3 * u_rnd) + 4 * u_sub"
proof -
  have u: "u_rnd * u_rnd \<le> 1 * u_rnd" "u_sub * u_rnd \<le> u_sub * (1/2)"
    using u_rnd_small(1) u_pos
    by (intro mult_right_mono mult_left_mono; simp)+
  then have "D * (u_rnd * u_rnd) \<le> D * (1 * u_rnd)"
    using assms by (intro mult_left_mono)
  moreover have "(D * (1 + u_rnd) + 2 * u_sub) * (1 + u_rnd) + u_sub
      = D + 2 * (D * u_rnd) + D * (u_rnd * u_rnd) + 2 * (u_sub * u_rnd) + 3 * u_sub"
    by (simp add: algebra_simps)
  ultimately show ?thesis using u(2) unfolding distrib_left by linarith
qed

text \<open>The seconds of a duration below 2^64 s, in floating point.\<close>

lemma as_secs_f64_le:
  assumes "ns < 2 ^ 64 * 10 ^ 9"
  shows "\<exists>e. as_secs_f64 ns = Fin e \<and> 0 \<le> e \<and> e \<le> of_nat ns / 10 ^ 9 * (1 + 3 * u_rnd) + 4 * u_sub
    \<and> e \<le> 2 ^ 66"
proof -
  define s where "s = (of_nat (ns div 10 ^ 9) :: rat)"
  define m where "m = (of_nat (ns mod 10 ^ 9) :: rat)"
  have s: "0 \<le> s" "s \<le> 2 ^ 64"
  proof -
    have "ns div 10 ^ 9 \<le> 2 ^ 64" using assms by simp
    then have "(of_nat (ns div 10 ^ 9) :: rat) \<le> of_nat (2 ^ 64)" by (simp only: of_nat_le_iff)
    then show "0 \<le> s" "s \<le> 2 ^ 64" by (simp_all add: s_def)
  qed
  have "ns mod 10 ^ 9 < 10 ^ 9" by simp
  then have "(of_nat (ns mod 10 ^ 9) :: rat) < of_nat (10 ^ 9)" by (simp only: of_nat_less_iff)
  then have m: "0 \<le> m" "m < 10 ^ 9" by (simp_all add: m_def)
  have rm: "rnd m = m" unfolding m_def by (rule rnd_of_nat) (use \<open>ns mod 10 ^ 9 < 10 ^ 9\<close> in simp)
  have sm: "s + m / 10 ^ 9 = of_nat ns / 10 ^ 9"
  proof -
    have "ns = ns div 10 ^ 9 * 10 ^ 9 + ns mod 10 ^ 9" by (simp only: div_mult_mod_eq)
    then have "(of_nat ns :: rat) = s * 10 ^ 9 + m"
      unfolding s_def m_def by (metis of_nat_add of_nat_mult of_nat_numeral of_nat_power)
    then show ?thesis by (simp add: field_simps)
  qed
  define rs where "rs = rnd s"
  define rm' where "rm' = rnd (m / 10 ^ 9)"
  have rs: "0 \<le> rs" "rs \<le> s * (1 + u_rnd) + u_sub"
    using s rnd_le [of s] by (simp_all add: rs_def rnd_nonneg)
  have rm': "0 \<le> rm'" "rm' \<le> m / 10 ^ 9 * (1 + u_rnd) + u_sub"
    using m rnd_le [of "m / 10 ^ 9"] by (simp_all add: rm'_def rnd_nonneg)
  define D where "D = of_nat ns / (10 ^ 9 :: rat)"
  have D: "0 \<le> D" "D \<le> 2 ^ 65"
    using assms by (simp_all add: D_def)
  have sum: "rs + rm' \<le> D * (1 + u_rnd) + 2 * u_sub"
    using rs(2) rm'(2) unfolding D_def sm [symmetric] distrib_right by linarith
  define e where "e = rnd (rs + rm')"
  have "e \<le> (rs + rm') * (1 + u_rnd) + u_sub"
    unfolding e_def using rs(1) rm'(1) by (intro rnd_le) simp
  also have "\<dots> \<le> (D * (1 + u_rnd) + 2 * u_sub) * (1 + u_rnd) + u_sub"
    using sum u_pos(1) by (intro add_right_mono mult_right_mono) simp_all
  also have "\<dots> \<le> D * (1 + 3 * u_rnd) + 4 * u_sub"
    using D(1) by (rule credit_arith)
  finally have e_le: "e \<le> D * (1 + 3 * u_rnd) + 4 * u_sub" .
  have u1: "3 * u_rnd \<le> 1/2" "4 * u_sub \<le> 1"
    using u_rnd_small u_pos by simp_all
  have "D * (1 + 3 * u_rnd) \<le> D * (1 + 1/2)"
    using D(1) u1(1) by (intro mult_left_mono) simp_all
  with e_le u1(2) D(2) have e66: "e \<le> 2 ^ 66" by simp
  have f1: "to_f64 s = Fin rs" unfolding rs_def by (rule small_Fin) (use s in simp)
  have f2: "to_f64 m = Fin m" using small_Fin [of m] m rm by simp
  have f3: "to_f64 (m / 10 ^ 9) = Fin rm'" unfolding rm'_def by (rule small_Fin) (use m in simp)
  have "D * (1 + u_rnd) \<le> D * 2"
    using D(1) u1(1) u_pos(1) by (intro mult_left_mono) linarith+
  then have "rs + rm' \<le> 2 ^ 67" using sum D(2) u1(2) by simp
  then have f4: "to_f64 (rs + rm') = Fin e"
    unfolding e_def by (intro small_Fin) (use rs(1) rm'(1) in simp)
  have "as_secs_f64 ns = Fin e"
    unfolding as_secs_f64_def s_def [symmetric] m_def [symmetric] f1 f2 using f3 f4 by simp
  moreover have "0 \<le> e" unfolding e_def using rs(1) rm'(1) by (intro rnd_nonneg) simp
  ultimately show ?thesis using e_le e66 by (simp add: D_def)
qed

text \<open>A bucket with a finite rate between 0 and 2^64 and capacity \<open>c\<close>.\<close>

definition lb_inv :: "rat \<Rightarrow> rat \<Rightarrow> LocalBucket \<Rightarrow> bool" where
  "lb_inv c r b \<longleftrightarrow> bucket_ok b \<and> lb_capacity b = Fin c \<and> lb_refill_rate b = Fin r
     \<and> 0 \<le> r \<and> r \<le> 2 ^ 64 \<and> c \<le> 2 ^ 64"

definition lb_level :: "LocalBucket \<Rightarrow> rat" where
  "lb_level b = (case lb_tokens b of Fin t \<Rightarrow> t | _ \<Rightarrow> 0)"

definition lb_step :: "nat \<Rightarrow> LocalBucket \<Rightarrow> LocalBucket \<times> bool" where
  "lb_step now b = (case try_consume now b of (b', ok, _, _) \<Rightarrow> (b', ok))"

lemma lb_invE:
  assumes "lb_inv c r b"
  obtains t where "lb_tokens b = Fin t" "lb_capacity b = Fin c" "lb_refill_rate b = Fin r"
    "0 \<le> t" "t \<le> c" "rnd t = t" "0 \<le> r" "r \<le> 2 ^ 64" "c \<le> 2 ^ 64" "lb_level b = t"
  using assms by (auto simp: lb_inv_def bucket_ok_def lb_level_def)

lemma refill_frame [simp]:
  "lb_capacity (refill now b) = lb_capacity b" "lb_refill_rate (refill now b) = lb_refill_rate b"
  "lb_last_refill (refill now b) = now"
  by (simp_all add: refill_def Let_def)

lemma try_consume_frame [simp]:
  "lb_capacity (fst (try_consume now b)) = lb_capacity b"
  "lb_refill_rate (fst (try_consume now b)) = lb_refill_rate b"
  "lb_last_refill (fst (try_consume now b)) = now"
  by (simp_all add: try_consume_def Let_def)

lemma fst_lb_step: "fst (lb_step now b) = fst (try_consume now b)"
  and snd_lb_step: "snd (lb_step now b) = fst (snd (try_consume now b))"
  by (simp_all add: lb_step_def split: prod.splits)

lemma refill_lb_inv: "lb_inv c r b \<Longrightarrow> lb_inv c r (refill now b)"
  by (simp add: lb_inv_def refill_ok)

lemma refilled_le:
  assumes "0 \<le> r" "r \<le> 2 ^ 64" "0 \<le> D" "0 \<le> e" "e \<le> D * (1 + 3 * u_rnd) + 4 * u_sub"
  shows "rnd (r * e) \<le> r * D * (1 + 5 * u_rnd) + u_rnd / 4"
proof -
  have rD: "0 \<le> r * D" using assms by simp
  have "rnd (r * e) \<le> r * e * (1 + u_rnd) + u_sub"
    using assms by (intro rnd_le) simp
  also have "r * e * (1 + u_rnd) \<le> r * (D * (1 + 3 * u_rnd) + 4 * u_sub) * (1 + u_rnd)"
    using assms by (intro mult_right_mono mult_left_mono) simp_all
  also have "\<dots> = r * D * (1 + 4 * u_rnd) + 3 * (r * D * (u_rnd * u_rnd)) + 4 * r * u_sub * (1 + u_rnd)"
    by (simp add: algebra_simps)
  finally have 1: "rnd (r * e) \<le> r * D * (1 + 4 * u_rnd) + 3 * (r * D * (u_rnd * u_rnd))
      + 4 * r * u_sub * (1 + u_rnd) + u_sub" by simp
  have "3 * (u_rnd * u_rnd) \<le> 1 * u_rnd"
    unfolding mult.assoc [symmetric] using u_rnd_small(1) u_pos(1) by (intro mult_right_mono) simp_all
  then have 2: "r * D * (3 * (u_rnd * u_rnd)) \<le> r * D * u_rnd"
    using rD by (intro mult_left_mono) simp_all
  have "4 * r * u_sub * (1 + u_rnd) \<le> 4 * 2 ^ 64 * u_sub * 2"
    using assms(1,2) u_pos u_rnd_small(1) by (intro mult_mono) simp_all
  also have "\<dots> = 147573952589676412928 * u_sub" by simp
  also have "\<dots> \<le> u_rnd / 4 - u_sub" using u_sub_le(1) u_pos(2) by linarith
  finally have 3: "4 * r * u_sub * (1 + u_rnd) + u_sub \<le> u_rnd / 4"
    by (simp only: le_diff_eq)
  show ?thesis using 1 2 3 by (simp add: algebra_simps)
qed

lemma capped_sum_le:
  assumes "0 \<le> t" "0 \<le> re" "0 \<le> c"
  shows "min (rnd (t + re)) c \<le> t + re + c * u_rnd + u_sub"
proof (cases "t + re \<le> c")
  case True
  have "rnd (t + re) \<le> (t + re) * (1 + u_rnd) + u_sub" using assms by (intro rnd_le) simp
  then have "rnd (t + re) \<le> t + re + (t + re) * u_rnd + u_sub" by (simp only: distrib_left mult_1_right)
  moreover have "(t + re) * u_rnd \<le> c * u_rnd" using True u_pos(1) by (intro mult_right_mono) simp_all
  ultimately have "rnd (t + re) \<le> t + re + c * u_rnd + u_sub"
    by (meson add_left_mono add_right_mono order.trans)
  then show ?thesis by (rule min.coboundedI1)
next
  case False
  have "0 \<le> c * u_rnd" using assms(3) u_pos(1) by simp
  with False have "c \<le> t + re + c * u_rnd + u_sub" using u_pos(2) by linarith
  then show ?thesis by (rule min.coboundedI2)
qed

lemma minus_one_le:
  assumes "1 \<le> t" "t \<le> c"
  shows "rnd (t - 1) \<le> t - 1 + (c + 1/2) * u_rnd"
proof -
  have "rnd (t - 1) \<le> (t - 1) * (1 + u_rnd) + u_sub" using assms(1) by (intro rnd_le) simp
  moreover have "(t - 1) * u_rnd \<le> c * u_rnd" using assms u_pos(1) by (intro mult_right_mono) simp_all
  moreover have "u_sub \<le> u_rnd / 2" using u_sub_le(2) u_pos by linarith
  ultimately show ?thesis by (simp add: algebra_simps)
qed

lemma refill_credit:
  assumes "lb_inv c r b" "now - lb_last_refill b < 2 ^ 64 * 10 ^ 9"
  shows "lb_level (refill now b)
    \<le> lb_level b + r * (of_nat (now - lb_last_refill b) / 10 ^ 9) * (1 + 5 * u_rnd) + (c + 1/2) * u_rnd"
proof -
  let ?ns = "now - lb_last_refill b"
  obtain t where b: "lb_tokens b = Fin t" "lb_capacity b = Fin c" "lb_refill_rate b = Fin r"
    "0 \<le> t" "t \<le> c" "rnd t = t" "0 \<le> r" "r \<le> 2 ^ 64" "c \<le> 2 ^ 64" "lb_level b = t"
    using assms(1) by (rule lb_invE)
  obtain e where e: "as_secs_f64 ?ns = Fin e" "0 \<le> e" "e \<le> 2 ^ 66"
    "e \<le> of_nat ?ns / 10 ^ 9 * (1 + 3 * u_rnd) + 4 * u_sub"
    using as_secs_f64_le [OF assms(2)] by blast
  define re where "re = rnd (r * e)"
  have re: "re \<le> r * (of_nat ?ns / 10 ^ 9) * (1 + 5 * u_rnd) + u_rnd / 4" "0 \<le> re"
    unfolding re_def using b e by (intro refilled_le rnd_nonneg; simp)+
  have "r * e \<le> 2 ^ 64 * 2 ^ 66" using b e by (intro mult_mono) simp_all
  then have re': "0 \<le> r * e" "r * e \<le> 2 ^ 130" using b e by simp_all
  then have f1: "to_f64 (r * e) = Fin re" unfolding re_def by (intro small_Fin) simp
  have "re \<le> 2 powi 130" unfolding re_def by (rule rnd_le_exact) (use re' rnd_powi [of 130] in simp_all)
  then have f2: "to_f64 (t + re) = Fin (rnd (t + re))"
    using b re by (intro small_Fin) simp
  have lev: "lb_level (refill now b) = min (rnd (t + re)) c"
    by (simp add: lb_level_def refill_def Let_def b e f1 f2 fmin_def min_def)
  have "min (rnd (t + re)) c \<le> t + re + c * u_rnd + u_sub"
    using b re by (intro capped_sum_le) simp_all
  moreover have "u_sub \<le> u_rnd / 4" by (rule u_sub_le(2))
  ultimately show ?thesis using lev re b(10) by (simp add: distrib_right)
qed

lemma consume_level:
  assumes "lb_inv c r b"
  shows "lb_level (fst (try_consume now b)) + of_bool (fst (snd (try_consume now b)))
    \<le> lb_level (refill now b) + (c + 1/2) * u_rnd"
proof -
  from refill_lb_inv [OF assms] obtain t where b: "lb_tokens (refill now b) = Fin t"
    "0 \<le> t" "t \<le> c" "c \<le> 2 ^ 64" "lb_level (refill now b) = t"
    by (rule lb_invE)
  have c: "0 \<le> (c + 1/2) * u_rnd" using b u_pos(1) by simp
  show ?thesis
  proof (cases "1 \<le> t")
    case True
    have f: "fsub (Fin t) (Fin 1) = Fin (rnd (t - 1))"
      using small_Fin [of "t - 1"] True b by (simp add: fsub_def)
    have "rnd (t - 1) \<le> t - 1 + (c + 1/2) * u_rnd" using True b(3) by (rule minus_one_le)
    with f True b show ?thesis by (simp add: try_consume_def Let_def lb_level_def)
  next
    case False
    with b c show ?thesis by (simp add: try_consume_def Let_def lb_level_def)
  qed
qed

interpretation lb: token_bucket "lb_inv c r" lb_level lb_last_refill lb_step
  "r * (1 + 5 * u_rnd) / 10 ^ 9" "(2 * c + 1) * u_rnd" "2 ^ 64 * 10 ^ 9" for c r
proof
  fix b now
  assume i: "lb_inv c r b"
  show "lb_inv c r (fst (lb_step now b))"
    using i by (simp add: fst_lb_step lb_inv_def try_consume_ok)
  show "0 \<le> lb_level b" using i by (auto elim: lb_invE)
  assume le: "lb_last_refill b \<le> now"
  show "lb_last_refill (fst (lb_step now b)) \<le> now"
    by (simp add: fst_lb_step)
  assume h: "now < 2 ^ 64 * 10 ^ 9"
  have "lb_level (refill now b) \<le> lb_level b
      + r * (of_nat (now - lb_last_refill b) / 10 ^ 9) * (1 + 5 * u_rnd) + (c + 1/2) * u_rnd"
    using h by (intro refill_credit [OF i]) simp
  moreover have "(of_nat (now - lb_last_refill b) :: rat) = of_nat now - of_nat (lb_last_refill b)"
    using le by (rule of_nat_diff)
  ultimately show "lb_level (fst (lb_step now b)) + of_bool (snd (lb_step now b))
      + r * (1 + 5 * u_rnd) / 10 ^ 9 * (of_nat now - of_nat (lb_last_refill (fst (lb_step now b))))
    \<le> lb_level b + r * (1 + 5 * u_rnd) / 10 ^ 9 * (of_nat now - of_nat (lb_last_refill b))
      + (2 * c + 1) * u_rnd"
    using consume_level [OF i, of now] by (simp add: fst_lb_step snd_lb_step algebra_simps)
qed

end
