(* ===== verification/Lua_Script.thy ===== *)
theory Lua_Script
  imports Token_Bucket
begin

text \<open>
  The Lua script that runs the token bucket inside Redis
  (\<open>controlplane/src/ratelimit/lua.rs\<close>). Lua numbers are doubles. The text of a number
  that the script stores is represented by the number the text denotes: \<open>tostring\<close> prints
  with the format \<open>%.14g\<close>, so it keeps fourteen significant decimal digits, and
  \<open>tonumber\<close> rounds the decimal to the nearest double. The arguments arrive as the
  shortest decimals that denote them, so \<open>tonumber(ARGV[i])\<close> gives back the argument.
  The Redis commands are the parameter \<open>R\<close>, with the time of the server as an argument.
\<close>

subsection \<open>Decimal text of a number\<close>

definition flog10 :: "rat \<Rightarrow> int" where
  "flog10 x =
     (if 1 \<le> x then int (floorlog 10 (nat \<lfloor>x\<rfloor>)) - 1
      else - int (floorlog 10 (nat (\<lceil>1 / x\<rceil> - 1))))"

definition dec14 :: "rat \<Rightarrow> rat" where
  "dec14 x = (if x = 0 then 0
              else let q = 10 powi (flog10 \<bar>x\<bar> - 13) in of_int (rne (x / q)) * q)"

fun tostring :: "f64 \<Rightarrow> f64" where
  "tostring (Fin x) = Fin (dec14 x)"
| "tostring a = a"

fun tonumber :: "f64 \<Rightarrow> f64" where
  "tonumber (Fin x) = to_f64 x"
| "tonumber a = a"

text \<open>The text itself, for the integers that \<open>math.floor\<close> and \<open>math.ceil\<close> return and
  the concatenation operator prints.\<close>

definition strip_zeros :: "string \<Rightarrow> string" where
  "strip_zeros s = rev (dropWhile (\<lambda>c. c = CHR ''0'') (rev s))"

definition exp_text :: "nat \<Rightarrow> string" where
  "exp_text e = (if e < 10 then ''0'' else []) @ show_nat e"

definition g14_big :: "rat \<Rightarrow> string" where
  "g14_big x =
     (let y = dec14 x; e = flog10 y;
          digits = strip_zeros (show_nat (nat \<lfloor>y / 10 powi (e - 13)\<rfloor>))
      in take 1 digits @ (if length digits = 1 then [] else ''.'' @ drop 1 digits)
         @ ''e+'' @ exp_text (nat e))"

fun int_text :: "f64 \<Rightarrow> string" where
  "int_text (Fin x) =
     (if x < 0 then ''-'' else []) @
     (if \<bar>x\<bar> < 10 ^ 14 then show_nat (nat \<lfloor>\<bar>x\<bar>\<rfloor>) else g14_big \<bar>x\<bar>)"
| "int_text PInf = ''inf''"
| "int_text NInf = ''-inf''"
| "int_text NaN = ''nan''"

text \<open>The ceiling of a number between -1 and 0 is the negative zero.\<close>

definition ceil_text :: "f64 \<Rightarrow> string" where
  "ceil_text a = (if flt (Fin (- 1)) a \<and> flt a (Fin 0) then ''-0'' else int_text (fceil a))"

subsection \<open>The script\<close>

record 'db redis =
  hget :: "'db \<Rightarrow> nat \<Rightarrow> string \<Rightarrow> string \<Rightarrow> f64 option"
  hset :: "'db \<Rightarrow> nat \<Rightarrow> string \<Rightarrow> (string \<times> f64) list \<Rightarrow> 'db"
  expire :: "'db \<Rightarrow> nat \<Rightarrow> string \<Rightarrow> f64 \<Rightarrow> (string, 'db) result"

definition math_min :: "f64 \<Rightarrow> f64 \<Rightarrow> f64" where
  "math_min a b = (if flt b a then b else a)"

definition allowed_json :: "string \<Rightarrow> string" where
  "allowed_json n = ''{'' @ [CHR 0x22] @ ''allowed'' @ [CHR 0x22] @ '':1,'' @ [CHR 0x22] @
     ''remaining_tokens'' @ [CHR 0x22] @ '':'' @ n @ '','' @ [CHR 0x22] @ ''retry_after_ms'' @
     [CHR 0x22] @ '':0}''"

definition denied_json :: "string \<Rightarrow> string" where
  "denied_json n = ''{'' @ [CHR 0x22] @ ''allowed'' @ [CHR 0x22] @ '':0,'' @ [CHR 0x22] @
     ''remaining_tokens'' @ [CHR 0x22] @ '':0,'' @ [CHR 0x22] @ ''retry_after_ms'' @
     [CHR 0x22] @ '':'' @ n @ ''}''"

text \<open>\<open>srv\<close> is the time of the Redis server in milliseconds; the other arguments are
  \<open>KEYS[1]\<close> and \<open>ARGV[1..5]\<close>. The script runs atomically: a failing \<open>EXPIRE\<close> ends it
  and keeps what \<open>HSET\<close> wrote.\<close>

definition LUA_SCRIPT ::
  "'db redis \<Rightarrow> nat \<Rightarrow> string \<Rightarrow> f64 \<Rightarrow> f64 \<Rightarrow> f64 \<Rightarrow> f64 \<Rightarrow> f64 \<Rightarrow> 'db
    \<Rightarrow> 'db \<times> (string, string) result" where
  "LUA_SCRIPT R srv key now_ms capacity refill_rate requested ttl_secs db =
     (let tokens = (case hget R db srv key ''tokens'' of Some t \<Rightarrow> tonumber t | None \<Rightarrow> capacity);
          last_refill = (case hget R db srv key ''last_refill_ms'' of Some t \<Rightarrow> tonumber t | None \<Rightarrow> now_ms);
          elapsed_s = fdiv (fsub now_ms last_refill) (Fin 1000);
          refilled = fmul refill_rate elapsed_s;
          new_tokens = math_min (fadd tokens refilled) capacity
      in if fle requested new_tokens then
           let new_tokens = fsub new_tokens requested;
               db1 = hset R db srv key [(''tokens'', tostring new_tokens), (''last_refill_ms'', tostring now_ms)]
           in (case expire R db1 srv key ttl_secs of
                 Inl e \<Rightarrow> (db1, Inl e)
               | Inr db2 \<Rightarrow> (db2, Inr (allowed_json (int_text (ffloor new_tokens)))))
         else
           let deficit = fsub requested new_tokens
           in (db, Inr (denied_json (ceil_text (fmul (fdiv deficit refill_rate) (Fin 1000))))))"

record LuaResponse =
  lr_allowed :: u8
  lr_remaining_tokens :: u64
  lr_retry_after_ms :: u64

text \<open>What Redis documents of the three commands: after \<open>HSET\<close> and \<open>EXPIRE\<close> with a
  positive whole number of seconds the written fields are readable until the time is up,
  the key is gone afterwards, and other keys are not touched.\<close>

definition redis_spec :: "'db redis \<Rightarrow> bool" where
  "redis_spec R \<longleftrightarrow>
     (\<forall>db srv key fields ttl. 0 < ttl \<and> ttl < 2 ^ 32 \<longrightarrow>
        (\<exists>db2. expire R (hset R db srv key fields) srv key (Fin (of_nat ttl)) = Inr db2
          \<and> (\<forall>srv' f. srv \<le> srv' \<longrightarrow> srv' < srv + 1000 * ttl \<longrightarrow> f \<in> fst ` set fields \<longrightarrow>
               hget R db2 srv' key f = map_of fields f)
          \<and> (\<forall>srv' f. srv + 1000 * ttl \<le> srv' \<longrightarrow> hget R db2 srv' key f = None)
          \<and> (\<forall>srv' key' f. key' \<noteq> key \<longrightarrow> hget R db2 srv' key' f = hget R db srv' key' f)))"

subsection \<open>Fourteen digits\<close>

lemma powi10_pos [simp]: "(0::rat) < 10 powi a"
  by (rule zero_less_power_int) simp

lemma powi10_add: "(10::rat) powi a * 10 powi b = 10 powi (a + b)"
  by (simp add: power_int_add)

lemma floorlog10_bounds:
  assumes "0 < n"
  shows "(10::rat) powi (int (floorlog 10 n) - 1) \<le> of_nat n" "of_nat n < (10::rat) powi (int (floorlog 10 n))"
proof -
  have b: "10 ^ (floorlog 10 n - 1) \<le> n \<and> n < 10 ^ floorlog 10 n"
    using floorlog_bounds [of n 10] assms by simp
  then have lo: "of_nat (10 ^ (floorlog 10 n - 1)) \<le> (of_nat n :: rat)"
    and hi: "(of_nat n :: rat) < of_nat (10 ^ floorlog 10 n)"
    by (simp_all only: of_nat_le_iff of_nat_less_iff)
  have "0 < floorlog 10 n" using assms by (simp add: floorlog_def)
  then have "of_nat (10 ^ (floorlog 10 n - 1)) = (10::rat) powi (int (floorlog 10 n) - 1)"
    by (simp add: power_int_def nat_diff_distrib)
  with lo show "(10::rat) powi (int (floorlog 10 n) - 1) \<le> of_nat n" by (simp only:)
  show "of_nat n < (10::rat) powi (int (floorlog 10 n))"
    using hi by (simp only: power_int_of_nat of_nat_power of_nat_numeral)
qed

lemma flog10_bounds:
  assumes "0 < x"
  shows "10 powi (flog10 x) \<le> x" "x < 10 powi (flog10 x + 1)"
proof -
  have "10 powi (flog10 x) \<le> x \<and> x < 10 powi (flog10 x + 1)"
  proof (cases "1 \<le> x")
    case True
    define n where "n = nat \<lfloor>x\<rfloor>"
    have n: "0 < n" "of_nat n \<le> x" "x < of_nat n + 1"
      using True by (simp_all add: n_def le_floor_iff) linarith
    define d where "d = floorlog 10 n"
    have fl: "flog10 x = int d - 1" using True by (simp add: flog10_def d_def n_def)
    have lo: "(10::rat) powi (int d - 1) \<le> of_nat n"
      unfolding d_def by (rule floorlog10_bounds [OF n(1)])
    have "n < 10 ^ d" using floorlog_bounds [of n 10] n(1) by (simp add: d_def)
    then have "n + 1 \<le> 10 ^ d" by simp
    then have "of_nat (n + 1) \<le> (of_nat (10 ^ d) :: rat)" by (simp only: of_nat_le_iff)
    with lo n show ?thesis by (simp add: fl)
  next
    case False
    define m where "m = nat (\<lceil>1 / x\<rceil> - 1)"
    have "1 < 1 / x" using False assms by simp
    then have c: "2 \<le> \<lceil>1 / x\<rceil>" by linarith
    have "(of_nat m :: rat) = of_int (\<lceil>1 / x\<rceil> - 1)" unfolding m_def using c by (intro of_nat_nat) linarith
    with c assms have m: "0 < m" "of_nat m + 1 = (of_int \<lceil>1 / x\<rceil> :: rat)" by (simp_all add: m_def)
    have up: "1 / x \<le> of_nat m + 1" "of_nat m < 1 / x"
      unfolding m(2) using m(2) by linarith+
    define d where "d = floorlog 10 m"
    have fl: "flog10 x = - int d" using False by (simp add: flog10_def d_def m_def)
    have "m < 10 ^ d" using floorlog_bounds [of m 10] m(1) by (simp add: d_def)
    then have "m + 1 \<le> 10 ^ d" by simp
    then have "of_nat (m + 1) \<le> (of_nat (10 ^ d) :: rat)" by (simp only: of_nat_le_iff)
    with up(1) have "1 / x \<le> 10 powi int d" by simp
    then have lo: "10 powi (- int d) \<le> x" using assms by (simp add: power_int_minus field_simps)
    have "(10::rat) powi (int d - 1) \<le> of_nat m"
      unfolding d_def by (rule floorlog10_bounds [OF m(1)])
    from this up(2) have "10 powi (int d - 1) < 1 / x" by (rule le_less_trans)
    with assms have "10 powi (int d - 1) * x < 1" by (simp only: pos_less_divide_eq)
    then have "10 powi (- int d + 1) * (10 powi (int d - 1) * x) < 10 powi (- int d + 1) * 1"
      by (rule mult_strict_left_mono) (rule powi10_pos)
    then have "x < 10 powi (- int d + 1)"
      unfolding mult.assoc [symmetric] powi10_add by simp
    with lo show ?thesis by (simp add: fl)
  qed
  then show "10 powi (flog10 x) \<le> x" "x < 10 powi (flog10 x + 1)" by simp_all
qed

lemma dec14_error: "\<bar>dec14 x - x\<bar> \<le> \<bar>x\<bar> / (2 * 10 ^ 13)"
proof (cases "x = 0")
  case False
  define q where "q = (10::rat) powi (flog10 \<bar>x\<bar> - 13)"
  have q: "0 < q" by (simp add: q_def)
  have "dec14 x - x = (of_int (rne (x / q)) - x / q) * q"
    using False q by (simp add: dec14_def Let_def q_def [symmetric] left_diff_distrib)
  then have "\<bar>dec14 x - x\<bar> = \<bar>of_int (rne (x / q)) - x / q\<bar> * q"
    using q by (simp add: abs_mult)
  also have "\<dots> \<le> 1/2 * q"
    using q by (intro mult_right_mono rne_error) simp
  also have "q * 10 ^ 13 = 10 powi (flog10 \<bar>x\<bar>)"
    using powi10_add [of "flog10 \<bar>x\<bar> - 13" 13] by (simp add: q_def)
  then have "1/2 * q \<le> \<bar>x\<bar> / (2 * 10 ^ 13)"
    using flog10_bounds(1) [of "\<bar>x\<bar>"] False by simp
  finally show ?thesis .
qed (simp add: dec14_def)

lemma dec14_nonneg: "0 \<le> x \<Longrightarrow> 0 \<le> dec14 x"
proof -
  assume "0 \<le> x"
  then have "of_int 0 \<le> x / 10 powi (flog10 \<bar>x\<bar> - 13)" using less_imp_le [OF powi10_pos] by simp
  then have "0 \<le> rne (x / 10 powi (flog10 \<bar>x\<bar> - 13))" by (rule rne_ge)
  then show ?thesis using less_imp_le [OF powi10_pos] by (simp add: dec14_def Let_def)
qed

lemma dec14_of_nat:
  assumes "n < 10 ^ 14"
  shows "dec14 (of_nat n) = of_nat n"
proof (cases "n = 0")
  case False
  define e where "e = flog10 (of_nat n)"
  have "(of_nat n :: rat) < of_nat (10 ^ 14)" using assms by (simp only: of_nat_less_iff)
  moreover have "10 powi e \<le> (of_nat n :: rat)" unfolding e_def using False by (intro flog10_bounds) simp
  ultimately have "(10::rat) powi e < 10 powi 14" by simp
  then have "e < 14" using power_int_increasing [of 14 e "10::rat"] by (cases "e < 14") simp_all
  then obtain k where k: "13 - e = int k" using zero_le_imp_eq_int [of "13 - e"] by auto
  have "(of_nat n :: rat) / 10 powi (e - 13) = of_nat n * 10 powi (13 - e)"
    by (simp add: power_int_diff field_simps)
  also have "\<dots> = of_int (int n * 10 ^ k)" by (simp add: k)
  finally have "of_int (rne (of_nat n / 10 powi (e - 13))) * (10::rat) powi (e - 13)
      = of_nat n / 10 powi (e - 13) * 10 powi (e - 13)"
    by (simp only: rne_of_int)
  with False show ?thesis by (simp add: dec14_def Let_def e_def)
qed (simp add: dec14_def)

subsection \<open>The bucket the script keeps\<close>

text \<open>The bucket of one key, as the next call reads it: the level and the time of the last
  admitted call in milliseconds. After \<open>ttl\<close> seconds without a write Redis has dropped the
  key and the call starts from a full bucket. All numbers are finite here, so the
  operations are those of the script with the rounding written out.\<close>

record RedisBucket =
  rb_tokens :: rat
  rb_last :: nat

definition rb_refilled :: "rat \<Rightarrow> rat \<Rightarrow> nat \<Rightarrow> nat \<Rightarrow> RedisBucket \<Rightarrow> rat" where
  "rb_refilled c r ttl now b =
     (let t = (if rb_last b + 1000 * ttl \<le> now then c else rb_tokens b);
          l = (if rb_last b + 1000 * ttl \<le> now then now else rb_last b)
      in min (rnd (t + rnd (r * rnd ((of_nat now - of_nat l) / 1000)))) c)"

definition rb_step :: "rat \<Rightarrow> rat \<Rightarrow> nat \<Rightarrow> nat \<Rightarrow> RedisBucket \<Rightarrow> RedisBucket \<times> bool" where
  "rb_step c r ttl now b =
     (let new = rb_refilled c r ttl now b in
      if 1 \<le> new then (\<lparr>rb_tokens = rnd (dec14 (rnd (new - 1))), rb_last = now\<rparr>, True)
      else (b, False))"

definition rb_inv :: "rat \<Rightarrow> rat \<Rightarrow> nat \<Rightarrow> RedisBucket \<Rightarrow> bool" where
  "rb_inv c r ttl b \<longleftrightarrow> 0 \<le> rb_tokens b \<and> rb_tokens b \<le> 2 * c + 1 \<and> 1 \<le> c \<and> c \<le> 2 ^ 64 \<and> rnd c = c
     \<and> 0 \<le> r \<and> r \<le> 2 ^ 64 \<and> c \<le> r * of_nat ttl"

lemma stored_le:
  assumes "0 \<le> y" "y \<le> c"
  shows "rnd (dec14 y) \<le> y + c / 10 ^ 13 + u_rnd / 4" "0 \<le> rnd (dec14 y)"
proof -
  have "u_rnd * 9007199254740992 \<le> 1" using u_rnd_small(1) by simp
  then have "1 / 20000000000000 + u_rnd / 20000000000000 + u_rnd \<le> 1 / 10000000000000" by linarith
  then have rounding: "(1 + u_rnd) / (2 * 10 ^ 13) + u_rnd \<le> 1 / 10 ^ 13"
    by (simp only: add_divide_distrib) simp
  show "0 \<le> rnd (dec14 y)" using assms(1) by (intro rnd_nonneg dec14_nonneg)
  have d: "dec14 y \<le> y + y / (2 * 10 ^ 13)"
    using abs_le_D1 [OF dec14_error [of y]] assms(1) by simp
  have "rnd (dec14 y) \<le> dec14 y * (1 + u_rnd) + u_sub"
    using assms(1) by (intro rnd_le dec14_nonneg)
  also have "dec14 y * (1 + u_rnd) \<le> (y + y / (2 * 10 ^ 13)) * (1 + u_rnd)"
    using d by (intro mult_right_mono) simp_all
  also have "\<dots> = y + y * ((1 + u_rnd) / (2 * 10 ^ 13) + u_rnd)"
    by (simp add: algebra_simps add_divide_distrib)
  also have "y * ((1 + u_rnd) / (2 * 10 ^ 13) + u_rnd) \<le> c * (1 / 10 ^ 13)"
    using assms u_pos(1) by (intro mult_mono rounding) simp_all
  finally show "rnd (dec14 y) \<le> y + c / 10 ^ 13 + u_rnd / 4"
    using u_sub_le(2) by simp
qed

lemma elapsed_le:
  assumes "l \<le> now"
  shows "0 \<le> rnd ((of_nat now - of_nat l) / 1000)"
    "rnd ((of_nat now - of_nat l) / 1000) \<le> (of_nat now - of_nat l) / 1000 * (1 + 3 * u_rnd) + 4 * u_sub"
proof -
  define D where "D = (of_nat now - of_nat l :: rat) / 1000"
  have D: "0 \<le> D" using assms by (simp add: D_def)
  show "0 \<le> rnd ((of_nat now - of_nat l) / 1000)" using D unfolding D_def by (rule rnd_nonneg)
  have "rnd D \<le> D * (1 + u_rnd) + u_sub" using D by (rule rnd_le)
  also have "D * (1 + u_rnd) \<le> D * (1 + 3 * u_rnd)" using D u_pos(1) by (intro mult_left_mono) simp_all
  finally have "rnd D \<le> D * (1 + 3 * u_rnd) + 4 * u_sub" using u_pos(2) by linarith
  then show "rnd ((of_nat now - of_nat l) / 1000) \<le> (of_nat now - of_nat l) / 1000 * (1 + 3 * u_rnd) + 4 * u_sub"
    by (simp only: D_def)
qed

lemma rb_refilled_bounds:
  assumes "rb_inv c r ttl b" "rb_last b \<le> now"
  shows "0 \<le> rb_refilled c r ttl now b" "rb_refilled c r ttl now b \<le> c"
    and "rb_refilled c r ttl now b
      \<le> rb_tokens b + r * (1 + 5 * u_rnd) / 1000 * (of_nat now - of_nat (rb_last b)) + (c + 1/2) * u_rnd"
proof -
  have i: "0 \<le> rb_tokens b" "1 \<le> c" "0 \<le> r" "r \<le> 2 ^ 64" "c \<le> r * of_nat ttl"
    using assms(1) by (simp_all add: rb_inv_def)
  show "rb_refilled c r ttl now b \<le> c" by (simp add: rb_refilled_def Let_def)
  show "0 \<le> rb_refilled c r ttl now b"
    using i assms(2) elapsed_le(1) [OF assms(2)]
    by (auto simp: rb_refilled_def Let_def intro!: rnd_nonneg add_nonneg_nonneg mult_nonneg_nonneg)
  define D where "D = (of_nat now - of_nat (rb_last b) :: rat) / 1000"
  have D: "0 \<le> D" using assms(2) by (simp add: D_def)
  have goal: "r * (1 + 5 * u_rnd) / 1000 * (of_nat now - of_nat (rb_last b)) = r * D * (1 + 5 * u_rnd)"
    by (simp add: D_def)
  show "rb_refilled c r ttl now b
      \<le> rb_tokens b + r * (1 + 5 * u_rnd) / 1000 * (of_nat now - of_nat (rb_last b)) + (c + 1/2) * u_rnd"
    unfolding goal
  proof (cases "rb_last b + 1000 * ttl \<le> now")
    case True
    then have "of_nat (rb_last b + 1000 * ttl) \<le> (of_nat now :: rat)" by (simp only: of_nat_le_iff)
    then have "of_nat ttl \<le> D" by (simp add: D_def)
    then have "r * of_nat ttl \<le> r * D" using i(3) by (rule mult_left_mono)
    moreover have "r * D * 1 \<le> r * D * (1 + 5 * u_rnd)"
      using i(3) D u_pos(1) by (intro mult_left_mono) simp_all
    moreover have "0 \<le> (c + 1/2) * u_rnd" using i(2) u_pos(1) by simp
    ultimately show "rb_refilled c r ttl now b \<le> rb_tokens b + r * D * (1 + 5 * u_rnd) + (c + 1/2) * u_rnd"
      using i \<open>rb_refilled c r ttl now b \<le> c\<close> by linarith
  next
    case False
    define re where "re = rnd (r * rnd D)"
    have e: "0 \<le> rnd D" "rnd D \<le> D * (1 + 3 * u_rnd) + 4 * u_sub"
      unfolding D_def by (rule elapsed_le [OF assms(2)])+
    have "0 \<le> re" unfolding re_def using i(3) D by (intro rnd_nonneg mult_nonneg_nonneg)
    moreover have "re \<le> r * D * (1 + 5 * u_rnd) + u_rnd / 4"
      unfolding re_def by (rule refilled_le [OF i(3,4) D e])
    moreover have "rb_refilled c r ttl now b = min (rnd (rb_tokens b + re)) c"
      using False by (simp add: rb_refilled_def re_def D_def)
    ultimately show "rb_refilled c r ttl now b \<le> rb_tokens b + r * D * (1 + 5 * u_rnd) + (c + 1/2) * u_rnd"
      using capped_sum_le [of "rb_tokens b" re c] i u_sub_le(2) by (simp add: distrib_right)
  qed
qed

interpretation rb: token_bucket "rb_inv c r ttl" rb_tokens rb_last "rb_step c r ttl"
  "r * (1 + 5 * u_rnd) / 1000" "(2 * c + 2) * u_rnd + c / 10 ^ 13" "10 ^ 14" for c r ttl
proof
  fix b now
  assume i: "rb_inv c r ttl b"
  have c: "1 \<le> c" "0 \<le> (2 * c + 2) * u_rnd + c / 10 ^ 13" using i u_pos(1) by (simp_all add: rb_inv_def)
  show "0 \<le> rb_tokens b" using i by (simp add: rb_inv_def)
  define new where "new = rb_refilled c r ttl now b"
  have st: "rb_step c r ttl now b =
      (if 1 \<le> new then (\<lparr>rb_tokens = rnd (dec14 (rnd (new - 1))), rb_last = now\<rparr>, True) else (b, False))"
    by (simp add: rb_step_def new_def Let_def)
  have "new \<le> c" by (simp add: new_def rb_refilled_def Let_def)
  have y: "0 \<le> rnd (new - 1)" "rnd (new - 1) \<le> c" "rnd (new - 1) \<le> new - 1 + (c + 1/2) * u_rnd" if "1 \<le> new"
    using that \<open>new \<le> c\<close> i minus_one_le [OF that \<open>new \<le> c\<close>]
    by (auto simp: rb_inv_def intro!: rnd_nonneg rnd_le_exact)
  note s = stored_le [OF y(1,2)]
  show "rb_inv c r ttl (fst (rb_step c r ttl now b))"
  proof (cases "1 \<le> new")
    case True
    have "c / 10 ^ 13 \<le> c" "u_rnd \<le> 1" using c(1) u_rnd_small(1) by simp_all
    then have "rnd (dec14 (rnd (new - 1))) \<le> 2 * c + 1" using s(1) [OF True True] y(2) [OF True] by linarith
    with True i s(2) [OF True True] show ?thesis by (simp add: st rb_inv_def)
  qed (simp add: st i)
  assume le: "rb_last b \<le> now"
  show "rb_last (fst (rb_step c r ttl now b)) \<le> now" using le by (simp add: st)
  show "rb_tokens (fst (rb_step c r ttl now b)) + of_bool (snd (rb_step c r ttl now b))
      + r * (1 + 5 * u_rnd) / 1000 * (of_nat now - of_nat (rb_last (fst (rb_step c r ttl now b))))
    \<le> rb_tokens b + r * (1 + 5 * u_rnd) / 1000 * (of_nat now - of_nat (rb_last b))
      + ((2 * c + 2) * u_rnd + c / 10 ^ 13)"
  proof (cases "1 \<le> new")
    case True
    have "new \<le> rb_tokens b + r * (1 + 5 * u_rnd) / 1000 * (of_nat now - of_nat (rb_last b)) + (c + 1/2) * u_rnd"
      unfolding new_def by (rule rb_refilled_bounds(3) [OF i le])
    with s(1) [OF True True] y(3) [OF True]
    have "rnd (dec14 (rnd (new - 1))) + 1
        \<le> rb_tokens b + r * (1 + 5 * u_rnd) / 1000 * (of_nat now - of_nat (rb_last b))
          + ((2 * c + 2) * u_rnd + c / 10 ^ 13)"
      using u_pos(1) unfolding distrib_right [of _ _ u_rnd] by linarith
    with True show ?thesis by (simp add: st)
  qed (use c in \<open>simp add: st\<close>)
qed

end
