(* ===== verification/Bucket_Correct.thy ===== *)
theory Bucket_Correct
  imports Token_Bucket
begin

text \<open>
  The properties of the in-memory bucket: its invariant over any run, how much a run can
  admit, that a burst gets exactly the capacity, that an idle bucket admits again, and
  what a refusal reports.
\<close>

subsection \<open>Helper facts\<close>

lemma f64_of_u64_exact:
  assumes "unat (cap :: u64) < 2 ^ 53"
  shows "f64_of_u64 cap = Fin (of_nat (unat cap))" and "rnd (of_nat (unat cap)) = of_nat (unat cap)"
proof -
  show r: "rnd (of_nat (unat cap)) = of_nat (unat cap)" using assms by (rule rnd_of_nat)
  have "(of_nat (unat cap) :: rat) \<le> of_nat (2 ^ 64)"
    using unat_u64_less [of cap] by (simp only: of_nat_le_iff)
  also have "\<dots> \<le> max_fin" by (rule max_fin_ge)
  finally have "\<bar>of_nat (unat cap) :: rat\<bar> \<le> max_fin" by (simp only: abs_of_nat)
  then show "f64_of_u64 cap = Fin (of_nat (unat cap))"
    unfolding f64_of_u64_def using r by (simp only: to_f64_Fin)
qed

lemma serve_Cons:
  "fst (serve step (t # ts) b) = fst (serve step ts (fst (step t b)))"
  "snd (serve step (t # ts) b) = of_bool (snd (step t b)) + snd (serve step ts (fst (step t b)))"
  by (simp_all split: prod.splits)

lemma serve_ok:
  assumes "bucket_ok b"
  shows "bucket_ok (fst (serve lb_step ts b)) \<and> lb_capacity (fst (serve lb_step ts b)) = lb_capacity b"
  using assms
proof (induction ts arbitrary: b)
  case (Cons t ts)
  from Cons.IH [OF try_consume_ok [OF Cons.prems], of t] show ?case
    by (simp only: serve_Cons fst_lb_step try_consume_frame)
qed simp

lemma new_lb_inv:
  assumes "unat (cap :: u64) < 2 ^ 53" "0 \<le> r" "r \<le> 2 ^ 64"
  shows "lb_inv (of_nat (unat cap)) r (LocalBucket_new (f64_of_u64 cap) (Fin r) t0)"
proof -
  have ok: "bucket_ok (LocalBucket_new (f64_of_u64 cap) (Fin r) t0)"
    using assms(2) by (intro LocalBucket_new_ok) simp
  have "(of_nat (unat cap) :: rat) \<le> of_nat (2 ^ 64)"
    using unat_u64_less [of cap] by (simp only: of_nat_le_iff)
  with ok show ?thesis
    using assms(2,3) f64_of_u64_exact(1) [OF assms(1)]
    unfolding lb_inv_def LocalBucket_new_def by simp
qed

lemma as_secs_f64_0: "as_secs_f64 0 = Fin 0"
  using small_Fin [of 0] by (simp add: as_secs_f64_def)

text \<open>With the clock standing still, a refill changes nothing.\<close>

lemma refill_same_time:
  assumes "lb_inv c r b"
  shows "refill (lb_last_refill b) b = b"
proof -
  obtain t where b: "lb_tokens b = Fin t" "lb_capacity b = Fin c" "lb_refill_rate b = Fin r"
    "0 \<le> t" "t \<le> c" "rnd t = t" "c \<le> 2 ^ 64"
    using assms by (rule lb_invE)
  have "to_f64 t = Fin t" "to_f64 0 = Fin 0" using small_Fin [of t] small_Fin [of 0] b by simp_all
  with b show ?thesis
    by (cases b) (simp add: refill_def Let_def as_secs_f64_0 fmin_def)
qed

lemma burst_serve:
  assumes "lb_inv c r b" "lb_tokens b = Fin (of_nat m)" "m < 2 ^ 53"
  shows "snd (serve lb_step (replicate n (lb_last_refill b)) b) = min n m"
  using assms
proof (induction n arbitrary: b m)
  case (Suc n)
  let ?b = "fst (lb_step (lb_last_refill b) b)"
  have inv: "lb_inv c r ?b" using Suc.prems(1) by (rule lb.step_inv)
  have l: "lb_last_refill ?b = lb_last_refill b" by (simp add: fst_lb_step)
  have st: "lb_step (lb_last_refill b) b
      = (if 1 \<le> m then (b\<lparr>lb_tokens := fsub (Fin (of_nat m)) (Fin 1)\<rparr>, True) else (b, False))"
    using Suc.prems(2)
    by (auto simp: lb_step_def try_consume_def Let_def refill_same_time [OF Suc.prems(1)]
        of_nat_le_iff [where 'a = rat, of 1, unfolded of_nat_1])
  show ?case
  proof (cases "1 \<le> m")
    case True
    have "rnd (of_nat (m - 1)) = of_nat (m - 1)" using Suc.prems(3) by (intro rnd_of_nat) simp
    moreover have "(of_nat (m - 1) :: rat) \<le> of_nat (2 ^ 53)"
      using Suc.prems(3) by (simp only: of_nat_le_iff)
    ultimately have "fsub (Fin (of_nat m)) (Fin 1) = Fin (of_nat (m - 1))"
      using small_Fin [of "of_nat (m - 1)"] True by (simp add: fsub_def of_nat_diff)
    with st True have "lb_tokens ?b = Fin (of_nat (m - 1))" by simp
    from Suc.IH [OF inv this] Suc.prems(3) l
    have "snd (serve lb_step (replicate n (lb_last_refill b)) ?b) = min n (m - 1)" by simp
    with st True show ?thesis by (simp add: serve_Cons del: serve.simps)
  next
    case False
    with st have "?b = b" by simp
    with Suc.IH [OF Suc.prems] st False show ?thesis by (simp add: serve_Cons del: serve.simps)
  qed
qed simp

lemma as_secs_f64_ge:
  assumes "ns < 2 ^ 53 * 10 ^ 9"
  shows "\<exists>e. as_secs_f64 ns = Fin e \<and> of_nat (ns div 10 ^ 9) \<le> e"
proof -
  obtain e where e: "as_secs_f64 ns = Fin e"
    using as_secs_f64_le [of ns] assms by (auto intro: less_le_trans)
  have k: "ns div 10 ^ 9 < 2 ^ 53" using assms by (simp add: less_mult_imp_div_less)
  then have "rnd (of_nat (ns div 10 ^ 9)) = of_nat (ns div 10 ^ 9)" by (rule rnd_of_nat)
  moreover have "(of_nat (ns div 10 ^ 9) :: rat) \<le> of_nat (2 ^ 53)"
    using k by (simp only: of_nat_le_iff)
  ultimately have s: "to_f64 (of_nat (ns div 10 ^ 9)) = Fin (of_nat (ns div 10 ^ 9))"
    using small_Fin [of "of_nat (ns div 10 ^ 9)"] by simp
  define f where "f = fdiv (to_f64 (of_nat (ns mod 10 ^ 9))) (Fin (10 ^ 9))"
  have f: "fle (Fin 0) f"
    unfolding f_def by (cases "to_f64 (of_nat (ns mod 10 ^ 9) :: rat)")
      (use to_f64_nonneg [of "of_nat (ns mod 10 ^ 9)"] in \<open>simp_all add: to_f64_nonneg inf_of_sign_def\<close>)
  have ef: "fadd (Fin (of_nat (ns div 10 ^ 9))) f = Fin e"
    using e unfolding as_secs_f64_def s f_def .
  then obtain m where m: "f = Fin m" "0 \<le> m" using f by (cases f) auto
  have "fle (to_f64 (of_nat (ns div 10 ^ 9))) (to_f64 (of_nat (ns div 10 ^ 9) + m))"
    using m(2) by (intro to_f64_mono) simp
  with s ef m(1) e show ?thesis by simp
qed

text \<open>The largest number below one is \<open>1 - 2 powi - 53\<close>.\<close>

lemma below_one:
  assumes "rnd t = t" "t < 1"
  shows "2 powi - 53 \<le> 1 - t"
proof (cases "1/2 \<le> t")
  case True
  then have "2 powi (- 1) \<le> t" by (simp add: power_int_minus)
  then have "- 1 \<le> flog2 t" by (rule flog2_ge)
  moreover have "flog2 t < 0" using assms(2) True by (intro flog2_less) simp_all
  ultimately have "flog2 t = - 1" by simp
  then have q: "qexp t = - 53" using True by (simp add: qexp_def)
  have "t \<noteq> 0" using True by auto
  then have "rnd t = of_int (rne (t / 2 powi - 53)) * 2 powi - 53"
    by (simp only: rnd_def Let_def if_False q)
  then obtain k where k: "t = of_int k * 2 powi - 53" using assms(1) by metis
  have one: "(1 :: rat) = of_int (2 ^ 53) * 2 powi - 53" by (simp add: power_int_minus)
  have "of_int k * 2 powi - 53 < of_int (2 ^ 53) * (2 :: rat) powi - 53"
    using assms(2) k one by simp
  then have "(of_int k :: rat) < of_int (2 ^ 53)"
    using mult_less_cancel_right_pos [OF powi2_pos] by blast
  then have "k + 1 \<le> 2 ^ 53" by (simp only: of_int_less_iff)
  then have "of_int (k + 1) * 2 powi - 53 \<le> of_int (2 ^ 53) * (2 :: rat) powi - 53"
    by (intro mult_right_mono) (simp_all only: of_int_le_iff less_imp_le [OF powi2_pos])
  then show ?thesis using k one by (simp add: distrib_right)
next
  case False
  have "(2 :: rat) powi - 53 \<le> 2 powi - 1" by (simp only: powi2_le_iff)
  with False show ?thesis by (simp add: power_int_minus)
qed

lemma f64_as_u64_pos: "fle (Fin 1) a \<Longrightarrow> 0 < f64_as_u64 a"
proof (cases a)
  case (Fin x)
  assume "fle (Fin 1) a"
  then have x: "1 \<le> x" using Fin by simp
  show ?thesis
  proof (cases "18446744073709551616 \<le> x")
    case False
    then have "1 \<le> \<lfloor>x\<rfloor>" "\<lfloor>x\<rfloor> < 18446744073709551616" using x by (simp_all add: le_floor_iff floor_less_iff)
    then have "uint (word_of_int \<lfloor>x\<rfloor> :: u64) = \<lfloor>x\<rfloor>"
      by (simp add: unsigned_of_int take_bit_eq_mod)
    then have "(word_of_int \<lfloor>x\<rfloor> :: u64) \<noteq> 0"
      using \<open>1 \<le> \<lfloor>x\<rfloor>\<close> by (metis unsigned_0 not_one_le_zero)
    with Fin False x show ?thesis by (simp add: word_gt_0)
  qed (use Fin x in \<open>simp add: word_gt_0\<close>)
qed (simp_all add: word_gt_0)

lemma fceil_ge_1: "flt (Fin 0) a \<Longrightarrow> fle (Fin 1) (fceil a)"
  by (cases a) (simp_all add: le_ceiling_iff)

lemma wait_pos:
  assumes "0 < r" "r \<le> 2 ^ 64" "2 powi - 53 \<le> p"
  shows "flt (Fin 0) (fmul (fdiv (Fin p) (Fin r)) (Fin 1000))"
proof -
  obtain k :: rat where k: "0 < k" "k * 2 ^ 64 \<le> 2 powi - 53" "to_f64 k = Fin k"
  proof
    show "(0 :: rat) < 2 powi - 117" by (rule powi2_pos)
    show "(2 :: rat) powi - 117 * 2 ^ 64 \<le> 2 powi - 53"
      using powi2_add [of "- 117" 64] by simp
    have "(2 :: rat) powi - 117 \<le> 2 powi 0" by (simp only: powi2_le_iff)
    then have "\<bar>(2 :: rat) powi - 117\<bar> \<le> 2 ^ 200" using powi2_pos [of "- 117"] by simp
    from small_Fin [OF this] rnd_powi [of "- 117"] show "to_f64 (2 powi - 117) = Fin (2 powi - 117)"
      by simp
  qed
  have "k * r \<le> k * 2 ^ 64" using assms(2) k(1) by (intro mult_left_mono) simp_all
  with k(2) assms(3) have "k * r \<le> p" by linarith
  then have "k \<le> p / r" using assms(1) by (simp add: pos_le_divide_eq)
  then have q: "fle (Fin k) (to_f64 (p / r))" using to_f64_mono k(3) by metis
  show ?thesis
  proof (cases "to_f64 (p / r)")
    case (Fin x)
    with q k(1) have "k \<le> x * 1000" by simp
    then have "fle (Fin k) (to_f64 (x * 1000))" using to_f64_mono k(3) by metis
    with Fin k(1) assms(1) show ?thesis by (cases "to_f64 (x * 1000)") simp_all
  qed (use q assms(1) in \<open>simp_all add: inf_of_sign_def\<close>)
qed

subsection \<open>Properties\<close>

text \<open>Whatever the calls and their times, a bucket created by
  \<open>LocalBucket::new(cap as f64, rate)\<close> keeps a finite level between zero and its
  capacity, for every rate that is not negative, the infinite and the NaN rate
  included.\<close>

theorem lb_run_level_bounded:
  assumes "\<not> flt rate (Fin 0)"
  shows "\<exists>t c. lb_tokens (fst (serve lb_step ts (LocalBucket_new (f64_of_u64 cap) rate t0))) = Fin t
    \<and> f64_of_u64 cap = Fin c \<and> 0 \<le> t \<and> t \<le> c"
  using serve_ok [OF LocalBucket_new_ok [OF assms], of ts cap t0]
  by (auto simp: bucket_ok_def LocalBucket_new_def) (metis f64.inject)

theorem lb_run_level_bounded_witness:
  "\<exists>t c. lb_tokens (fst (serve lb_step [0, 5, 3] (LocalBucket_new (f64_of_u64 2) NaN 0))) = Fin t
    \<and> f64_of_u64 2 = Fin c \<and> 0 \<le> t \<and> t \<le> c"
  by (rule lb_run_level_bounded) simp

text \<open>C6. Admission bound: over calls at non-decreasing times from the creation at
  \<open>t0\<close> to \<open>T\<close>, a bucket of capacity \<open>cap\<close> and rate \<open>r\<close> admits at
  most \<open>cap + r * (T - t0)\<close> requests, up to the rounding of the floating-point
  arithmetic: five units in the last place on the rate and \<open>2 * cap + 1\<close> units per
  call.\<close>

theorem lb_admission_bound:
  assumes "unat (cap :: u64) < 2 ^ 53" "0 \<le> r" "r \<le> 2 ^ 64"
    and "sorted (t0 # ts @ [T])" "T < 2 ^ 64 * 10 ^ 9"
  shows "of_nat (snd (serve lb_step ts (LocalBucket_new (f64_of_u64 cap) (Fin r) t0)))
    \<le> of_nat (unat cap) + r * (1 + 5 * u_rnd) / 10 ^ 9 * (of_nat T - of_nat t0)
      + of_nat (length ts) * ((2 * of_nat (unat cap) + 1) * u_rnd)"
proof -
  let ?b = "LocalBucket_new (f64_of_u64 cap) (Fin r) t0"
  have "lb_last_refill ?b = t0" "lb_level ?b = of_nat (unat cap)"
    by (simp_all only: LocalBucket_new_def lb_level_def f64_of_u64_exact(1) [OF assms(1)]
        LocalBucket.simps f64.case)
  moreover have "0 \<le> r * (1 + 5 * u_rnd) / 10 ^ 9" using assms(2) by (simp add: add_nonneg_nonneg)
  ultimately show ?thesis
    using lb.admitted_bound [OF new_lb_inv [OF assms(1-3), of t0], of ts T] assms(4,5) by simp
qed

theorem lb_admission_bound_witness:
  "of_nat (snd (serve lb_step [0, 10, 2000000000] (LocalBucket_new (f64_of_u64 2) (Fin 3) 0)))
    \<le> of_nat (unat (2 :: u64)) + 3 * (1 + 5 * u_rnd) / 10 ^ 9 * (of_nat 3000000000 - of_nat 0)
      + of_nat (length [0 :: nat, 10, 2000000000]) * ((2 * of_nat (unat (2 :: u64)) + 1) * u_rnd)"
  by (rule lb_admission_bound) simp_all

text \<open>A burst of \<open>n\<close> simultaneous calls on a fresh bucket is admitted up to
  the capacity and no further, exactly: floating point loses nothing here.\<close>

theorem lb_burst_exact:
  assumes "unat (cap :: u64) < 2 ^ 53" "0 \<le> r" "r \<le> 2 ^ 64"
  shows "snd (serve lb_step (replicate n t0) (LocalBucket_new (f64_of_u64 cap) (Fin r) t0))
    = min n (unat cap)"
proof -
  let ?b = "LocalBucket_new (f64_of_u64 cap) (Fin r) t0"
  have "lb_last_refill ?b = t0" "lb_tokens ?b = Fin (of_nat (unat cap))"
    by (simp_all only: LocalBucket_new_def f64_of_u64_exact(1) [OF assms(1)] LocalBucket.simps)
  then show ?thesis
    using burst_serve [OF new_lb_inv [OF assms, of t0]] assms(1) by metis
qed

theorem lb_burst_exact_witness:
  "snd (serve lb_step (replicate 3 7) (LocalBucket_new (f64_of_u64 2) (Fin 1) 7)) = min 3 (unat (2 :: u64))"
  by (rule lb_burst_exact) simp_all

text \<open>An idle bucket admits again: once the whole seconds since the last refill are
  worth one token at the refill rate, the next call is admitted, whatever the level was
  left at.\<close>

theorem lb_idle_admits:
  assumes "bucket_ok b" "lb_capacity b = Fin c" "1 \<le> c"
    and "lb_refill_rate b = Fin r" "0 \<le> r" "r \<le> 2 ^ 64"
    and "now - lb_last_refill b < 2 ^ 53 * 10 ^ 9"
    and "1 \<le> r * of_nat ((now - lb_last_refill b) div 10 ^ 9)"
  shows "fst (snd (try_consume now b))"
proof -
  let ?ns = "now - lb_last_refill b"
  obtain t where t: "lb_tokens b = Fin t" "0 \<le> t" "t \<le> c" "rnd t = t"
    using assms(1,2) by (auto simp: bucket_ok_def)
  obtain e where e: "as_secs_f64 ?ns = Fin e" "of_nat (?ns div 10 ^ 9) \<le> e"
    using as_secs_f64_ge [OF assms(7)] by blast
  have "1 \<le> r * e" using assms(5,8) mult_left_mono [OF e(2) assms(5)] by simp
  then have "fle (to_f64 1) (to_f64 (r * e))" by (rule to_f64_mono)
  moreover have one: "to_f64 1 = Fin 1" using small_Fin [of 1] by simp
  ultimately have re: "fle (Fin 1) (to_f64 (r * e))" by simp
  have "fle (Fin 1) (fadd (Fin t) (to_f64 (r * e)))"
  proof (cases "to_f64 (r * e)")
    case (Fin x)
    with re t(2) have "fle (to_f64 1) (to_f64 (t + x))" by (intro to_f64_mono) simp
    with Fin one show ?thesis by simp
  qed (use re in simp_all)
  with assms(2-4) t e(1) have "fle (Fin 1) (lb_tokens (refill now b))"
    by (simp add: refill_def Let_def fmin_ge)
  then show ?thesis by (simp add: try_consume_def Let_def)
qed

theorem lb_idle_admits_witness:
  "fst (snd (try_consume 3000000000
     \<lparr>lb_tokens = Fin 0, lb_capacity = Fin 1, lb_refill_rate = Fin (1/2), lb_last_refill = 0\<rparr>))"
proof (rule lb_idle_admits [where c = 1 and r = "1/2"])
  have "(0 :: rat) \<le> max_fin" "(1 :: rat) \<le> max_fin"
    using max_fin_pos max_fin_ge by simp_all
  then show "bucket_ok \<lparr>lb_tokens = Fin 0, lb_capacity = Fin 1, lb_refill_rate = Fin (1/2),
      lb_last_refill = 0\<rparr>"
    by (simp add: bucket_ok_def)
qed simp_all

text \<open>What a refusal reports: no tokens remain and the caller is told to wait at
  least one millisecond, \<open>u64::MAX\<close> when the bucket never refills. The comparison
  of the test suite (\<open>retry > 0\<close>) holds for every positive rate up to 2^64.\<close>

theorem lb_denied_retry:
  assumes "bucket_ok b" "lb_refill_rate b = Fin r" "r \<le> 2 ^ 64"
    and "try_consume now b = (b', False, remaining, retry_ms)"
  shows "remaining = 0 \<and> 0 < retry_ms \<and> (r = 0 \<longrightarrow> retry_ms = - 1)"
proof -
  have r: "0 \<le> r" using assms(1,2) by (simp add: bucket_ok_def)
  obtain t where t: "lb_tokens (refill now b) = Fin t" "rnd t = t" "0 \<le> t"
    using refill_ok [OF assms(1), of now] by (auto simp: bucket_ok_def)
  have d: "t < 1" "remaining = 0"
    and retry: "retry_ms = (if 0 < r then f64_as_u64 (fceil (fmul (fdiv (fsub (Fin 1) (Fin t)) (Fin r)) (Fin 1000)))
        else - 1)"
    using assms(4) t(1) assms(2) by (auto simp: try_consume_def Let_def split: if_splits)
  have "0 < retry_ms"
  proof (cases "0 < r")
    case True
    define p where "p = rnd (1 - t)"
    have p: "2 powi - 53 \<le> p"
      unfolding p_def by (rule rnd_ge_exact [OF below_one [OF t(2) d(1)] rnd_powi]) simp
    have s: "fsub (Fin 1) (Fin t) = Fin p"
      unfolding p_def using small_Fin [of "1 - t"] d t(3) by (simp add: fsub_def)
    have "flt (Fin 0) (fmul (fdiv (Fin p) (Fin r)) (Fin 1000))"
      using True assms(3) p by (rule wait_pos)
    then show ?thesis
      unfolding retry s using True by (simp only: f64_as_u64_pos fceil_ge_1 if_True)
  next
    case False
    with retry show ?thesis by (simp add: word_gt_0)
  qed
  with d(2) retry r show ?thesis by auto
qed

theorem lb_denied_retry_witness:
  "\<exists>b' remaining retry_ms. try_consume 0
      \<lparr>lb_tokens = Fin 0, lb_capacity = Fin 1, lb_refill_rate = Fin 2, lb_last_refill = 0\<rparr>
      = (b', False, remaining, retry_ms)
    \<and> remaining = 0 \<and> 0 < retry_ms \<and> ((2 :: rat) = 0 \<longrightarrow> retry_ms = - 1)"
proof -
  let ?b = "\<lparr>lb_tokens = Fin 0, lb_capacity = Fin 1, lb_refill_rate = Fin 2, lb_last_refill = 0\<rparr>"
  have "(0 :: rat) \<le> max_fin" "(1 :: rat) \<le> max_fin"
    using max_fin_pos max_fin_ge by simp_all
  then have ok: "bucket_ok ?b" by (simp add: bucket_ok_def)
  have "to_f64 0 = Fin 0" using small_Fin [of 0] by simp
  then have "\<not> fst (snd (try_consume 0 ?b))"
    by (simp add: try_consume_def refill_def Let_def as_secs_f64_0 fmin_def)
  then obtain b' remaining retry_ms where "try_consume 0 ?b = (b', False, remaining, retry_ms)"
    by (cases "try_consume 0 ?b") auto
  with lb_denied_retry [OF ok _ _ this, of 2] show ?thesis by auto
qed

end
