(* ===== verification/Lua_Refine.thy ===== *)
theory Lua_Refine
  imports Lua_Script Bucket_Correct
begin

text \<open>
  The script refines the bucket \<open>rb_step\<close>: what it reads and writes in Redis represents
  the abstract bucket, and its reply tells the outcome. The time to live that
  \<open>ttl_seconds\<close> computes is long enough for dropping the key to be the same as keeping it.
\<close>

subsection \<open>The time to live\<close>

lemma rnd_gt_half:
  assumes "0 < x" "2 powi - 1074 \<le> x"
  shows "\<exists>p. 0 < p \<and> p \<le> rnd x \<and> x < 2 * p \<and> rnd p = p \<and> rnd (2 * p) = 2 * p"
proof -
  let ?p = "(2 :: rat) powi flog2 x"
  have f: "- 1074 \<le> flog2 x" using assms(2) by (rule flog2_ge)
  have "rnd ?p = ?p" using f by (rule rnd_powi)
  moreover have t: "2 * ?p = 2 powi (flog2 x + 1)" by (simp add: power_int_add)
  moreover have "rnd (2 powi (flog2 x + 1)) = 2 powi (flog2 x + 1)" using f by (intro rnd_powi) simp
  ultimately show ?thesis
    using flog2_bounds [OF assms(1)] rnd_ge_exact [of ?p x] by (intro exI [of _ ?p]) simp
qed

lemma ttl_seconds_enough:
  assumes "1 \<le> unat cap" "unat cap < 2 ^ 53" "0 < r" "r \<le> 2 ^ 64" "of_nat (unat cap) \<le> r * 2 ^ 30"
  shows "of_nat (unat cap) \<le> r * of_nat (unat (ttl_seconds cap (Fin r)))"
    "0 < unat (ttl_seconds cap (Fin r))" "unat (ttl_seconds cap (Fin r)) < 2 ^ 32"
proof -
  define c where "c = (of_nat (unat cap) :: rat)"
  have c: "1 \<le> c" "f64_of_u64 cap = Fin c"
  proof -
    have "of_nat 1 \<le> (of_nat (unat cap) :: rat)" using assms(1) by (simp only: of_nat_le_iff)
    then show "1 \<le> c" by (simp only: c_def of_nat_1)
    have "rnd c = c" unfolding c_def using assms(2) by (rule rnd_of_nat)
    moreover have "c \<le> of_nat (2 ^ 53)" unfolding c_def using assms(2) by (simp only: of_nat_le_iff)
    ultimately show "f64_of_u64 cap = Fin c"
      unfolding f64_of_u64_def c_def [symmetric] using small_Fin [of c] \<open>1 \<le> c\<close> by simp
  qed
  define x where "x = c / r"
  have "c \<le> r * 2 ^ 30" using assms(5) by (simp only: c_def)
  then have x: "0 < x" "x \<le> 2 ^ 30" "r * x = c"
    using c(1) assms(3) by (simp_all add: x_def divide_le_eq mult.commute)
  have "2 powi - 64 * r \<le> 2 powi - 64 * (2 ^ 64 :: rat)" using assms(4) by (intro mult_left_mono) simp_all
  also have "\<dots> = 1" using powi2_add [of "- 64" 64] by simp
  finally have "2 powi - 64 \<le> x" using c(1) assms(3) by (simp add: x_def pos_le_divide_eq)
  moreover have "(2 :: rat) powi - 1074 \<le> 2 powi - 64" by (simp only: powi2_le_iff)
  ultimately have "2 powi - 1074 \<le> x" by simp
  with x(1) obtain p where p: "0 < p" "p \<le> rnd x" "x < 2 * p" "rnd (2 * p) = 2 * p"
    using rnd_gt_half by blast
  have q: "rnd x \<le> 2 ^ 30" using x(2) rnd_powi [of 30] by (intro rnd_le_exact) simp_all
  define y where "y = rnd (rnd x * 2)"
  have y: "2 * p \<le> y" "y \<le> 2 ^ 31"
    unfolding y_def using p q rnd_powi [of 31] by (auto intro!: rnd_ge_exact rnd_le_exact)
  have "to_f64 x = Fin (rnd x)" "to_f64 (rnd x * 2) = Fin y"
    unfolding y_def using p q x by (auto intro!: small_Fin)
  then have t: "ttl_seconds cap (Fin r) = f64_as_u64 (Fin (of_int \<lceil>y\<rceil>))"
    using assms(3) by (simp add: ttl_seconds_def c(2) x_def [symmetric])
  have cy: "1 \<le> \<lceil>y\<rceil>" "\<lceil>y\<rceil> \<le> 2 ^ 31" "y \<le> of_int \<lceil>y\<rceil>"
    using y p(1) by (simp_all add: le_ceiling_iff ceiling_le_iff)
  have "f64_as_u64 (Fin (of_int \<lceil>y\<rceil>)) = word_of_int \<lceil>y\<rceil>" using cy(1,2) by simp
  then have u: "unat (ttl_seconds cap (Fin r)) = nat \<lceil>y\<rceil>"
    using cy(1,2) unfolding t by (simp add: unat_eq_nat_uint unsigned_of_int take_bit_eq_mod)
  have "\<lceil>y\<rceil> < 4294967296" using cy(2) by (rule le_less_trans) simp
  then have "nat \<lceil>y\<rceil> < 4294967296" by linarith
  then show "unat (ttl_seconds cap (Fin r)) < 2 ^ 32" unfolding u by simp
  show "0 < unat (ttl_seconds cap (Fin r))" unfolding u using cy(1) by linarith
  have "x \<le> of_int \<lceil>y\<rceil>" using p(3) y(1) cy(3) by linarith
  then have "r * x \<le> r * of_int \<lceil>y\<rceil>" using assms(3) by (intro mult_left_mono) simp_all
  moreover have "(of_nat (nat \<lceil>y\<rceil>) :: rat) = of_int \<lceil>y\<rceil>" using cy(1) by (intro of_nat_nat) simp
  ultimately show "of_nat (unat cap) \<le> r * of_nat (unat (ttl_seconds cap (Fin r)))"
    unfolding u using x(3) by (simp only: c_def)
qed

subsection \<open>Simulation\<close>

text \<open>The readings of the fields of a key from the last write on.\<close>

definition bucket_rel :: "'db redis \<Rightarrow> string \<Rightarrow> rat \<Rightarrow> nat \<Rightarrow> 'db \<Rightarrow> RedisBucket \<Rightarrow> bool" where
  "bucket_rel R key c ttl db b \<longleftrightarrow>
     (\<forall>srv. rb_last b + 1000 * ttl \<le> srv \<longrightarrow>
        hget R db srv key ''tokens'' = None \<and> hget R db srv key ''last_refill_ms'' = None)
     \<and> ((\<forall>srv. rb_last b \<le> srv \<longrightarrow> srv < rb_last b + 1000 * ttl \<longrightarrow>
           (\<exists>s. hget R db srv key ''tokens'' = Some s \<and> tonumber s = Fin (rb_tokens b))
           \<and> hget R db srv key ''last_refill_ms'' = Some (Fin (of_nat (rb_last b))))
       \<or> (rb_tokens b = c \<and> (\<forall>srv. rb_last b \<le> srv \<longrightarrow>
           hget R db srv key ''tokens'' = None \<and> hget R db srv key ''last_refill_ms'' = None)))"

lemma exact_ms: "n < 10 ^ 14 \<Longrightarrow> to_f64 (of_nat n) = Fin (of_nat n)"
proof -
  assume n: "n < 10 ^ 14"
  then have "rnd (of_nat n) = of_nat n" by (intro rnd_of_nat) simp
  moreover have "(of_nat n :: rat) \<le> of_nat (10 ^ 14)" using n by (simp only: of_nat_le_iff)
  ultimately show ?thesis using small_Fin [of "of_nat n"] by simp
qed

lemma exact_diff:
  assumes "l \<le> now" "now < 10 ^ 14"
  shows "fsub (Fin (of_nat now)) (Fin (of_nat l)) = Fin (of_nat now - of_nat l)"
  using exact_ms [of "now - l"] assms by (simp add: fsub_def of_nat_diff)

lemma script_level:
  assumes "0 \<le> t" "t \<le> 2 ^ 66" "l \<le> now" "now < 10 ^ 14" "0 \<le> r" "r \<le> 2 ^ 64" "0 \<le> c" "c \<le> 2 ^ 64"
  shows "math_min (fadd (Fin t) (fmul (Fin r) (fdiv (fsub (Fin (of_nat now)) (Fin (of_nat l))) (Fin 1000)))) (Fin c)
    = Fin (min (rnd (t + rnd (r * rnd ((of_nat now - of_nat l) / 1000)))) c)"
proof -
  define D where "D = (of_nat now - of_nat l :: rat) / 1000"
  have "(of_nat now :: rat) \<le> of_nat (10 ^ 14)" using assms(4) by (simp only: of_nat_le_iff)
  then have D: "0 \<le> D" "D \<le> 2 ^ 60" using assms(3) by (simp_all add: D_def)
  define e where "e = rnd D"
  have e: "0 \<le> e" "e \<le> 2 ^ 60"
    unfolding e_def using D rnd_powi [of 60] by (auto intro!: rnd_nonneg rnd_le_exact)
  have re: "0 \<le> r * e" "r * e \<le> 2 ^ 64 * 2 ^ 60"
    using assms(5,6) e by (simp, intro mult_mono) simp_all
  define f where "f = rnd (r * e)"
  have f: "0 \<le> f" "f \<le> 2 ^ 124"
    unfolding f_def using re rnd_powi [of 124] by (auto intro!: rnd_nonneg rnd_le_exact)
  have "fdiv (Fin (of_nat now - of_nat l)) (Fin 1000) = Fin e" "fmul (Fin r) (Fin e) = Fin f"
    "fadd (Fin t) (Fin f) = Fin (rnd (t + f))"
    using D re f assms(1,2) small_Fin [of D] small_Fin [of "r * e"] small_Fin [of "t + f"]
    by (simp_all add: D_def [symmetric] e_def f_def)
  then show ?thesis
    by (simp add: exact_diff [OF assms(3,4)] math_min_def D_def [symmetric] e_def [symmetric]
        f_def [symmetric] min_def)
qed

lemma script_reads:
  assumes "rb_inv c r ttl b" "bucket_rel R key c ttl db b" "rb_last b \<le> now" "now < 10 ^ 14"
  shows "math_min (fadd (case hget R db now key ''tokens'' of Some t \<Rightarrow> tonumber t | None \<Rightarrow> Fin c)
      (fmul (Fin r) (fdiv (fsub (Fin (of_nat now))
        (case hget R db now key ''last_refill_ms'' of Some t \<Rightarrow> tonumber t | None \<Rightarrow> Fin (of_nat now)))
        (Fin 1000)))) (Fin c) = Fin (rb_refilled c r ttl now b)"
proof -
  have i: "0 \<le> rb_tokens b" "rb_tokens b \<le> 2 ^ 66" "0 \<le> c" "c \<le> 2 ^ 64" "c \<le> 2 ^ 66" "rnd c = c"
    "0 \<le> r" "r \<le> 2 ^ 64"
    using assms(1) by (simp_all add: rb_inv_def)
  have full: "min (rnd (c + x)) c = c" if "0 \<le> x" for x
    using rnd_ge_exact [of c "c + x"] that i(6) by (simp add: min_def)
  have fresh: "rb_refilled c r ttl now b = c"
    "math_min (fadd (Fin c) (fmul (Fin r) (fdiv (fsub (Fin (of_nat now)) (Fin (of_nat now))) (Fin 1000)))) (Fin c) = Fin c"
    if "rb_tokens b = c \<or> rb_last b + 1000 * ttl \<le> now"
  proof -
    have "0 \<le> rnd (r * rnd ((of_nat now - of_nat (rb_last b)) / 1000))"
      using i(7) elapsed_le(1) [OF assms(3)] by (rule rnd_nonneg [OF mult_nonneg_nonneg])
    then have "min (rnd (c + rnd (r * rnd ((of_nat now - of_nat (rb_last b)) / 1000)))) c = c" by (rule full)
    then show "rb_refilled c r ttl now b = c" using that full [of 0] by (auto simp: rb_refilled_def Let_def)
    show "math_min (fadd (Fin c) (fmul (Fin r) (fdiv (fsub (Fin (of_nat now)) (Fin (of_nat now))) (Fin 1000)))) (Fin c) = Fin c"
      using script_level [of c now now r c] i assms(4) full [of 0] by simp
  qed
  show ?thesis
  proof (cases "hget R db now key ''tokens''")
    case None
    then have "hget R db now key ''last_refill_ms'' = None" "rb_tokens b = c \<or> rb_last b + 1000 * ttl \<le> now"
      using assms(2,3) unfolding bucket_rel_def by (metis not_le option.distinct(1))+
    with None fresh show ?thesis by simp
  next
    case (Some s)
    have nx: "\<not> rb_last b + 1000 * ttl \<le> now" using Some assms(2) by (auto simp: bucket_rel_def)
    then have s: "tonumber s = Fin (rb_tokens b)" "hget R db now key ''last_refill_ms'' = Some (Fin (of_nat (rb_last b)))"
      using Some assms(2,3) unfolding bucket_rel_def by (metis not_le option.distinct(1) option.inject)+
    have "tonumber (Fin (of_nat (rb_last b))) = Fin (of_nat (rb_last b))"
      using exact_ms [of "rb_last b"] assms(3,4) by simp
    with Some s nx show ?thesis
      using script_level [of "rb_tokens b" "rb_last b" now r c] i assms(3,4)
      by (simp add: rb_refilled_def del: tonumber.simps)
  qed
qed

lemma redis_specD:
  assumes "redis_spec R" "0 < ttl" "ttl < 2 ^ 32"
  shows "\<exists>db2. expire R (hset R db srv key fs) srv key (Fin (of_nat ttl)) = Inr db2
    \<and> (\<forall>srv' f. srv \<le> srv' \<longrightarrow> srv' < srv + 1000 * ttl \<longrightarrow> f \<in> fst ` set fs \<longrightarrow>
         hget R db2 srv' key f = map_of fs f)
    \<and> (\<forall>srv' f. srv + 1000 * ttl \<le> srv' \<longrightarrow> hget R db2 srv' key f = None)
    \<and> (\<forall>srv' key' f. key' \<noteq> key \<longrightarrow> hget R db2 srv' key' f = hget R db srv' key' f)"
  using assms unfolding redis_spec_def by (elim allE impE) simp_all

lemma script_step:
  assumes R: "redis_spec R" and i: "rb_inv c r ttl b" and rel: "bucket_rel R key c ttl db b"
    and now: "rb_last b \<le> now" "now < 10 ^ 14" and ttl: "0 < ttl" "ttl < 2 ^ 32"
    and new: "new = rb_refilled c r ttl now b"
  shows "\<exists>db'. LUA_SCRIPT R now key (Fin (of_nat now)) (Fin c) (Fin r) (Fin 1) (Fin (of_nat ttl)) db
      = (db', Inr (if 1 \<le> new then allowed_json (int_text (Fin (of_int \<lfloor>rnd (new - 1)\<rfloor>)))
           else denied_json (ceil_text (fmul (fdiv (fsub (Fin 1) (Fin new)) (Fin r)) (Fin 1000)))))
    \<and> bucket_rel R key c ttl db' (fst (rb_step c r ttl now b))
    \<and> (\<forall>srv key' f. key' \<noteq> key \<longrightarrow> hget R db' srv key' f = hget R db srv key' f)"
proof (cases "1 \<le> new")
  case False
  have "LUA_SCRIPT R now key (Fin (of_nat now)) (Fin c) (Fin r) (Fin 1) (Fin (of_nat ttl)) db
      = (db, Inr (denied_json (ceil_text (fmul (fdiv (fsub (Fin 1) (Fin new)) (Fin r)) (Fin 1000)))))"
    using False by (simp only: LUA_SCRIPT_def Let_def script_reads [OF i rel now] new [symmetric] fle.simps if_False)
  with False rel show ?thesis by (simp add: rb_step_def new)
next
  case True
  define y where "y = rnd (new - 1)"
  have "new \<le> c" unfolding new by (rule rb_refilled_bounds [OF i now(1)])
  then have y: "fsub (Fin new) (Fin 1) = Fin y" "0 \<le> y" "y \<le> c"
    unfolding y_def using True i small_Fin [of "new - 1"]
    by (auto simp: fsub_def rb_inv_def intro!: rnd_nonneg rnd_le_exact)
  let ?f = "[(''tokens'', tostring (Fin y)), (''last_refill_ms'', tostring (Fin (of_nat now)))]"
  from R ttl obtain db' where db': "expire R (hset R db now key ?f) now key (Fin (of_nat ttl)) = Inr db'"
    and live: "\<And>srv f. now \<le> srv \<Longrightarrow> srv < now + 1000 * ttl \<Longrightarrow> f \<in> fst ` set ?f \<Longrightarrow>
      hget R db' srv key f = map_of ?f f"
    and dead: "\<And>srv f. now + 1000 * ttl \<le> srv \<Longrightarrow> hget R db' srv key f = None"
    and other: "\<And>srv key' f. key' \<noteq> key \<Longrightarrow> hget R db' srv key' f = hget R db srv key' f"
    using redis_specD [OF R ttl, where db = db and srv = now and key = key and fs = ?f] by blast
  have "LUA_SCRIPT R now key (Fin (of_nat now)) (Fin c) (Fin r) (Fin 1) (Fin (of_nat ttl)) db
      = (db', Inr (allowed_json (int_text (Fin (of_int \<lfloor>y\<rfloor>)))))"
    using True by (simp only: LUA_SCRIPT_def Let_def script_reads [OF i rel now] new [symmetric] fle.simps
        if_True y(1) db' sum.case ffloor.simps)
  moreover have "dec14 (of_nat now) = of_nat now" using now(2) by (rule dec14_of_nat)
  moreover have "to_f64 (dec14 y) = Fin (rnd (dec14 y))"
    using stored_le [OF y(2,3)] y i abs_le_D1 [OF dec14_error [of y]] dec14_nonneg [OF y(2)]
    by (intro small_Fin) (simp add: rb_inv_def)
  ultimately show ?thesis
    using True other live dead
    by (intro exI [of _ db']) (simp add: rb_step_def new [symmetric] y_def [symmetric] bucket_rel_def)
qed

subsection \<open>The numbers of the reply\<close>

lemma allowed_text:
  assumes "0 \<le> (y :: rat)" "y < 10 ^ 14"
  shows "int_text (Fin (of_int \<lfloor>y\<rfloor>)) = show_nat (nat \<lfloor>y\<rfloor>)"
proof -
  have f: "0 \<le> \<lfloor>y\<rfloor>" "(of_int \<lfloor>y\<rfloor> :: rat) \<le> y" using assms(1) by simp_all
  then have "\<not> (of_int \<lfloor>y\<rfloor> :: rat) < 0" "\<bar>of_int \<lfloor>y\<rfloor> :: rat\<bar> < 10 ^ 14" using assms(2) by simp_all
  then show ?thesis using f(1) by (simp only: int_text.simps if_False if_True append_Nil) simp
qed

lemma denied_text:
  assumes "0 \<le> t" "t < 1" "rnd t = t" "0 < r" "r \<le> 2 ^ 64" "1 \<le> r * 2 ^ 30"
  shows "\<exists>n. 0 < n \<and> n < 2 ^ 41
    \<and> ceil_text (fmul (fdiv (fsub (Fin 1) (Fin t)) (Fin r)) (Fin 1000)) = show_nat n"
proof -
  define p where "p = rnd (1 - t)"
  have p: "2 powi - 53 \<le> p" "0 \<le> p" "p \<le> 1"
    unfolding p_def using rnd_ge_exact [OF below_one [OF assms(3,2)] rnd_powi] assms(1,2)
    by (auto intro!: rnd_nonneg rnd_le_exact)
  have s: "fsub (Fin 1) (Fin t) = Fin p"
    unfolding p_def using small_Fin [of "1 - t"] assms(1,2) by (simp add: fsub_def)
  have "p / r \<le> 2 ^ 30" using p(3) assms(4,6) by (simp add: divide_le_eq mult.commute)
  then have q: "0 \<le> rnd (p / r)" "rnd (p / r) \<le> 2 ^ 30"
    using p(2) assms(4) rnd_powi [of 30] by (auto intro!: rnd_nonneg rnd_le_exact)
  define w where "w = rnd (rnd (p / r) * 1000)"
  have w: "w \<le> 2 ^ 40" unfolding w_def using q rnd_powi [of 40] by (intro rnd_le_exact) simp_all
  have v: "fmul (fdiv (fsub (Fin 1) (Fin t)) (Fin r)) (Fin 1000) = Fin w"
    unfolding s w_def using \<open>p / r \<le> 2 ^ 30\<close> p(2) q assms(4) small_Fin [of "p / r"] small_Fin [of "rnd (p / r) * 1000"]
    by simp
  have "0 < w" using wait_pos [OF assms(4,5) p(1)] v unfolding s by simp
  define k where "k = \<lceil>w\<rceil>"
  have k: "1 \<le> k" "k \<le> 2 ^ 40" unfolding k_def using \<open>0 < w\<close> w by (simp_all add: le_ceiling_iff ceiling_le_iff)
  then have "(of_int k :: rat) \<le> of_int (2 ^ 40)" by (simp only: of_int_le_iff)
  moreover have "(1 :: rat) \<le> of_int k" using k(1) by simp
  ultimately have "int_text (Fin (of_int k)) = show_nat (nat k)" by simp
  then have "ceil_text (Fin w) = show_nat (nat k)" using \<open>0 < w\<close> by (simp add: ceil_text_def k_def del: int_text.simps)
  moreover have "0 < nat k" using k(1) by linarith
  moreover have "nat k \<le> nat (2 ^ 40)" using k(2) by (rule nat_mono)
  then have "nat k < 2 ^ 41" by simp
  ultimately show ?thesis unfolding v by blast
qed

end
