(* ===== verification/Limiter.thy ===== *)
theory Limiter
  imports Lua_Refine Config_Types
begin

text \<open>
  The rate limiter (\<open>controlplane/src/ratelimit/limiter.rs\<close>, \<open>error.rs\<close>): Redis first,
  then the in-memory buckets of survivability mode, then \<open>fail_open\<close>. The network is a
  parameter: \<open>invoke\<close> runs the script for given arguments in a state \<open>'e\<close> of the outside
  world and tells whether a reply, an error or a timeout came back. The
  \<open>MultiplexedConnection\<close> has no content the limiter reads, so \<open>rl_conn\<close> only tells
  whether there is one. \<open>serde_json::from_str\<close> on the reply is the parameter \<open>from_json\<close>.
\<close>

datatype RateLimitMode = Redis | DegradedLocal | FailOpen

fun as_header_value :: "RateLimitMode \<Rightarrow> string" where
  "as_header_value Redis = ''redis''"
| "as_header_value FailOpen = ''redis''"
| "as_header_value DegradedLocal = ''degraded-local''"

record RateDecision =
  rd_allowed :: bool
  rd_limit :: u64
  rd_remaining :: u64
  rd_retry_after_ms :: u64
  rd_mode :: RateLimitMode

datatype RateLimitError =
  RedisConnect string | RedisCommand string | LuaResponseParse string | Timeout | Unavailable

record 'c RateLimiter =
  rl_config :: RateLimitsConfig
  rl_client :: 'c
  rl_conn :: bool
  rl_fallback :: "string \<rightharpoonup> LocalBucket"

record ScriptArgs =
  sa_key :: string
  sa_now_ms :: u64
  sa_capacity :: u64
  sa_refill_rate :: f64
  sa_requested :: u64
  sa_ttl :: u64

datatype InvokeResult = Reply string | CommandError string | Elapsed

subsection \<open>Construction and probing\<close>

text \<open>\<open>open_client\<close> is \<open>redis::Client::open\<close>; \<open>connect\<close> is the connection attempt under
  the timeout. \<open>None\<close> is the panic of \<open>expect\<close> on the dummy address.\<close>

definition RateLimiter_from_config ::
  "(string \<Rightarrow> (string, 'c) result) \<Rightarrow> ('e \<Rightarrow> 'c \<Rightarrow> 'e \<times> bool) \<Rightarrow> RateLimitsConfig \<Rightarrow> 'e
    \<Rightarrow> ('e \<times> 'c RateLimiter) option" where
  "RateLimiter_from_config open_client connect config e =
     (let url = ''redis://'' @ rls_redis_address config @ ''/'' @ show_nat (unat (rls_redis_db config));
          client = (case open_client url of
             Inr c \<Rightarrow> Some c
           | Inl _ \<Rightarrow> (case open_client ''redis://invalid:0/0'' of Inr c \<Rightarrow> Some c | Inl _ \<Rightarrow> None))
      in map_option (\<lambda>client.
           let (e', connected) = connect e client
           in (e', \<lparr>rl_config = config, rl_client = client, rl_conn = connected, rl_fallback = Map.empty\<rparr>))
           client)"

text \<open>\<open>ping_conn\<close> sends \<open>PING\<close> over the connection under the timeout.\<close>

definition ping ::
  "('e \<Rightarrow> 'e \<times> bool) \<Rightarrow> ('e \<Rightarrow> 'c \<Rightarrow> 'e \<times> bool) \<Rightarrow> 'c RateLimiter \<Rightarrow> 'e
    \<Rightarrow> 'c RateLimiter \<times> 'e \<times> bool" where
  "ping ping_conn connect lm e =
     (let (e1, alive) = (if rl_conn lm then ping_conn e else (e, False)) in
      if alive then (lm, e1, True)
      else let (e2, connected) = connect e1 (rl_client lm)
           in (lm\<lparr>rl_conn := connected\<rparr>, e2, connected))"

subsection \<open>Deciding\<close>

definition try_redis ::
  "(string \<Rightarrow> (string, LuaResponse) result) \<Rightarrow> ('e \<Rightarrow> ScriptArgs \<Rightarrow> 'e \<times> InvokeResult) \<Rightarrow> u64
    \<Rightarrow> 'c RateLimiter \<Rightarrow> 'e \<Rightarrow> string \<Rightarrow> u64 \<Rightarrow> f64
    \<Rightarrow> 'c RateLimiter \<times> 'e \<times> (RateLimitError, RateDecision) result" where
  "try_redis from_json invoke now_ms lm e bucket_key capacity refill_rate =
     (if \<not> rl_conn lm then (lm, e, Inl (RedisConnect ''no active connection''))
      else
        let args = \<lparr>sa_key = bucket_key, sa_now_ms = now_ms, sa_capacity = capacity,
              sa_refill_rate = refill_rate, sa_requested = 1,
              sa_ttl = ttl_seconds capacity refill_rate\<rparr>;
            (e', outcome) = invoke e args
        in case outcome of
             Reply json_str \<Rightarrow>
               (lm, e', (case from_json json_str of
                  Inl msg \<Rightarrow> Inl (LuaResponseParse msg)
                | Inr resp \<Rightarrow> Inr \<lparr>rd_allowed = (lr_allowed resp = 1), rd_limit = capacity,
                    rd_remaining = lr_remaining_tokens resp,
                    rd_retry_after_ms = lr_retry_after_ms resp, rd_mode = Redis\<rparr>))
           | CommandError msg \<Rightarrow> (lm\<lparr>rl_conn := False\<rparr>, e', Inl (RedisCommand msg))
           | Elapsed \<Rightarrow> (lm\<lparr>rl_conn := False\<rparr>, e', Inl Timeout))"

text \<open>\<open>t_new\<close> is the clock when \<open>or_insert_with\<close> creates a bucket, \<open>t\<close> the clock in its
  \<open>refill\<close>.\<close>

definition enter_degraded ::
  "nat \<Rightarrow> nat \<Rightarrow> 'c RateLimiter \<Rightarrow> string \<Rightarrow> u64 \<Rightarrow> f64
    \<Rightarrow> 'c RateLimiter \<times> (RateLimitError, RateDecision) result" where
  "enter_degraded t_new t lm bucket_key capacity refill_rate =
     (let sm = rls_survivability_mode (rl_config lm) in
      if sm_enabled sm then
        let bucket = (case rl_fallback lm bucket_key of
               Some b \<Rightarrow> b
             | None \<Rightarrow> LocalBucket_new (f64_of_u64 (sm_fallback_capacity sm))
                 (sm_fallback_refill_rate_per_sec sm) t_new);
            (bucket', allowed, remaining, retry_after_ms) = try_consume t bucket
        in (lm\<lparr>rl_fallback := (rl_fallback lm)(bucket_key \<mapsto> bucket')\<rparr>,
            Inr \<lparr>rd_allowed = allowed, rd_limit = sm_fallback_capacity sm, rd_remaining = remaining,
              rd_retry_after_ms = retry_after_ms, rd_mode = DegradedLocal\<rparr>)
      else if rls_fail_open (rl_config lm) then
        (lm, Inr \<lparr>rd_allowed = True, rd_limit = capacity, rd_remaining = capacity,
          rd_retry_after_ms = 0, rd_mode = FailOpen\<rparr>)
      else (lm, Inl Unavailable))"

text \<open>The clock readings of one call.\<close>

record Clocks =
  ck_now_ms :: u64
  ck_new :: nat
  ck_refill :: nat

definition RateLimiter_check ::
  "(string \<Rightarrow> (string, LuaResponse) result) \<Rightarrow> ('e \<Rightarrow> ScriptArgs \<Rightarrow> 'e \<times> InvokeResult) \<Rightarrow> Clocks
    \<Rightarrow> 'c RateLimiter \<Rightarrow> 'e \<Rightarrow> string \<Rightarrow> u64 \<Rightarrow> f64
    \<Rightarrow> 'c RateLimiter \<times> 'e \<times> (RateLimitError, RateDecision) result" where
  "RateLimiter_check from_json invoke ck lm e bucket_key capacity refill_rate =
     (case try_redis from_json invoke (ck_now_ms ck) lm e bucket_key capacity refill_rate of
        (lm', e', Inr decision) \<Rightarrow> (lm', e', Inr decision)
      | (lm', e', Inl _) \<Rightarrow>
          (let (lm'', r) = enter_degraded (ck_new ck) (ck_refill ck) lm' bucket_key capacity refill_rate
           in (lm'', e', r)))"

subsection \<open>Branches\<close>

lemma enter_degraded_disabled:
  "\<not> sm_enabled (rls_survivability_mode (rl_config lm)) \<Longrightarrow>
     enter_degraded t_new t lm key capacity rate =
       (lm, if rls_fail_open (rl_config lm)
             then Inr \<lparr>rd_allowed = True, rd_limit = capacity, rd_remaining = capacity,
               rd_retry_after_ms = 0, rd_mode = FailOpen\<rparr>
             else Inl Unavailable)"
  by (simp add: enter_degraded_def Let_def)

lemma try_redis_offline:
  "\<not> rl_conn lm \<Longrightarrow> try_redis from_json invoke now_ms lm e key capacity rate
     = (lm, e, Inl (RedisConnect ''no active connection''))"
  by (simp add: try_redis_def)

lemma try_redis_config:
  "try_redis from_json invoke now_ms lm e key capacity rate = (lm', e', r) \<Longrightarrow>
     rl_config lm' = rl_config lm \<and> rl_fallback lm' = rl_fallback lm \<and> rl_client lm' = rl_client lm"
  by (auto simp: try_redis_def Let_def split: if_splits prod.splits InvokeResult.splits)

lemma try_redis_Inr:
  assumes "try_redis from_json invoke now_ms lm e key capacity rate = (lm', e', Inr d)"
  shows "rl_conn lm \<and> lm' = lm \<and> (\<exists>json resp.
    invoke e \<lparr>sa_key = key, sa_now_ms = now_ms, sa_capacity = capacity, sa_refill_rate = rate,
      sa_requested = 1, sa_ttl = ttl_seconds capacity rate\<rparr> = (e', Reply json)
    \<and> from_json json = Inr resp
    \<and> d = \<lparr>rd_allowed = (lr_allowed resp = 1), rd_limit = capacity,
        rd_remaining = lr_remaining_tokens resp, rd_retry_after_ms = lr_retry_after_ms resp,
        rd_mode = Redis\<rparr>)"
  using assms by (auto simp: try_redis_def Let_def split: if_splits prod.splits InvokeResult.splits sum.splits)

end
