(* ===== verification/Limiter_Correct.thy ===== *)
theory Limiter_Correct
  imports Limiter
begin

text \<open>
  The properties of the rate limiter: what each backend decides, that it never admits on
  its own when it has to fail closed, and the bounds on what a run admits through the
  in-memory buckets and through the script in Redis.
\<close>

subsection \<open>Runs\<close>

text \<open>An event is one call of \<open>check\<close>: the clocks, the key, and the limits of the route.\<close>

type_synonym event = "Clocks \<times> string \<times> u64 \<times> f64"

definition ev_key :: "event \<Rightarrow> string" where "ev_key ev = fst (snd ev)"

fun check_run ::
  "(string \<Rightarrow> (string, LuaResponse) result) \<Rightarrow> ('e \<Rightarrow> ScriptArgs \<Rightarrow> 'e \<times> InvokeResult) \<Rightarrow> event list
    \<Rightarrow> 'c RateLimiter \<Rightarrow> 'e \<Rightarrow> (RateLimitError, RateDecision) result list" where
  "check_run from_json invoke [] lm e = []"
| "check_run from_json invoke ((ck, key, capacity, rate) # evs) lm e =
     (case RateLimiter_check from_json invoke ck lm e key capacity rate of
        (lm', e', r) \<Rightarrow> r # check_run from_json invoke evs lm' e')"

fun admits :: "(RateLimitError, RateDecision) result \<Rightarrow> bool" where
  "admits (Inr d) = rd_allowed d"
| "admits (Inl _) = False"

definition admitted_for :: "string \<Rightarrow> event list \<Rightarrow> (RateLimitError, RateDecision) result list \<Rightarrow> nat" where
  "admitted_for k evs rs = length (filter (\<lambda>(ev, r). ev_key ev = k \<and> admits r) (zip evs rs))"

definition events_for :: "string \<Rightarrow> event list \<Rightarrow> event list" where
  "events_for k evs = filter (\<lambda>ev. ev_key ev = k) evs"

lemma admitted_for_Cons:
  "admitted_for k (ev # evs) (r # rs) = of_bool (ev_key ev = k \<and> admits r) + admitted_for k evs rs"
  by (simp add: admitted_for_def)

lemma admitted_for_Nil [simp]: "admitted_for k [] rs = 0"
  by (simp add: admitted_for_def)

lemma events_for_simps [simp]:
  "events_for k [] = []"
  "events_for k (ev # evs) = (if ev_key ev = k then ev # events_for k evs else events_for k evs)"
  by (simp_all add: events_for_def)

subsection \<open>Survivability mode\<close>

definition fallback_bucket :: "'c RateLimiter \<Rightarrow> nat \<Rightarrow> LocalBucket" where
  "fallback_bucket lm t_new =
     (let sm = rls_survivability_mode (rl_config lm)
      in LocalBucket_new (f64_of_u64 (sm_fallback_capacity sm)) (sm_fallback_refill_rate_per_sec sm) t_new)"

lemma check_offline:
  assumes "\<not> rl_conn lm" "sm_enabled (rls_survivability_mode (rl_config lm))"
    and "b = (case rl_fallback lm key of Some b \<Rightarrow> b | None \<Rightarrow> fallback_bucket lm (ck_new ck))"
  shows "\<exists>r. RateLimiter_check from_json invoke ck lm e key capacity rate =
      (lm\<lparr>rl_fallback := (rl_fallback lm)(key \<mapsto> fst (lb_step (ck_refill ck) b))\<rparr>, e, r)
    \<and> admits r = snd (lb_step (ck_refill ck) b)"
proof -
  obtain b' ok rem retry where tc: "try_consume (ck_refill ck) b = (b', ok, rem, retry)"
    by (cases "try_consume (ck_refill ck) b") auto
  then have st: "lb_step (ck_refill ck) b = (b', ok)" by (simp add: lb_step_def)
  have b: "b = (case rl_fallback lm key of Some b \<Rightarrow> b
      | None \<Rightarrow> LocalBucket_new (f64_of_u64 (sm_fallback_capacity (rls_survivability_mode (rl_config lm))))
          (sm_fallback_refill_rate_per_sec (rls_survivability_mode (rl_config lm))) (ck_new ck))"
    by (simp only: assms(3) fallback_bucket_def Let_def)
  show ?thesis
    using assms(1,2) by (simp add: RateLimiter_check_def try_redis_offline enter_degraded_def Let_def st
        b [symmetric] tc)
qed

lemma degraded_run_known:
  assumes "\<not> rl_conn lm" "sm_enabled (rls_survivability_mode (rl_config lm))" "rl_fallback lm k = Some b"
  shows "admitted_for k evs (check_run from_json invoke evs lm e)
    = snd (serve lb_step (map (\<lambda>ev. ck_refill (fst ev)) (events_for k evs)) b)"
  using assms
proof (induction evs arbitrary: lm e b)
  case (Cons ev evs)
  obtain ck key cap rate where ev: "ev = (ck, key, cap, rate)" by (cases ev)
  let ?b = "case rl_fallback lm key of Some b \<Rightarrow> b | None \<Rightarrow> fallback_bucket lm (ck_new ck)"
  obtain r where r: "RateLimiter_check from_json invoke ck lm e key cap rate =
      (lm\<lparr>rl_fallback := (rl_fallback lm)(key \<mapsto> fst (lb_step (ck_refill ck) ?b))\<rparr>, e, r)"
    "admits r = snd (lb_step (ck_refill ck) ?b)"
    using check_offline [OF Cons.prems(1,2) refl, where from_json = from_json and invoke = invoke and ck = ck
        and e = e and key = key and capacity = cap and rate = rate] by auto
  let ?lm = "lm\<lparr>rl_fallback := (rl_fallback lm)(key \<mapsto> fst (lb_step (ck_refill ck) ?b))\<rparr>"
  show ?case
  proof (cases "key = k")
    case True
    with Cons.prems(3) have b: "?b = b" by simp
    have "admitted_for k evs (check_run from_json invoke evs ?lm e)
        = snd (serve lb_step (map (\<lambda>ev. ck_refill (fst ev)) (events_for k evs)) (fst (lb_step (ck_refill ck) b)))"
      using Cons.prems True b by (intro Cons.IH) simp_all
    with True r b show ?thesis
      by (simp add: ev admitted_for_Cons ev_key_def serve_Cons del: serve.simps)
  next
    case False
    have "admitted_for k evs (check_run from_json invoke evs ?lm e)
        = snd (serve lb_step (map (\<lambda>ev. ck_refill (fst ev)) (events_for k evs)) b)"
      using Cons.prems False by (intro Cons.IH) simp_all
    with False r show ?thesis by (simp add: ev admitted_for_Cons ev_key_def)
  qed
qed simp

lemma degraded_run_fresh:
  assumes "\<not> rl_conn lm" "sm_enabled (rls_survivability_mode (rl_config lm))" "rl_fallback lm k = None"
    and "events_for k evs = ev0 # rest"
  shows "admitted_for k evs (check_run from_json invoke evs lm e)
    = snd (serve lb_step (map (\<lambda>ev. ck_refill (fst ev)) (events_for k evs)) (fallback_bucket lm (ck_new (fst ev0))))"
  using assms
proof (induction evs arbitrary: lm e)
  case (Cons ev evs)
  obtain ck key cap rate where ev: "ev = (ck, key, cap, rate)" by (cases ev)
  let ?b = "case rl_fallback lm key of Some b \<Rightarrow> b | None \<Rightarrow> fallback_bucket lm (ck_new ck)"
  obtain r where r: "RateLimiter_check from_json invoke ck lm e key cap rate =
      (lm\<lparr>rl_fallback := (rl_fallback lm)(key \<mapsto> fst (lb_step (ck_refill ck) ?b))\<rparr>, e, r)"
    "admits r = snd (lb_step (ck_refill ck) ?b)"
    using check_offline [OF Cons.prems(1,2) refl, where from_json = from_json and invoke = invoke and ck = ck
        and e = e and key = key and capacity = cap and rate = rate] by auto
  let ?lm = "lm\<lparr>rl_fallback := (rl_fallback lm)(key \<mapsto> fst (lb_step (ck_refill ck) ?b))\<rparr>"
  show ?case
  proof (cases "key = k")
    case True
    with Cons.prems(3,4) ev have b: "?b = fallback_bucket lm (ck_new ck)" and e0: "ev0 = ev"
      by (simp_all add: ev_key_def)
    have "admitted_for k evs (check_run from_json invoke evs ?lm e)
        = snd (serve lb_step (map (\<lambda>ev. ck_refill (fst ev)) (events_for k evs)) (fst (lb_step (ck_refill ck) ?b)))"
      using Cons.prems True by (intro degraded_run_known) simp_all
    with True r b e0 show ?thesis
      by (simp add: ev admitted_for_Cons ev_key_def serve_Cons del: serve.simps)
  next
    case False
    have fb: "fallback_bucket ?lm t = fallback_bucket lm t" for t by (simp add: fallback_bucket_def)
    have "admitted_for k evs (check_run from_json invoke evs ?lm e)
        = snd (serve lb_step (map (\<lambda>ev. ck_refill (fst ev)) (events_for k evs)) (fallback_bucket ?lm (ck_new (fst ev0))))"
      using Cons.prems False ev by (intro Cons.IH) (simp_all add: ev_key_def)
    with False r fb show ?thesis by (simp add: ev admitted_for_Cons ev_key_def)
  qed
qed simp

subsection \<open>The script behind the limiter\<close>

text \<open>An invocation that reaches Redis: the script runs on the database, with the server's
  clock equal to the one of the gateway.\<close>

definition script_invoke :: "'db redis \<Rightarrow> 'db \<Rightarrow> ScriptArgs \<Rightarrow> 'db \<times> InvokeResult" where
  "script_invoke R db a =
     (let (db', r) = LUA_SCRIPT R (unat (sa_now_ms a)) (sa_key a) (f64_of_u64 (sa_now_ms a))
            (f64_of_u64 (sa_capacity a)) (sa_refill_rate a) (f64_of_u64 (sa_requested a))
            (f64_of_u64 (sa_ttl a)) db
      in (db', case r of Inr json \<Rightarrow> Reply json | Inl msg \<Rightarrow> CommandError msg))"

text \<open>What serde documents: an object with the three integer fields in range is read back.\<close>

definition lua_json_spec :: "(string \<Rightarrow> (string, LuaResponse) result) \<Rightarrow> bool" where
  "lua_json_spec from_json \<longleftrightarrow> (\<forall>n < 2 ^ 64.
     from_json (allowed_json (show_nat n))
       = Inr \<lparr>lr_allowed = 1, lr_remaining_tokens = of_nat n, lr_retry_after_ms = 0\<rparr>
     \<and> from_json (denied_json (show_nat n))
       = Inr \<lparr>lr_allowed = 0, lr_remaining_tokens = 0, lr_retry_after_ms = of_nat n\<rparr>)"

text \<open>The limits under which the script's arithmetic stays in range.\<close>

definition redis_limits :: "u64 \<Rightarrow> rat \<Rightarrow> bool" where
  "redis_limits cap r \<longleftrightarrow> 1 \<le> unat cap \<and> unat cap < 10 ^ 13 \<and> 0 < r \<and> r \<le> 2 ^ 64
     \<and> of_nat (unat cap) \<le> r * 2 ^ 30"

definition redis_bucket :: "u64 \<Rightarrow> rat \<Rightarrow> RedisBucket \<Rightarrow> bool" where
  "redis_bucket cap r b \<longleftrightarrow> rb_inv (of_nat (unat cap)) r (unat (ttl_seconds cap (Fin r))) b"

lemma redis_limits_ttl:
  assumes "redis_limits cap r"
  shows "of_nat (unat cap) \<le> r * of_nat (unat (ttl_seconds cap (Fin r)))"
    "0 < unat (ttl_seconds cap (Fin r))" "unat (ttl_seconds cap (Fin r)) < 2 ^ 32"
proof -
  have a: "1 \<le> unat cap" "unat cap < 10 ^ 13" "0 < r" "r \<le> 2 ^ 64" "of_nat (unat cap) \<le> r * 2 ^ 30"
    using assms unfolding redis_limits_def by blast+
  have "unat cap < 2 ^ 53" using a(2) by simp
  note t = ttl_seconds_enough [OF a(1) this a(3-5)]
  show "of_nat (unat cap) \<le> r * of_nat (unat (ttl_seconds cap (Fin r)))"
    "0 < unat (ttl_seconds cap (Fin r))" "unat (ttl_seconds cap (Fin r)) < 2 ^ 32"
    by (rule t)+
qed

lemma redis_bucket_fresh:
  assumes "redis_limits cap r"
  shows "redis_bucket cap r \<lparr>rb_tokens = of_nat (unat cap), rb_last = t\<rparr>"
proof -
  have c: "1 \<le> unat cap" "unat cap < 10 ^ 13" "0 < r" "r \<le> 2 ^ 64" using assms by (simp_all add: redis_limits_def)
  have "rnd (of_nat (unat cap)) = of_nat (unat cap)" using c(2) by (intro rnd_of_nat) simp
  moreover have "of_nat 1 \<le> (of_nat (unat cap) :: rat)" "(of_nat (unat cap) :: rat) \<le> of_nat (2 ^ 64)"
    using c(1,2) by (simp_all only: of_nat_le_iff) simp
  ultimately show ?thesis
    unfolding redis_bucket_def rb_inv_def RedisBucket.simps
    using c(3,4) redis_limits_ttl(1) [OF assms] by (simp only: of_nat_1) simp
qed

lemma rb_refilled_exact: "rnd c = c \<Longrightarrow> rnd (rb_refilled c r ttl now b) = rb_refilled c r ttl now b"
  by (simp add: rb_refilled_def Let_def min_def)

lemma json_reply:
  assumes "lua_json_spec from_json" "redis_limits cap r" "redis_bucket cap r b" "rb_last b \<le> now"
    and "new = rb_refilled (of_nat (unat cap)) r (unat (ttl_seconds cap (Fin r))) now b"
  shows "\<exists>resp. from_json (if 1 \<le> new then allowed_json (int_text (Fin (of_int \<lfloor>rnd (new - 1)\<rfloor>)))
      else denied_json (ceil_text (fmul (fdiv (fsub (Fin 1) (Fin new)) (Fin r)) (Fin 1000)))) = Inr resp
    \<and> (lr_allowed resp = 1 \<longleftrightarrow> 1 \<le> new)"
proof -
  have lim: "unat cap < 10 ^ 13" "0 < r" "r \<le> 2 ^ 64" "1 \<le> unat cap" "of_nat (unat cap) \<le> r * 2 ^ 30"
    using assms(2) by (simp_all add: redis_limits_def)
  have inv: "rb_inv (of_nat (unat cap)) r (unat (ttl_seconds cap (Fin r))) b"
    using assms(3) by (simp add: redis_bucket_def)
  note new = rb_refilled_bounds(1,2) [OF inv assms(4), folded assms(5)]
  have c: "(of_nat (unat cap) :: rat) \<le> of_nat (10 ^ 13)" using lim(1) by (simp only: of_nat_le_iff)
  have rc: "rnd (of_nat (unat cap)) = of_nat (unat cap)" using lim(1) by (intro rnd_of_nat) simp
  show ?thesis
  proof (cases "1 \<le> new")
    case True
    define y where "y = rnd (new - 1)"
    have y: "0 \<le> y" "y \<le> of_nat (unat cap)"
      unfolding y_def using True new(2) rc by (auto intro!: rnd_nonneg rnd_le_exact)
    then have yb: "y < 10 ^ 14" using c by simp
    then have "\<lfloor>y\<rfloor> < 10 ^ 14" by (simp add: floor_less_iff)
    then have "nat \<lfloor>y\<rfloor> < 10 ^ 14" using y(1) by (simp add: nat_less_iff)
    then have "nat \<lfloor>y\<rfloor> < 2 ^ 64" by (rule less_trans) simp
    with assms(1) True allowed_text [OF y(1) yb] show ?thesis
      unfolding y_def lua_json_spec_def by simp
  next
    case False
    have "1 \<le> r * 2 ^ 30"
    proof -
      have "of_nat 1 \<le> (of_nat (unat cap) :: rat)" using lim(4) by (simp only: of_nat_le_iff)
      from order.trans [OF this lim(5)] show ?thesis by (simp only: of_nat_1)
    qed
    moreover have "rnd new = new" unfolding assms(5) using rc by (rule rb_refilled_exact)
    ultimately obtain n where n: "n < 2 ^ 41"
      "ceil_text (fmul (fdiv (fsub (Fin 1) (Fin new)) (Fin r)) (Fin 1000)) = show_nat n"
      using denied_text [of new r] new(1) False lim(2,3) by auto
    have "n < 2 ^ 64" using n(1) by (rule less_trans) simp
    with assms(1) False n(2) show ?thesis unfolding lua_json_spec_def by simp
  qed
qed

lemma f64_of_small: "unat (w :: u64) < 10 ^ 14 \<Longrightarrow> f64_of_u64 w = Fin (of_nat (unat w))"
  unfolding f64_of_u64_def by (rule exact_ms)

lemma check_redis_step:
  assumes "redis_spec R" "lua_json_spec from_json" "rl_conn lm" "redis_limits cap r"
    and "redis_bucket cap r b"
    and "bucket_rel R key (of_nat (unat cap)) (unat (ttl_seconds cap (Fin r))) db b"
    and "rb_last b \<le> unat (ck_now_ms ck)" "unat (ck_now_ms ck) < 10 ^ 14"
    and "st = rb_step (of_nat (unat cap)) r (unat (ttl_seconds cap (Fin r))) (unat (ck_now_ms ck)) b"
  shows "\<exists>db' d. RateLimiter_check from_json (script_invoke R) ck lm db key cap (Fin r) = (lm, db', Inr d)
    \<and> rd_mode d = Redis \<and> rd_allowed d = snd st
    \<and> bucket_rel R key (of_nat (unat cap)) (unat (ttl_seconds cap (Fin r))) db' (fst st)"
proof -
  define new where "new = rb_refilled (of_nat (unat cap)) r (unat (ttl_seconds cap (Fin r))) (unat (ck_now_ms ck)) b"
  note ttl = redis_limits_ttl [OF assms(4)]
  have inv: "rb_inv (of_nat (unat cap)) r (unat (ttl_seconds cap (Fin r))) b"
    using assms(5) by (simp add: redis_bucket_def)
  obtain db' where s: "LUA_SCRIPT R (unat (ck_now_ms ck)) key (Fin (of_nat (unat (ck_now_ms ck))))
      (Fin (of_nat (unat cap))) (Fin r) (Fin 1) (Fin (of_nat (unat (ttl_seconds cap (Fin r))))) db
      = (db', Inr (if 1 \<le> new then allowed_json (int_text (Fin (of_int \<lfloor>rnd (new - 1)\<rfloor>)))
           else denied_json (ceil_text (fmul (fdiv (fsub (Fin 1) (Fin new)) (Fin r)) (Fin 1000)))))"
    and rel: "bucket_rel R key (of_nat (unat cap)) (unat (ttl_seconds cap (Fin r))) db' (fst st)"
    using script_step [OF assms(1) inv assms(6,7,8) ttl(2,3) new_def] assms(9) by auto
  obtain resp where j: "from_json (if 1 \<le> new then allowed_json (int_text (Fin (of_int \<lfloor>rnd (new - 1)\<rfloor>)))
      else denied_json (ceil_text (fmul (fdiv (fsub (Fin 1) (Fin new)) (Fin r)) (Fin 1000)))) = Inr resp"
    "lr_allowed resp = 1 \<longleftrightarrow> 1 \<le> new"
    using json_reply [OF assms(2,4,5,7) new_def] by blast
  have "unat cap < 10 ^ 14" "unat (ttl_seconds cap (Fin r)) < 10 ^ 14"
    using assms(4) ttl(3) by (simp_all add: redis_limits_def)
  then have f: "f64_of_u64 cap = Fin (of_nat (unat cap))"
    "f64_of_u64 (ttl_seconds cap (Fin r)) = Fin (of_nat (unat (ttl_seconds cap (Fin r))))"
    "f64_of_u64 (ck_now_ms ck) = Fin (of_nat (unat (ck_now_ms ck)))" "f64_of_u64 1 = Fin 1"
    using f64_of_small [of cap] f64_of_small [of "ttl_seconds cap (Fin r)"]
      f64_of_small [of "ck_now_ms ck"] f64_of_small [of 1] assms(8) by simp_all
  have "snd st = (1 \<le> new)" 
    by (cases "1 \<le> new") (simp_all only: assms(9) rb_step_def new_def [symmetric] Let_def if_True if_False snd_conv)
  with s j rel assms(3) f show ?thesis
    by (simp add: RateLimiter_check_def try_redis_def script_invoke_def Let_def)
qed

lemma redis_run:
  assumes "redis_spec R" "lua_json_spec from_json" "rl_conn lm" "redis_limits cap r" "redis_bucket cap r b"
    and "bucket_rel R key (of_nat (unat cap)) (unat (ttl_seconds cap (Fin r))) db b"
    and "sorted (rb_last b # map (unat \<circ> ck_now_ms) cks)" "\<forall>ck \<in> set cks. unat (ck_now_ms ck) < 10 ^ 14"
  shows "list_all (\<lambda>x. \<exists>d. x = Inr d \<and> rd_mode d = Redis)
      (check_run from_json (script_invoke R) (map (\<lambda>ck. (ck, key, cap, Fin r)) cks) lm db)
    \<and> length (filter admits (check_run from_json (script_invoke R) (map (\<lambda>ck. (ck, key, cap, Fin r)) cks) lm db))
      = snd (serve (rb_step (of_nat (unat cap)) r (unat (ttl_seconds cap (Fin r)))) (map (unat \<circ> ck_now_ms) cks) b)"
  using assms(5-8)
proof (induction cks arbitrary: b db)
  case (Cons ck cks)
  let ?step = "rb_step (of_nat (unat cap)) r (unat (ttl_seconds cap (Fin r)))"
  have now: "rb_last b \<le> unat (ck_now_ms ck)" "unat (ck_now_ms ck) < 10 ^ 14" using Cons.prems(3,4) by simp_all
  from check_redis_step [OF assms(1-4) Cons.prems(1,2) now refl]
  obtain db' d where c: "RateLimiter_check from_json (script_invoke R) ck lm db key cap (Fin r) = (lm, db', Inr d)"
    and d: "rd_mode d = Redis" "rd_allowed d = snd (?step (unat (ck_now_ms ck)) b)"
    and rel: "bucket_rel R key (of_nat (unat cap)) (unat (ttl_seconds cap (Fin r))) db' (fst (?step (unat (ck_now_ms ck)) b))"
    by blast
  have inv: "redis_bucket cap r (fst (?step (unat (ck_now_ms ck)) b))"
    using Cons.prems(1) unfolding redis_bucket_def by (rule rb.step_inv)
  have "rb_last (fst (?step (unat (ck_now_ms ck)) b)) \<le> unat (ck_now_ms ck)"
    using Cons.prems(1) now(1) unfolding redis_bucket_def by (rule rb.step_clock)
  then have "sorted (rb_last (fst (?step (unat (ck_now_ms ck)) b)) # map (unat \<circ> ck_now_ms) cks)"
    using Cons.prems(3) unfolding comp_def by auto
  from Cons.IH [OF inv rel this] Cons.prems(4) c d show ?case
    by (simp add: serve_Cons del: serve.simps)
qed simp

subsection \<open>A concrete Redis and reader\<close>

text \<open>Instances that satisfy the hypotheses on Redis and serde, for the witnesses.\<close>

type_synonym map_db = "string \<Rightarrow> ((string \<times> f64) list \<times> nat option) option"

definition live :: "nat \<Rightarrow> nat option \<Rightarrow> bool" where
  "live srv d = (case d of None \<Rightarrow> True | Some t \<Rightarrow> srv < t)"

definition map_redis :: "map_db redis" where
  "map_redis =
     \<lparr>hget = \<lambda>db srv key f. (case db key of
        Some (fs, d) \<Rightarrow> if live srv d then map_of fs f else None | None \<Rightarrow> None),
      hset = \<lambda>db srv key fs. db(key \<mapsto> (case db key of
        Some (old, d) \<Rightarrow> if live srv d then (fs @ old, d) else (fs, None) | None \<Rightarrow> (fs, None))),
      expire = \<lambda>db srv key ttl. (case ttl of
        Fin x \<Rightarrow> Inr (db(key := map_option (\<lambda>(fs, _). (fs, Some (srv + 1000 * nat \<lfloor>x\<rfloor>))) (db key)))
      | _ \<Rightarrow> Inl ''value is not an integer or out of range'')\<rparr>"

lemma map_redis_spec: "redis_spec map_redis"
  by (auto simp: redis_spec_def map_redis_def live_def map_add_def dest: weak_map_of_SomeI split: option.splits)

definition read_json :: "string \<Rightarrow> (string, LuaResponse) result" where
  "read_json s =
     (let p1 = take (length (allowed_json []) - 20) (allowed_json []);
          p0 = take (length (denied_json []) - 1) (denied_json []) in
      case strip_prefix p1 s of
        Some t \<Rightarrow> Inr \<lparr>lr_allowed = 1, lr_remaining_tokens = of_nat (decimal_value (takeWhile is_digit t)),
          lr_retry_after_ms = 0\<rparr>
      | None \<Rightarrow> (case strip_prefix p0 s of
          Some t \<Rightarrow> Inr \<lparr>lr_allowed = 0, lr_remaining_tokens = 0,
            lr_retry_after_ms = of_nat (decimal_value (takeWhile is_digit t))\<rparr>
        | None \<Rightarrow> Inl ''expected value''))"

lemma takeWhile_show_nat: "\<not> is_digit c \<Longrightarrow> takeWhile is_digit (show_nat n @ c # rest) = show_nat n"
  using show_nat_digits [of n] by (simp add: takeWhile_append2 list_all_iff)

lemma read_json_spec: "lua_json_spec read_json"
proof -
  have "\<not> is_digit CHR '',''" "\<not> is_digit CHR ''}''" by (simp_all add: is_digit_def)
  then show ?thesis
    by (simp add: lua_json_spec_def read_json_def allowed_json_def denied_json_def strip_prefix_def
        takeWhile_show_nat)
qed

lemma degraded_bound:
  assumes "\<not> rl_conn lm" "rl_fallback lm k = None"
    and "rls_survivability_mode (rl_config lm) = \<lparr>sm_enabled = True, sm_fallback_capacity = cap,
      sm_fallback_refill_rate_per_sec = Fin r\<rparr>"
    and "unat cap < 2 ^ 53" "0 \<le> r" "r \<le> 2 ^ 64"
    and "events_for k evs = ev0 # rest" "t0 = ck_new (fst ev0)"
    and "sorted (t0 # map (\<lambda>ev. ck_refill (fst ev)) (events_for k evs) @ [T])" "T < 2 ^ 64 * 10 ^ 9"
  shows "of_nat (admitted_for k evs (check_run from_json invoke evs lm e))
    \<le> of_nat (unat cap) + r * (1 + 5 * u_rnd) / 10 ^ 9 * (of_nat T - of_nat t0)
      + of_nat (length (events_for k evs)) * ((2 * of_nat (unat cap) + 1) * u_rnd)"
proof -
  let ?b = "LocalBucket_new (f64_of_u64 cap) (Fin r) t0"
  have "fallback_bucket lm t0 = ?b" by (simp add: fallback_bucket_def assms(3))
  then have n: "admitted_for k evs (check_run from_json invoke evs lm e)
      = snd (serve lb_step (map (\<lambda>ev. ck_refill (fst ev)) (events_for k evs)) ?b)"
    using degraded_run_fresh [OF assms(1) _ assms(2,7)] assms(3,8) by simp
  have b: "lb_last_refill ?b = t0" "lb_level ?b = of_nat (unat cap)"
    by (simp_all only: LocalBucket_new_def lb_level_def f64_of_u64_exact(1) [OF assms(4)]
        LocalBucket.simps f64.case)
  have "0 \<le> r * (1 + 5 * u_rnd) / 10 ^ 9" using assms(5) by (simp add: add_nonneg_nonneg)
  then show ?thesis
    unfolding n using lb.admitted_bound [OF new_lb_inv [OF assms(4-6), of t0]] assms(9,10) b
    by (metis length_map)
qed

subsection \<open>Properties\<close>

text \<open>C25. Which backend decides: a decision marked \<open>Redis\<close> is the script's reply; one
  marked \<open>DegradedLocal\<close> comes from the fallback bucket and is only made in
  survivability mode; one marked \<open>FailOpen\<close> admits, and is only made with
  \<open>fail_open\<close> and without survivability mode; the only error is \<open>Unavailable\<close>, when
  neither is configured and Redis gave no usable reply.\<close>

theorem rate_limiter_check_spec:
  assumes "RateLimiter_check from_json invoke ck lm e key capacity rate = (lm', e', res)"
    and "sm = rls_survivability_mode (rl_config lm)"
    and "reply = (\<lambda>resp. rl_conn lm \<and> (\<exists>json. snd (invoke e \<lparr>sa_key = key, sa_now_ms = ck_now_ms ck,
      sa_capacity = capacity, sa_refill_rate = rate, sa_requested = 1, sa_ttl = ttl_seconds capacity rate\<rparr>)
      = Reply json \<and> from_json json = Inr resp))"
  shows "(case res of
      Inl err \<Rightarrow> err = Unavailable \<and> \<not> sm_enabled sm \<and> \<not> rls_fail_open (rl_config lm)
        \<and> (\<forall>resp. \<not> reply resp) \<and> rl_fallback lm' = rl_fallback lm
    | Inr d \<Rightarrow> (case rd_mode d of
        Redis \<Rightarrow> lm' = lm \<and> rd_limit d = capacity \<and> (\<exists>resp. reply resp
          \<and> rd_allowed d = (lr_allowed resp = 1) \<and> rd_remaining d = lr_remaining_tokens resp
          \<and> rd_retry_after_ms d = lr_retry_after_ms resp)
      | DegradedLocal \<Rightarrow> sm_enabled sm \<and> rd_limit d = sm_fallback_capacity sm \<and> (\<forall>resp. \<not> reply resp)
      | FailOpen \<Rightarrow> \<not> sm_enabled sm \<and> rls_fail_open (rl_config lm) \<and> rd_allowed d
          \<and> (\<forall>resp. \<not> reply resp)))"
proof -
  obtain lm1 e1 r where t: "try_redis from_json invoke (ck_now_ms ck) lm e key capacity rate = (lm1, e1, r)"
    by (metis prod_cases3)
  have reply: "(\<exists>resp. reply resp) \<longleftrightarrow> (\<exists>d. r = Inr d)"
    using t unfolding assms(3) by (auto simp: try_redis_def Let_def split: if_splits prod.splits
        InvokeResult.splits sum.splits)
  show ?thesis
  proof (cases r)
    case (Inr d)
    with t assms(1) have "lm' = lm1" "res = Inr d" by (simp_all add: RateLimiter_check_def)
    with t Inr show ?thesis by (auto dest!: try_redis_Inr simp: assms(3))
  next
    case (Inl err)
    then have no: "\<forall>resp. \<not> reply resp" using reply by auto
    have c: "rl_config lm1 = rl_config lm" "rl_fallback lm1 = rl_fallback lm" using try_redis_config [OF t] by simp_all
    from Inl t assms(1) have "(lm', res) = enter_degraded (ck_new ck) (ck_refill ck) lm1 key capacity rate"
      by (auto simp: RateLimiter_check_def split: prod.splits)
    with c no show ?thesis
      by (auto simp: enter_degraded_def Let_def assms(2) split: if_splits prod.splits)
  qed
qed

definition sample_limiter :: "bool \<Rightarrow> bool \<Rightarrow> bool \<Rightarrow> unit RateLimiter" where
  "sample_limiter conn surv fail_open =
     \<lparr>rl_config = \<lparr>rls_redis_address = ''redis:6379'', rls_redis_db = 0, rls_redis_key_prefix = ''rl'',
        rls_default_timeout_ms = 50, rls_fail_open = fail_open,
        rls_survivability_mode = \<lparr>sm_enabled = surv, sm_fallback_capacity = 2,
          sm_fallback_refill_rate_per_sec = Fin 1\<rparr>\<rparr>,
      rl_client = (), rl_conn = conn, rl_fallback = Map.empty\<rparr>"

definition sample_clocks :: "u64 \<Rightarrow> nat \<Rightarrow> Clocks" where
  "sample_clocks ms t = \<lparr>ck_now_ms = ms, ck_new = t, ck_refill = t\<rparr>"

theorem rate_limiter_check_spec_witness:
  "\<exists>lm' e' d. RateLimiter_check read_json (\<lambda>e _. (e, Elapsed)) (sample_clocks 0 0) (sample_limiter True False True) ()
      ''k'' 5 (Fin 1) = (lm', e', Inr d) \<and> rd_mode d = FailOpen \<and> rd_allowed d"
proof -
  let ?lm = "sample_limiter True False True"
  have c: "RateLimiter_check read_json (\<lambda>e _. (e, Elapsed)) (sample_clocks 0 0) ?lm () ''k'' 5 (Fin 1)
      = (?lm\<lparr>rl_conn := False\<rparr>, (), Inr \<lparr>rd_allowed = True, rd_limit = 5, rd_remaining = 5,
          rd_retry_after_ms = 0, rd_mode = FailOpen\<rparr>)"
    by (simp add: RateLimiter_check_def try_redis_def enter_degraded_def sample_limiter_def Let_def)
  from rate_limiter_check_spec [OF this refl refl] c show ?thesis by auto
qed



text \<open>Admission bound in survivability mode: with Redis unreachable, whatever calls for
  other keys are interleaved, the calls for a key \<open>k\<close> are admitted at most
  \<open>fallback_capacity + rate * time\<close> times, up to the rounding of the bucket.\<close>

theorem degraded_admission_bound:
  assumes "\<not> rl_conn lm" "rl_fallback lm k = None"
    and "rls_survivability_mode (rl_config lm) = \<lparr>sm_enabled = True, sm_fallback_capacity = cap,
      sm_fallback_refill_rate_per_sec = Fin r\<rparr>"
    and "unat cap < 2 ^ 53" "0 \<le> r" "r \<le> 2 ^ 64"
    and "events_for k evs = ev0 # rest" "t0 = ck_new (fst ev0)"
    and "sorted (t0 # map (\<lambda>ev. ck_refill (fst ev)) (events_for k evs) @ [T])" "T < 2 ^ 64 * 10 ^ 9"
  shows "of_nat (admitted_for k evs (check_run from_json invoke evs lm e))
    \<le> of_nat (unat cap) + r * (1 + 5 * u_rnd) / 10 ^ 9 * (of_nat T - of_nat t0)
      + of_nat (length (events_for k evs)) * ((2 * of_nat (unat cap) + 1) * u_rnd)"
  using assms by (rule degraded_bound)

theorem degraded_admission_bound_witness:
  "of_nat (admitted_for ''k'' [(sample_clocks 0 5, ''k'', 9, Fin 1), (sample_clocks 0 7, ''x'', 9, Fin 1)]
      (check_run read_json (\<lambda>e _. (e, Elapsed)) [(sample_clocks 0 5, ''k'', 9, Fin 1), (sample_clocks 0 7, ''x'', 9, Fin 1)]
        (sample_limiter False True False) ()))
    \<le> of_nat (unat (2 :: u64)) + 1 * (1 + 5 * u_rnd) / 10 ^ 9 * (of_nat 8 - of_nat 5)
      + of_nat (length (events_for ''k'' [(sample_clocks 0 5, ''k'', 9, Fin 1), (sample_clocks 0 7, ''x'', 9, Fin 1)]))
        * ((2 * of_nat (unat (2 :: u64)) + 1) * u_rnd)"
  by (rule degraded_admission_bound)
    (simp_all add: sample_limiter_def sample_clocks_def ev_key_def, simp)

text \<open>C4. Admission bound through Redis: while the script answers, calls for one key at
  non-decreasing times are all decided by it, and from the first call at \<open>t0\<close> to \<open>T\<close> at
  most \<open>capacity + rate * (T - t0)\<close> of them are admitted, up to the rounding of doubles
  and of the fourteen digits in which the level is stored. Keys that Redis drops after
  \<open>ttl_seconds\<close> do not break the bound.\<close>

theorem redis_admission_bound:
  assumes "redis_spec R" "lua_json_spec from_json" "rl_conn lm" "redis_limits cap r"
    and "\<forall>srv \<ge> t0. hget R db srv key ''tokens'' = None \<and> hget R db srv key ''last_refill_ms'' = None"
    and "sorted (t0 # map (unat \<circ> ck_now_ms) cks @ [T])" "T < 10 ^ 14"
    and "rs = check_run from_json (script_invoke R) (map (\<lambda>ck. (ck, key, cap, Fin r)) cks) lm db"
  shows "list_all (\<lambda>x. \<exists>d. x = Inr d \<and> rd_mode d = Redis) rs
    \<and> of_nat (length (filter admits rs))
      \<le> of_nat (unat cap) + r * (1 + 5 * u_rnd) / 1000 * (of_nat T - of_nat t0)
        + of_nat (length cks) * ((2 * of_nat (unat cap) + 2) * u_rnd + of_nat (unat cap) / 10 ^ 13)"
proof -
  let ?b = "\<lparr>rb_tokens = of_nat (unat cap), rb_last = t0\<rparr>"
  let ?ttl = "unat (ttl_seconds cap (Fin r))"
  have inv: "redis_bucket cap r ?b" by (rule redis_bucket_fresh [OF assms(4)])
  have rel: "bucket_rel R key (of_nat (unat cap)) ?ttl db ?b"
    unfolding bucket_rel_def RedisBucket.simps using assms(5) by simp
  have srt: "sorted (t0 # map (unat \<circ> ck_now_ms) cks)" and lt: "\<forall>ck \<in> set cks. unat (ck_now_ms ck) < 10 ^ 14"
    using assms(6,7) by (auto simp: sorted_append)
  note run = redis_run [OF assms(1-4) inv rel _ lt, unfolded RedisBucket.simps, OF srt]
  have "0 \<le> r * (1 + 5 * u_rnd) / 1000" using assms(4) by (simp add: redis_limits_def add_nonneg_nonneg)
  then have "of_nat (snd (serve (rb_step (of_nat (unat cap)) r ?ttl) (map (unat \<circ> ck_now_ms) cks) ?b))
    \<le> of_nat (unat cap) + r * (1 + 5 * u_rnd) / 1000 * (of_nat T - of_nat t0)
      + of_nat (length cks) * ((2 * of_nat (unat cap) + 2) * u_rnd + of_nat (unat cap) / 10 ^ 13)"
    using rb.admitted_bound [OF inv [unfolded redis_bucket_def], unfolded RedisBucket.simps, OF assms(6,7)]
    by (simp only: length_map)
  with run show ?thesis unfolding assms(8) by (simp only: simp_thms)
qed

theorem redis_admission_bound_witness:
  "list_all (\<lambda>x. \<exists>d. x = Inr d \<and> rd_mode d = Redis) (check_run read_json (script_invoke map_redis)
      (map (\<lambda>ck. (ck, ''k'', 2, Fin 1)) [sample_clocks 1000 0, sample_clocks 1500 0]) (sample_limiter True False False)
      Map.empty)"
proof -
  let ?cks = "[sample_clocks 1000 0, sample_clocks 1500 0]"
  have "redis_limits 2 1" by (simp add: redis_limits_def)
  from redis_admission_bound [OF map_redis_spec read_json_spec _ this, where lm = "sample_limiter True False False"
      and db = Map.empty and cks = ?cks and ?t0.0 = 1000 and T = 2000 and key = "''k''", OF _ _ _ _ refl]
  show ?thesis by (simp add: sample_limiter_def sample_clocks_def map_redis_def)
qed

end
