(* ===== verification/Auth.thy ===== *)
theory Auth
  imports Config_Types
begin

text \<open>
  Authentication (\<open>controlplane/src/auth\<close>): the errors and their HTTP status, validation of
  a JWT against a key set, the JWKS cache of a provider and the registry of caches. The
  \<open>jsonwebtoken\<close> crate is the parameter \<open>J\<close>: decoding of a header, verification of a token
  under a \<open>Validation\<close>, and the decoding key of RSA components. The HTTP client is the
  parameter \<open>fetch\<close>, which gives the JWKS document of a URI or the message of the error.
\<close>

subsection \<open>Errors\<close>

datatype AuthError =
  MissingToken | InvalidTokenFormat | InvalidToken | UnsupportedAlgorithm | UnknownKeyId
| InvalidSignature | InvalidIssuer | InvalidAudience | TokenExpired | TokenNotYetValid
| MissingSubject | InsufficientScopes | AuthProviderUnavailable | JwksFetch string

type_synonym StatusCode = u16

fun http_status :: "AuthError \<Rightarrow> StatusCode" where
  "http_status InsufficientScopes = 403"
| "http_status AuthProviderUnavailable = 503"
| "http_status (JwksFetch _) = 503"
| "http_status _ = 401"

fun error_code :: "AuthError \<Rightarrow> string" where
  "error_code MissingToken = ''missing_token''"
| "error_code InvalidTokenFormat = ''invalid_token_format''"
| "error_code InvalidToken = ''invalid_token''"
| "error_code UnsupportedAlgorithm = ''unsupported_algorithm''"
| "error_code UnknownKeyId = ''unknown_key_id''"
| "error_code InvalidSignature = ''invalid_signature''"
| "error_code InvalidIssuer = ''invalid_issuer''"
| "error_code InvalidAudience = ''invalid_audience''"
| "error_code TokenExpired = ''token_expired''"
| "error_code TokenNotYetValid = ''token_not_yet_valid''"
| "error_code MissingSubject = ''missing_subject''"
| "error_code InsufficientScopes = ''insufficient_scopes''"
| "error_code AuthProviderUnavailable = ''auth_provider_unavailable''"
| "error_code (JwksFetch _) = ''auth_provider_unavailable''"

text \<open>\<open>IntoResponse\<close>: the status and the JSON body.\<close>

definition AuthError_into_response :: "AuthError \<Rightarrow> StatusCode \<times> json" where
  "AuthError_into_response e = (http_status e, JObject [(''error'', JString (error_code e))])"

subsection \<open>Types\<close>

record ValidatedIdentity =
  vi_sub :: string
  vi_iss :: string
  vi_aud :: "string list"
  vi_scopes :: "string list"
  vi_exp_unix :: int

record 'k JwksKey =
  jk_kid :: string
  jk_decoding_key :: 'k

record JwksRawKey =
  raw_kid :: string
  raw_kty :: string
  raw_alg :: "string option"
  raw_n :: string
  raw_e :: string

record JwksDocument =
  doc_keys :: "JwksRawKey list"

datatype Audience = Single string | Multiple "string list"

definition Audience_default :: Audience where "Audience_default = Multiple []"

fun Audience_contains :: "Audience \<Rightarrow> string \<Rightarrow> bool" where
  "Audience_contains (Single s) target = (s = target)"
| "Audience_contains (Multiple v) target = (\<exists>a \<in> set v. a = target)"

record Claims =
  cl_sub :: "string option"
  cl_iss :: "string option"
  cl_aud :: Audience
  cl_exp :: "int option"
  cl_nbf :: "int option"
  cl_scope :: "string option"
  cl_scp :: "string list option"

text \<open>The types of the \<open>jsonwebtoken\<close> crate that the code names.\<close>

datatype Algorithm =
  HS256 | HS384 | HS512 | ES256 | ES384 | RS256 | RS384 | RS512 | PS256 | PS384 | PS512 | EdDSA

record Header =
  hd_alg :: Algorithm
  hd_kid :: "string option"

record Validation =
  va_algorithm :: Algorithm
  va_iss :: "string list"
  va_aud :: "string list"
  va_leeway :: u64
  va_validate_exp :: bool
  va_validate_nbf :: bool
  va_required :: "string list"

datatype ErrorKind =
  EkInvalidSignature | EkInvalidIssuer | EkInvalidAudience | EkExpiredSignature
| EkImmatureSignature | EkOther

record 'k jwt =
  decode_header :: "string \<Rightarrow> Header option"
  decode :: "string \<Rightarrow> 'k \<Rightarrow> Validation \<Rightarrow> (ErrorKind, Claims) result"
  from_rsa_components :: "string \<Rightarrow> string \<Rightarrow> (string, 'k) result"

subsection \<open>Validation of a token\<close>

fun map_error_kind :: "ErrorKind \<Rightarrow> AuthError" where
  "map_error_kind EkInvalidSignature = InvalidSignature"
| "map_error_kind EkInvalidIssuer = InvalidIssuer"
| "map_error_kind EkInvalidAudience = InvalidAudience"
| "map_error_kind EkExpiredSignature = TokenExpired"
| "map_error_kind EkImmatureSignature = TokenNotYetValid"
| "map_error_kind EkOther = InvalidToken"

definition provider_validation :: "AuthProvider \<Rightarrow> Validation" where
  "provider_validation provider =
     \<lparr>va_algorithm = RS256, va_iss = [ap_issuer provider], va_aud = [ap_audience provider],
      va_leeway = ap_clock_skew_seconds provider, va_validate_exp = True, va_validate_nbf = True,
      va_required = [''exp'', ''iss'', ''aud'']\<rparr>"

definition decode_and_verify :: "'k jwt \<Rightarrow> string \<Rightarrow> 'k \<Rightarrow> AuthProvider \<Rightarrow> (AuthError, Claims) result" where
  "decode_and_verify J raw_token key provider =
     map_sum map_error_kind (\<lambda>c. c) (decode J raw_token key (provider_validation provider))"

definition extract_scopes :: "Claims \<Rightarrow> string list" where
  "extract_scopes claims =
     (case cl_scope claims of
        Some scope_str \<Rightarrow> split_whitespace scope_str
      | None \<Rightarrow> (case cl_scp claims of Some scp_arr \<Rightarrow> scp_arr | None \<Rightarrow> []))"

fun check_scopes :: "string list \<Rightarrow> string list \<Rightarrow> (AuthError, unit) result" where
  "check_scopes token_scopes [] = Inr ()"
| "check_scopes token_scopes (req # required) =
     (if \<not> (\<exists>s \<in> set token_scopes. s = req) then Inl InsufficientScopes
      else check_scopes token_scopes required)"

definition identity_of :: "Claims \<Rightarrow> string list \<Rightarrow> (AuthError, ValidatedIdentity) result" where
  "identity_of claims token_scopes =
     and_then (ok_or (cl_sub claims) MissingSubject) (\<lambda>sub.
       Inr \<lparr>vi_sub = sub,
         vi_iss = (case cl_iss claims of Some i \<Rightarrow> i | None \<Rightarrow> []),
         vi_aud = (case cl_aud claims of Single s \<Rightarrow> [s] | Multiple v \<Rightarrow> v),
         vi_scopes = token_scopes,
         vi_exp_unix = (case cl_exp claims of Some e \<Rightarrow> e | None \<Rightarrow> 0)\<rparr>)"

definition validate_token ::
  "'k jwt \<Rightarrow> string \<Rightarrow> AuthProvider \<Rightarrow> 'k JwksKey list \<Rightarrow> string list
    \<Rightarrow> (AuthError, ValidatedIdentity) result" where
  "validate_token J raw_token provider keys required_scopes =
     and_then (ok_or (decode_header J raw_token) InvalidToken) (\<lambda>header.
     if hd_alg header \<noteq> RS256 then Inl UnsupportedAlgorithm
     else
     and_then (ok_or (hd_kid header) UnknownKeyId) (\<lambda>kid.
     and_then (ok_or (find (\<lambda>k. jk_kid k = kid) keys) UnknownKeyId) (\<lambda>key.
     and_then (decode_and_verify J raw_token (jk_decoding_key key) provider) (\<lambda>claims.
     let token_scopes = extract_scopes claims in
     and_then (check_scopes token_scopes required_scopes) (\<lambda>_.
     identity_of claims token_scopes)))))"

subsection \<open>The JWKS cache\<close>

definition STALE_FACTOR :: u64 where "STALE_FACTOR = 10"

record 'k JwksCache =
  jc_provider :: AuthProvider
  jc_keys :: "'k JwksKey list"
  jc_fetched_at :: nat

fun parse_keys :: "'k jwt \<Rightarrow> JwksRawKey list \<Rightarrow> (AuthError, 'k JwksKey list) result" where
  "parse_keys J [] = Inr []"
| "parse_keys J (raw # raws) =
     (if raw_kty raw \<noteq> ''RSA'' then parse_keys J raws
      else case from_rsa_components J (raw_n raw) (raw_e raw) of
             Inl e \<Rightarrow> Inl (JwksFetch (''failed to parse RSA key kid='' @ raw_kid raw @ '': '' @ e))
           | Inr dk \<Rightarrow> and_then (parse_keys J raws)
               (\<lambda>ks. Inr (\<lparr>jk_kid = raw_kid raw, jk_decoding_key = dk\<rparr> # ks)))"

definition parse_jwks_keys :: "'k jwt \<Rightarrow> JwksDocument \<Rightarrow> (AuthError, 'k JwksKey list) result" where
  "parse_jwks_keys J doc = parse_keys J (doc_keys doc)"

text \<open>The cache after the fetch and the result; \<open>now\<close> is the clock at the write.\<close>

definition fetch_and_store ::
  "'k jwt \<Rightarrow> (string \<Rightarrow> (string, JwksDocument) result) \<Rightarrow> nat \<Rightarrow> 'k JwksCache
    \<Rightarrow> 'k JwksCache \<times> (AuthError, unit) result" where
  "fetch_and_store J fetch now cache =
     (case fetch (ap_jwks_uri (jc_provider cache)) of
        Inl e \<Rightarrow> (cache, Inl (JwksFetch e))
      | Inr doc \<Rightarrow> (case parse_jwks_keys J doc of
          Inl err \<Rightarrow> (cache, Inl err)
        | Inr keys \<Rightarrow> (cache\<lparr>jc_keys := keys, jc_fetched_at := now\<rparr>, Inr ())))"

definition JwksCache_new ::
  "'k jwt \<Rightarrow> (string \<Rightarrow> (string, JwksDocument) result) \<Rightarrow> nat \<Rightarrow> AuthProvider
    \<Rightarrow> (AuthError, 'k JwksCache) result" where
  "JwksCache_new J fetch now provider =
     (case fetch_and_store J fetch now \<lparr>jc_provider = provider, jc_keys = [], jc_fetched_at = now\<rparr> of
        (cache, Inr _) \<Rightarrow> Inr cache
      | (_, Inl e) \<Rightarrow> Inl e)"

definition get_keys :: "'k JwksCache \<Rightarrow> 'k JwksKey list" where
  "get_keys cache = jc_keys cache"

text \<open>\<open>Duration::from_secs\<close> of the 64-bit product, which wraps around in release builds.\<close>

definition is_stale :: "nat \<Rightarrow> 'k JwksCache \<Rightarrow> bool" where
  "is_stale now cache \<longleftrightarrow>
     now - jc_fetched_at cache > unat (ap_cache_ttl_seconds (jc_provider cache) * STALE_FACTOR) * 10 ^ 9"

text \<open>One round of the background loop, woken by the timer or by a notification.\<close>

definition refresh_round ::
  "'k jwt \<Rightarrow> (string \<Rightarrow> (string, JwksDocument) result) \<Rightarrow> nat \<Rightarrow> 'k JwksCache \<Rightarrow> 'k JwksCache" where
  "refresh_round J fetch now cache = fst (fetch_and_store J fetch now cache)"

subsection \<open>Validation with refresh\<close>

text \<open>\<open>refreshed\<close> is what the cache has become when the bounded wait ends: the outcome of the
  background loop, or the cache unchanged.\<close>

definition validate_with_refresh ::
  "'k jwt \<Rightarrow> nat \<Rightarrow> ('k JwksCache \<Rightarrow> 'k JwksCache) \<Rightarrow> string \<Rightarrow> AuthProvider \<Rightarrow> 'k JwksCache
    \<Rightarrow> string list \<Rightarrow> (AuthError, ValidatedIdentity) result" where
  "validate_with_refresh J now refreshed raw_token provider cache required_scopes =
     (if is_stale now cache then Inl AuthProviderUnavailable
      else case validate_token J raw_token provider (get_keys cache) required_scopes of
             Inl UnknownKeyId \<Rightarrow>
               validate_token J raw_token provider (get_keys (refreshed cache)) required_scopes
           | other \<Rightarrow> other)"

subsection \<open>The registry\<close>

record 'k JwksCacheRegistry =
  jr_caches :: "(string \<times> 'k JwksCache) list"

fun build_caches ::
  "'k jwt \<Rightarrow> (string \<Rightarrow> (string, JwksDocument) result) \<Rightarrow> nat \<Rightarrow> AuthProvider list
    \<Rightarrow> (string \<times> 'k JwksCache) list \<Rightarrow> (AuthError, (string \<times> 'k JwksCache) list) result" where
  "build_caches J fetch now [] caches = Inr caches"
| "build_caches J fetch now (provider # ps) caches =
     and_then (JwksCache_new J fetch now provider) (\<lambda>cache.
       build_caches J fetch now ps (mapping_insert (ap_name provider) cache caches))"

definition JwksCacheRegistry_from_config ::
  "'k jwt \<Rightarrow> (string \<Rightarrow> (string, JwksDocument) result) \<Rightarrow> nat \<Rightarrow> AuthConfig
    \<Rightarrow> (AuthError, 'k JwksCacheRegistry) result" where
  "JwksCacheRegistry_from_config J fetch now auth =
     and_then (build_caches J fetch now (ac_providers auth) []) (\<lambda>caches. Inr \<lparr>jr_caches = caches\<rparr>)"

definition all_healthy :: "nat \<Rightarrow> 'k JwksCacheRegistry \<Rightarrow> bool" where
  "all_healthy now reg \<longleftrightarrow> list_all (\<lambda>(_, cache). \<not> is_stale now cache) (jr_caches reg)"

definition registry_get :: "'k JwksCacheRegistry \<Rightarrow> string \<Rightarrow> 'k JwksCache option" where
  "registry_get reg name = map_of (jr_caches reg) name"

end
