(* ===== verification/Auth_Correct.thy ===== *)
theory Auth_Correct
  imports Auth Sample_Config
begin

text \<open>
  The properties of authentication: what an accepted token is known to satisfy, when an
  unknown key is reported, what the JWKS cache and the registry hold.
\<close>

subsection \<open>What the JWT library promises\<close>

text \<open>\<open>verifies tok key alg\<close> stands for: the signature of the token verifies under the key.
  A token that \<open>decode\<close> returns is signed and has the claims that the validation requires.
  Of the claims it has, and only of these, the issuer and the audience are among the ones of
  the validation, and the token is within its period of validity at \<open>now\<close>, give or take the
  leeway: a claim that is neither required nor there is not looked at. The library reads
  \<open>exp\<close> as an unsigned number; a negative one counts as missing.\<close>

definition jwt_spec :: "'k jwt \<Rightarrow> (string \<Rightarrow> 'k \<Rightarrow> Algorithm \<Rightarrow> bool) \<Rightarrow> int \<Rightarrow> bool" where
  "jwt_spec J verifies now \<longleftrightarrow> (\<forall>tok key va claims. decode J tok key va = Inr claims \<longrightarrow>
     verifies tok key (va_algorithm va)
     \<and> (''exp'' \<in> set (va_required va) \<longrightarrow> (\<exists>t \<ge> 0. cl_exp claims = Some t))
     \<and> (''iss'' \<in> set (va_required va) \<longrightarrow> cl_iss claims \<noteq> None)
     \<and> (''aud'' \<in> set (va_required va) \<longrightarrow> cl_aud claims \<noteq> Audience_default)
     \<and> (va_iss va \<noteq> [] \<longrightarrow> (\<forall>i. cl_iss claims = Some i \<longrightarrow> i \<in> set (va_iss va)))
     \<and> (cl_aud claims \<noteq> Audience_default \<longrightarrow> (\<exists>a \<in> set (va_aud va). Audience_contains (cl_aud claims) a))
     \<and> (va_validate_exp va \<longrightarrow> (\<forall>t \<ge> 0. cl_exp claims = Some t \<longrightarrow> now - uint (va_leeway va) \<le> t))
     \<and> (va_validate_nbf va \<longrightarrow> (\<forall>t. cl_nbf claims = Some t \<longrightarrow> t \<le> now + uint (va_leeway va))))"

subsection \<open>Helper facts\<close>

lemma check_scopes_Inr: "check_scopes ts req = Inr u \<longleftrightarrow> set req \<subseteq> set ts"
  by (induction ts req rule: check_scopes.induct) auto

lemma check_scopes_Inl: "check_scopes ts req = Inl e \<Longrightarrow> e = InsufficientScopes"
  by (induction ts req rule: check_scopes.induct) (auto split: if_splits)

lemma map_sum_Inr: "map_sum f (\<lambda>x. x) r = Inr c \<longleftrightarrow> r = Inr c"
  by (cases r) auto

lemma validate_token_Inr:
  assumes "validate_token J tok p keys req = Inr ident"
  shows "\<exists>h k claims. decode_header J tok = Some h \<and> hd_alg h = RS256 \<and> k \<in> set keys
    \<and> hd_kid h = Some (jk_kid k) \<and> decode J tok (jk_decoding_key k) (provider_validation p) = Inr claims
    \<and> set req \<subseteq> set (extract_scopes claims) \<and> identity_of claims (extract_scopes claims) = Inr ident"
proof -
  obtain h where h: "decode_header J tok = Some h" "hd_alg h = RS256"
    using assms by (cases "decode_header J tok") (auto simp: validate_token_def split: if_splits)
  obtain kid where kid: "hd_kid h = Some kid"
    using assms h by (cases "hd_kid h") (auto simp: validate_token_def)
  obtain k where k: "find (\<lambda>k. jk_kid k = kid) keys = Some k"
    using assms h kid by (cases "find (\<lambda>k. jk_kid k = kid) keys") (auto simp: validate_token_def)
  then have k': "k \<in> set keys" "jk_kid k = kid" by (auto simp: find_Some_iff)
  obtain claims where c: "decode J tok (jk_decoding_key k) (provider_validation p) = Inr claims"
    "set req \<subseteq> set (extract_scopes claims)" "identity_of claims (extract_scopes claims) = Inr ident"
    using assms h kid k
    by (auto simp: validate_token_def decode_and_verify_def and_then_Inr check_scopes_Inr map_sum_Inr Let_def)
  with h kid k' show ?thesis by blast
qed

lemma identity_of_Inr:
  "identity_of claims ts = Inr ident \<Longrightarrow> cl_sub claims = Some (vi_sub ident) \<and> vi_scopes ident = ts
     \<and> (\<forall>i. cl_iss claims = Some i \<longrightarrow> vi_iss ident = i)
     \<and> (\<forall>a. Audience_contains (cl_aud claims) a \<longleftrightarrow> a \<in> set (vi_aud ident))
     \<and> (\<forall>t. cl_exp claims = Some t \<longrightarrow> vi_exp_unix ident = t)"
  by (cases "cl_sub claims"; cases "cl_aud claims") (auto simp: identity_of_def)

lemma validate_token_UnknownKeyId:
  assumes "validate_token J tok p keys req = Inl UnknownKeyId"
  shows "\<exists>h. decode_header J tok = Some h \<and> hd_alg h = RS256
    \<and> (\<forall>kid. hd_kid h = Some kid \<longrightarrow> kid \<notin> jk_kid ` set keys)"
proof -
  obtain h where h: "decode_header J tok = Some h" "hd_alg h = RS256"
    using assms by (cases "decode_header J tok") (auto simp: validate_token_def split: if_splits)
  have "kid \<notin> jk_kid ` set keys" if kid: "hd_kid h = Some kid" for kid
  proof
    assume "kid \<in> jk_kid ` set keys"
    then obtain k where k: "find (\<lambda>k. jk_kid k = kid) keys = Some k"
      by (cases "find (\<lambda>k. jk_kid k = kid) keys") (auto simp: find_None_iff)
    have e: "map_error_kind x \<noteq> UnknownKeyId" for x by (cases x) simp_all
    have i: "identity_of c ts \<noteq> Inl UnknownKeyId" for c ts by (cases "cl_sub c") (simp_all add: identity_of_def)
    show False
      using assms h kid k e i check_scopes_Inl
      by (auto simp: validate_token_def decode_and_verify_def and_then_Inl Let_def split: sum.splits
          dest: check_scopes_Inl) (cases "decode J tok (jk_decoding_key k) (provider_validation p)";
          auto dest: check_scopes_Inl)+
  qed
  with h show ?thesis by blast
qed

lemma parse_keys_kids:
  "parse_keys J raws = Inr keys \<Longrightarrow>
     map jk_kid keys = map raw_kid (filter (\<lambda>r. raw_kty r = ''RSA'') raws)"
  by (induction raws arbitrary: keys) (auto simp: and_then_Inr split: if_splits sum.splits)

lemma fetch_and_store_cases:
  assumes "fetch_and_store J fetch now cache = (cache', r)"
  shows "(r = Inr () \<and> (\<exists>doc keys. fetch (ap_jwks_uri (jc_provider cache)) = Inr doc \<and> parse_jwks_keys J doc = Inr keys
      \<and> cache' = cache\<lparr>jc_keys := keys, jc_fetched_at := now\<rparr>))
    \<or> ((\<exists>e. r = Inl e) \<and> cache' = cache)"
  using assms by (auto simp: fetch_and_store_def split: sum.splits)

lemma refresh_round_provider [simp]: "jc_provider (refresh_round J fetch now cache) = jc_provider cache"
  by (auto simp: refresh_round_def fetch_and_store_def split: sum.splits)

lemma build_caches_get:
  assumes "build_caches J fetch now ps caches0 = Inr caches" "distinct (map ap_name ps)"
    and "ap_name ` set ps \<inter> fst ` set caches0 = {}"
  shows "(\<forall>p \<in> set ps. \<exists>c. JwksCache_new J fetch now p = Inr c \<and> map_of caches (ap_name p) = Some c)
    \<and> (\<forall>n. n \<notin> ap_name ` set ps \<longrightarrow> map_of caches n = map_of caches0 n)"
  using assms
proof (induction ps arbitrary: caches0)
  case (Cons p ps)
  then obtain c where c: "JwksCache_new J fetch now p = Inr c"
    "build_caches J fetch now ps (mapping_insert (ap_name p) c caches0) = Inr caches"
    by (auto simp: and_then_Inr)
  have "ap_name ` set ps \<inter> fst ` set (mapping_insert (ap_name p) c caches0) = {}"
    using Cons.prems(2,3) by (auto simp: mapping_insert_keys)
  from Cons.IH [OF c(2) _ this] Cons.prems(2) c(1) show ?case by auto
qed simp

lemma build_caches_Inr:
  "(\<exists>caches. build_caches J fetch now ps caches0 = Inr caches)
     \<longleftrightarrow> (\<forall>p \<in> set ps. \<exists>c. JwksCache_new J fetch now p = Inr c)"
  by (induction ps arbitrary: caches0) (auto simp: and_then_Inr)

lemma JwksCache_new_Inr:
  "JwksCache_new J fetch now p = Inr c \<longleftrightarrow>
     (\<exists>doc keys. fetch (ap_jwks_uri p) = Inr doc \<and> parse_jwks_keys J doc = Inr keys
        \<and> c = \<lparr>jc_provider = p, jc_keys = keys, jc_fetched_at = now\<rparr>)"
  by (auto simp: JwksCache_new_def fetch_and_store_def split: sum.splits)

lemma build_caches_keys:
  "build_caches J fetch now ps caches0 = Inr caches \<Longrightarrow> \<forall>(n, c) \<in> set caches0. jc_fetched_at c = now \<Longrightarrow>
     \<forall>(n, c) \<in> set caches. jc_fetched_at c = now"
proof (induction ps arbitrary: caches0)
  case (Cons p ps)
  then obtain c where c: "JwksCache_new J fetch now p = Inr c"
    "build_caches J fetch now ps (mapping_insert (ap_name p) c caches0) = Inr caches"
    by (auto simp: and_then_Inr)
  have "set (mapping_insert k v m) \<subseteq> insert (k, v) (set m)" for k v and m :: "(string \<times> 'a JwksCache) list"
    by (induction k v m rule: mapping_insert.induct) auto
  from this [of "ap_name p" c caches0] have "\<forall>(n, c) \<in> set (mapping_insert (ap_name p) c caches0). jc_fetched_at c = now"
    using Cons.prems(2) c(1) by (fastforce simp: JwksCache_new_Inr)
  from Cons.IH [OF c(2) this] show ?case .
qed simp

lemma jwt_specD:
  assumes "jwt_spec J verifies now" "decode J tok key va = Inr claims"
  shows "verifies tok key (va_algorithm va)"
    "''exp'' \<in> set (va_required va) \<Longrightarrow> va_validate_exp va \<Longrightarrow> \<exists>t. cl_exp claims = Some t \<and> now - uint (va_leeway va) \<le> t"
    "''iss'' \<in> set (va_required va) \<Longrightarrow> va_iss va \<noteq> [] \<Longrightarrow> \<exists>i \<in> set (va_iss va). cl_iss claims = Some i"
    "''aud'' \<in> set (va_required va) \<Longrightarrow> \<exists>a \<in> set (va_aud va). Audience_contains (cl_aud claims) a"
  using assms unfolding jwt_spec_def by blast+

lemma accepted_token:
  assumes "jwt_spec J verifies now" "validate_token J tok p keys req = Inr ident"
  shows "\<exists>h k claims. decode_header J tok = Some h \<and> hd_alg h = RS256 \<and> k \<in> set keys
    \<and> hd_kid h = Some (jk_kid k) \<and> verifies tok (jk_decoding_key k) RS256
    \<and> decode J tok (jk_decoding_key k) (provider_validation p) = Inr claims
    \<and> cl_sub claims = Some (vi_sub ident) \<and> vi_iss ident = ap_issuer p \<and> ap_audience p \<in> set (vi_aud ident)
    \<and> now - uint (ap_clock_skew_seconds p) \<le> vi_exp_unix ident
    \<and> set req \<subseteq> set (vi_scopes ident)"
proof -
  obtain h k claims where a: "decode_header J tok = Some h" "hd_alg h = RS256" "k \<in> set keys"
    "hd_kid h = Some (jk_kid k)" "decode J tok (jk_decoding_key k) (provider_validation p) = Inr claims"
    "set req \<subseteq> set (extract_scopes claims)" "identity_of claims (extract_scopes claims) = Inr ident"
    using validate_token_Inr [OF assms(2)] by blast
  have "verifies tok (jk_decoding_key k) RS256" "cl_iss claims = Some (ap_issuer p)"
    "Audience_contains (cl_aud claims) (ap_audience p)"
    "\<exists>t. cl_exp claims = Some t \<and> now - uint (ap_clock_skew_seconds p) \<le> t"
    using jwt_specD [OF assms(1) a(5)] by (auto simp: provider_validation_def)
  with a identity_of_Inr [OF a(7)] show ?thesis by (intro exI [of _ h] exI [of _ k] exI [of _ claims]) auto
qed

lemma validate_with_refresh_Inr:
  assumes "validate_with_refresh J now refreshed tok p cache req = Inr ident"
  shows "\<not> is_stale now cache \<and> (\<exists>c \<in> {cache, refreshed cache}. validate_token J tok p (jc_keys c) req = Inr ident)"
  using assms by (auto simp: validate_with_refresh_def get_keys_def split: if_splits sum.splits AuthError.splits)

subsection \<open>A concrete JWT library\<close>

definition sample_claims :: "string \<Rightarrow> string \<Rightarrow> Claims" where
  "sample_claims iss aud = \<lparr>cl_sub = Some ''user-1'', cl_iss = Some iss, cl_aud = Single aud,
     cl_exp = Some 0, cl_nbf = None, cl_scope = None, cl_scp = Some [''read'']\<rparr>"

definition sample_jwt :: "nat jwt" where
  "sample_jwt =
     \<lparr>decode_header = \<lambda>_. Some \<lparr>hd_alg = RS256, hd_kid = Some ''k1''\<rparr>,
      decode = \<lambda>_ _ va. (case (va_iss va, va_aud va) of
        (i # _, a # _) \<Rightarrow> Inr (sample_claims i a) | _ \<Rightarrow> Inl EkOther),
      from_rsa_components = \<lambda>n _. Inr (length n)\<rparr>"

lemma sample_jwt_spec: "jwt_spec sample_jwt (\<lambda>_ _ _. True) 0"
  by (auto simp: jwt_spec_def sample_jwt_def sample_claims_def Audience_default_def split: list.splits)

text \<open>The same library with a clock: its tokens expire at 0.\<close>

definition sample_jwt_at :: "int \<Rightarrow> nat jwt" where
  "sample_jwt_at now = sample_jwt\<lparr>decode := \<lambda>tok key va.
     if now - uint (va_leeway va) \<le> 0 then decode sample_jwt tok key va else Inl EkExpiredSignature\<rparr>"

lemma sample_jwt_at_spec: "jwt_spec (sample_jwt_at now) (\<lambda>_ _ _. True) now"
  by (auto simp: jwt_spec_def sample_jwt_at_def sample_jwt_def sample_claims_def Audience_default_def split: list.splits if_splits)

lemma sample_jwt_at_0 [simp]: "sample_jwt_at 0 = sample_jwt"
proof -
  have "(0 :: int) - uint (va_leeway va) \<le> 0" for va by simp
  then show ?thesis by (simp add: sample_jwt_at_def)
qed

definition sample_key :: "nat JwksKey" where
  "sample_key = \<lparr>jk_kid = ''k1'', jk_decoding_key = 1\<rparr>"

definition sample_identity :: ValidatedIdentity where
  "sample_identity = \<lparr>vi_sub = ''user-1'', vi_iss = ap_issuer sample_provider,
     vi_aud = [ap_audience sample_provider], vi_scopes = [''read''], vi_exp_unix = 0\<rparr>"

lemma sample_accepted:
  "validate_token sample_jwt ''tok'' sample_provider [sample_key] [''read''] = Inr sample_identity"
  by (simp add: validate_token_def sample_jwt_def decode_and_verify_def provider_validation_def
      sample_claims_def extract_scopes_def identity_of_def sample_key_def sample_identity_def Let_def)

definition sample_raw :: JwksRawKey where
  "sample_raw = \<lparr>raw_kid = ''k1'', raw_kty = ''RSA'', raw_alg = None, raw_n = ''x'', raw_e = ''AQAB''\<rparr>"

definition sample_cache :: "nat JwksCache" where
  "sample_cache = \<lparr>jc_provider = sample_provider, jc_keys = [], jc_fetched_at = 0\<rparr>"

lemma sample_cache_fresh: "\<not> is_stale 5 sample_cache"
  by (simp add: is_stale_def sample_cache_def sample_provider_def STALE_FACTOR_def)

subsection \<open>Properties\<close>

text \<open>What acceptance guarantees: a token that \<open>validate_token\<close> accepts has an RS256
  header whose \<open>kid\<close> names a key of the provider's set, its signature verifies under that
  key, issuer and audience are the provider's, it has not expired beyond the configured
  skew, it carries every required scope, and the subject is the token's own.\<close>

theorem accepted_token_verified:
  assumes "jwt_spec J verifies now" "validate_token J tok p keys req = Inr ident"
  shows "\<exists>h k claims. decode_header J tok = Some h \<and> hd_alg h = RS256 \<and> k \<in> set keys
    \<and> hd_kid h = Some (jk_kid k) \<and> verifies tok (jk_decoding_key k) RS256
    \<and> decode J tok (jk_decoding_key k) (provider_validation p) = Inr claims
    \<and> cl_sub claims = Some (vi_sub ident) \<and> vi_iss ident = ap_issuer p \<and> ap_audience p \<in> set (vi_aud ident)
    \<and> now - uint (ap_clock_skew_seconds p) \<le> vi_exp_unix ident
    \<and> set req \<subseteq> set (vi_scopes ident)"
  by (rule accepted_token [OF assms])

theorem accepted_token_verified_witness:
  "ap_audience sample_provider \<in> set (vi_aud sample_identity) \<and> set [''read''] \<subseteq> set (vi_scopes sample_identity)
    \<and> vi_iss sample_identity = ap_issuer sample_provider"
  using accepted_token_verified [OF sample_jwt_spec sample_accepted] by blast

text \<open>\<open>unknown_key_id\<close> is reported only for RS256 tokens that name no key, or name one
  that is neither in the cached key set nor in the key set when the wait for the refresh
  has ended: a second validation is always made before the token is turned away.\<close>

theorem unknown_key_only_after_refresh:
  assumes "validate_with_refresh J now refreshed tok p cache req = Inl UnknownKeyId"
  shows "\<exists>h. decode_header J tok = Some h \<and> hd_alg h = RS256 \<and> (\<forall>kid. hd_kid h = Some kid \<longrightarrow>
    kid \<notin> jk_kid ` set (jc_keys cache) \<and> kid \<notin> jk_kid ` set (jc_keys (refreshed cache)))"
proof -
  have ns: "\<not> is_stale now cache" using assms by (auto simp: validate_with_refresh_def)
  have 1: "validate_token J tok p (get_keys cache) req = Inl UnknownKeyId"
    using assms ns by (auto simp: validate_with_refresh_def split: sum.splits AuthError.splits)
  then have 2: "validate_token J tok p (get_keys (refreshed cache)) req = Inl UnknownKeyId"
    using assms ns by (simp add: validate_with_refresh_def)
  from validate_token_UnknownKeyId [OF 1] validate_token_UnknownKeyId [OF 2] show ?thesis
    by (auto simp: get_keys_def)
qed

theorem unknown_key_only_after_refresh_witness:
  "\<exists>h. decode_header sample_jwt ''tok'' = Some h \<and> hd_alg h = RS256 \<and> (\<forall>kid. hd_kid h = Some kid \<longrightarrow>
    kid \<notin> jk_kid ` set (jc_keys sample_cache) \<and> kid \<notin> jk_kid ` set (jc_keys ((\<lambda>c. c) sample_cache)))"
  by (rule unknown_key_only_after_refresh [where now = 5 and p = sample_provider and req = "[]"])
    (simp add: validate_with_refresh_def sample_cache_fresh validate_token_def sample_jwt_def get_keys_def,
     simp add: sample_cache_def validate_token_def sample_jwt_def get_keys_def)

text \<open>C27. Key rotation: when the wait for the background refresh ends after a fetch whose
  document holds an RSA key with the \<open>kid\<close> of the token, the outcome is that of
  validating against the new key set, and is not \<open>unknown_key_id\<close>.\<close>

theorem rotated_key_is_used:
  assumes "\<not> is_stale now cache" "decode_header J tok = Some h" "hd_alg h = RS256" "hd_kid h = Some kid"
    and "kid \<notin> jk_kid ` set (jc_keys cache)" "refreshed = refresh_round J fetch t"
    and "fetch (ap_jwks_uri (jc_provider cache)) = Inr doc" "parse_jwks_keys J doc = Inr keys"
    and "raw \<in> set (doc_keys doc)" "raw_kty raw = ''RSA''" "raw_kid raw = kid"
  shows "validate_with_refresh J now refreshed tok p cache req = validate_token J tok p keys req
    \<and> validate_token J tok p keys req \<noteq> Inl UnknownKeyId"
proof -
  have "find (\<lambda>k. jk_kid k = kid) (jc_keys cache) = None" using assms(5) by (auto simp: find_None_iff)
  then have 1: "validate_token J tok p (get_keys cache) req = Inl UnknownKeyId"
    using assms(2-4) by (simp add: validate_token_def get_keys_def)
  have "get_keys (refreshed cache) = keys"
    using assms(6-8) by (simp add: refresh_round_def fetch_and_store_def get_keys_def)
  with 1 assms(1) have "validate_with_refresh J now refreshed tok p cache req = validate_token J tok p keys req"
    by (simp add: validate_with_refresh_def)
  moreover have "kid \<in> set (map jk_kid keys)"
    using parse_keys_kids [of J "doc_keys doc" keys] assms(8-11) by (auto simp: parse_jwks_keys_def)
  then have "validate_token J tok p keys req \<noteq> Inl UnknownKeyId"
    using validate_token_UnknownKeyId [of J tok p keys req] assms(2,4) by auto
  ultimately show ?thesis ..
qed

theorem rotated_key_is_used_witness:
  "validate_with_refresh sample_jwt 5 (refresh_round sample_jwt (\<lambda>_. Inr \<lparr>doc_keys = [sample_raw]\<rparr>) 6) ''tok''
      sample_provider sample_cache [''read'']
    = validate_token sample_jwt ''tok'' sample_provider [sample_key] [''read'']
   \<and> validate_token sample_jwt ''tok'' sample_provider [sample_key] [''read''] \<noteq> Inl UnknownKeyId"
  by (rule rotated_key_is_used [where raw = sample_raw and kid = "''k1''" and
        h = "\<lparr>hd_alg = RS256, hd_kid = Some ''k1''\<rparr>" and doc = "\<lparr>doc_keys = [sample_raw]\<rparr>"])
    (simp_all add: sample_cache_fresh, simp_all add: sample_jwt_def sample_cache_def sample_raw_def
      sample_key_def parse_jwks_keys_def)

text \<open>A failed refresh never loses keys, and a successful one replaces them all: after any
  sequence of rounds of the background loop the cache holds the keys of the last fetch that
  succeeded and its time, or is unchanged if none did.\<close>

theorem refresh_rounds_keep_last_success:
  "foldl (\<lambda>c (fetch, t). refresh_round J fetch t c) cache rounds =
     (case find (\<lambda>(fetch, t). is_ok (snd (fetch_and_store J fetch t cache))) (rev rounds) of
        None \<Rightarrow> cache
      | Some (fetch, t) \<Rightarrow> refresh_round J fetch t cache)"
proof (induction rounds rule: rev_induct)
  case (snoc r rounds)
  obtain fetch t where r: "r = (fetch, t)" by (cases r)
  define c where "c = foldl (\<lambda>c (fetch, t). refresh_round J fetch t c) cache rounds"
  have p: "jc_provider c = jc_provider cache"
    unfolding c_def by (induction rounds rule: rev_induct) (auto split: prod.splits)
  then have ok: "snd (fetch_and_store J fetch t c) = snd (fetch_and_store J fetch t cache)"
    by (auto simp: fetch_and_store_def split: sum.splits)
  show ?case
  proof (cases "snd (fetch_and_store J fetch t cache)")
    case (Inl e)
    then have "refresh_round J fetch t c = c"
      using ok fetch_and_store_cases [of J fetch t c] by (cases "fetch_and_store J fetch t c") (auto simp: refresh_round_def)
    with Inl snoc.IH show ?thesis by (simp add: r c_def)
  next
    case (Inr u)
    then obtain doc keys where "fetch (ap_jwks_uri (jc_provider cache)) = Inr doc" "parse_jwks_keys J doc = Inr keys"
      by (auto simp: fetch_and_store_def split: sum.splits)
    moreover have "c\<lparr>jc_keys := keys, jc_fetched_at := t\<rparr> = cache\<lparr>jc_keys := keys, jc_fetched_at := t\<rparr>"
      using p by simp
    ultimately have "refresh_round J fetch t c = refresh_round J fetch t cache"
      using p by (simp add: refresh_round_def fetch_and_store_def)
    with Inr show ?thesis by (simp add: r c_def)
  qed
qed simp

text \<open>The registry is all or nothing: it is built exactly when the first fetch of every
  provider succeeds. Then every provider has its own cache under its name, filled from its
  own document, and the registry is healthy.\<close>

theorem registry_from_config_spec:
  assumes "distinct (map ap_name (ac_providers auth))"
  shows "(is_ok (JwksCacheRegistry_from_config J fetch now auth) \<longleftrightarrow>
      (\<forall>p \<in> set (ac_providers auth). \<exists>doc keys. fetch (ap_jwks_uri p) = Inr doc \<and> parse_jwks_keys J doc = Inr keys))
    \<and> (\<forall>reg. JwksCacheRegistry_from_config J fetch now auth = Inr reg \<longrightarrow> all_healthy now reg
      \<and> (\<forall>p \<in> set (ac_providers auth). \<exists>c doc. registry_get reg (ap_name p) = Some c \<and> jc_provider c = p
           \<and> fetch (ap_jwks_uri p) = Inr doc \<and> parse_jwks_keys J doc = Inr (jc_keys c)))"
proof -
  have "is_ok (JwksCacheRegistry_from_config J fetch now auth) \<longleftrightarrow>
      (\<exists>caches. build_caches J fetch now (ac_providers auth) [] = Inr caches)"
    by (auto simp: JwksCacheRegistry_from_config_def is_ok_iff and_then_Inr)
  moreover have "all_healthy now reg \<and> (\<forall>p \<in> set (ac_providers auth). \<exists>c doc. registry_get reg (ap_name p) = Some c
      \<and> jc_provider c = p \<and> fetch (ap_jwks_uri p) = Inr doc \<and> parse_jwks_keys J doc = Inr (jc_keys c))"
    if "JwksCacheRegistry_from_config J fetch now auth = Inr reg" for reg
  proof -
    from that obtain caches where c: "build_caches J fetch now (ac_providers auth) [] = Inr caches" "reg = \<lparr>jr_caches = caches\<rparr>"
      by (auto simp: JwksCacheRegistry_from_config_def and_then_Inr)
    have "\<forall>(n, c) \<in> set caches. \<not> is_stale now c" using build_caches_keys [OF c(1)] by (auto simp: is_stale_def)
    then have "all_healthy now reg" using c(2) by (auto simp: all_healthy_def list_all_iff)
    with build_caches_get [OF c(1) assms] c(2) show ?thesis
      by (fastforce simp: registry_get_def JwksCache_new_Inr)
  qed
  ultimately show ?thesis by (auto simp: build_caches_Inr JwksCache_new_Inr)
qed

theorem registry_from_config_spec_witness:
  "is_ok (JwksCacheRegistry_from_config sample_jwt (\<lambda>_. Inr \<lparr>doc_keys = [sample_raw]\<rparr>) 0 (gc_auth sample_config))"
  using registry_from_config_spec [of "gc_auth sample_config" sample_jwt "\<lambda>_. Inr \<lparr>doc_keys = [sample_raw]\<rparr>" 0]
  by (simp add: sample_config_def parse_jwks_keys_def sample_raw_def) (simp add: sample_jwt_def)

text \<open>The staleness threshold \<open>cache_ttl_seconds * 10\<close> is a 64-bit product. Up to
  \<open>u64::MAX / 10\<close> a cache is stale exactly when its last successful fetch is more than ten
  times the configured time ago; beyond, the product wraps around, and validation sets no
  upper limit: with \<open>2^63\<close> seconds the cache is stale after a nanosecond.\<close>

theorem stale_threshold:
  "(uint (ap_cache_ttl_seconds (jc_provider cache)) * 10 < 2 ^ 64 \<longrightarrow>
      (is_stale now cache \<longleftrightarrow>
        int (now - jc_fetched_at cache) > 10 * uint (ap_cache_ttl_seconds (jc_provider cache)) * 10 ^ 9))
   \<and> (ap_cache_ttl_seconds (jc_provider cache) = 2 ^ 63 \<and> jc_fetched_at cache < now \<longrightarrow> is_stale now cache)"
proof -
  let ?t = "ap_cache_ttl_seconds (jc_provider cache)"
  have "is_stale now cache \<longleftrightarrow> int (now - jc_fetched_at cache) > 10 * uint ?t * 10 ^ 9"
    if "uint ?t * 10 < 2 ^ 64"
  proof -
    have "uint (?t * STALE_FACTOR) = uint ?t * 10"
      using that by (simp add: STALE_FACTOR_def uint_word_ariths)
    then have "int (unat (?t * STALE_FACTOR) * 10 ^ 9) = 10 * uint ?t * 10 ^ 9"
      by (simp only: of_nat_mult uint_nat [symmetric] of_nat_power of_nat_numeral mult.commute [of _ "10 :: int"])
    then show ?thesis unfolding is_stale_def by (metis of_nat_less_iff)
  qed
  moreover have "is_stale now cache" if "?t = 2 ^ 63" "jc_fetched_at cache < now"
    using that by (simp add: is_stale_def STALE_FACTOR_def)
  ultimately show ?thesis by blast
qed

theorem stale_threshold_witness:
  "is_stale 1 (sample_cache\<lparr>jc_provider := sample_provider\<lparr>ap_cache_ttl_seconds := 2 ^ 63\<rparr>\<rparr>)"
  using stale_threshold [of "sample_cache\<lparr>jc_provider := sample_provider\<lparr>ap_cache_ttl_seconds := 2 ^ 63\<rparr>\<rparr>" 1]
  by (simp add: sample_cache_def)

text \<open>The status of an authentication failure: 403 exactly for missing scopes, 503
  exactly when the provider or its keys are unavailable, 401 for everything else, and the
  code in the body is never empty.\<close>

theorem auth_error_status:
  "(http_status e = 403 \<longleftrightarrow> e = InsufficientScopes)
   \<and> (http_status e = 503 \<longleftrightarrow> e = AuthProviderUnavailable \<or> (\<exists>m. e = JwksFetch m))
   \<and> http_status e \<in> {401, 403, 503} \<and> error_code e \<noteq> []"
  by (cases e) simp_all

end
