(* ===== verification/Utf8.thy ===== *)
theory Utf8
  imports Prelude
begin

text \<open>
  UTF-8 as the standard library reads it: \<open>String::from_utf8\<close>, which the metrics endpoint
  uses, \<open>OsStr::to_str\<close>, which the plugin loader uses, and \<open>String::from_utf8_lossy\<close>, through
  which every configuration file goes. A string is a list of bytes.
\<close>

subsection \<open>Decoding\<close>

definition byte_at :: "string \<Rightarrow> nat \<Rightarrow> nat" where
  "byte_at s i = (if i < length s then of_char (s ! i) else 0)"

definition is_cont :: "nat \<Rightarrow> bool" where
  "is_cont b \<longleftrightarrow> 128 \<le> b \<and> b < 192"

definition utf8_char_width :: "nat \<Rightarrow> nat" where
  "utf8_char_width b =
     (if b < 128 then 1 else if 194 \<le> b \<and> b \<le> 223 then 2 else if 224 \<le> b \<and> b \<le> 239 then 3
      else if 240 \<le> b \<and> b \<le> 244 then 4 else 0)"

text \<open>The second byte: no overlong forms, no surrogates, nothing above U+10FFFF.\<close>

definition second_ok :: "nat \<Rightarrow> nat \<Rightarrow> bool" where
  "second_ok b c \<longleftrightarrow>
     (if b = 224 then 160 \<le> c \<and> c \<le> 191 else if b = 237 then 128 \<le> c \<and> c \<le> 159
      else if b = 240 then 144 \<le> c \<and> c \<le> 191 else if b = 244 then 128 \<le> c \<and> c \<le> 143 else is_cont c)"

text \<open>Whether the string begins with a character, and the length of the character or of the
  sequence that is not one.\<close>

definition utf8_next :: "string \<Rightarrow> bool \<times> nat" where
  "utf8_next s =
     (let b = byte_at s 0; w = utf8_char_width b
      in if w = 0 then (False, 1)
         else if w = 1 then (True, 1)
         else if \<not> second_ok b (byte_at s 1) then (False, 1)
         else if w = 2 then (True, 2)
         else if \<not> is_cont (byte_at s 2) then (False, 2)
         else if w = 3 then (True, 3)
         else if \<not> is_cont (byte_at s 3) then (False, 3)
         else (True, 4))"

lemma utf8_next_pos: "0 < snd (utf8_next s)"
  by (simp add: utf8_next_def Let_def)

text \<open>\<open>Utf8Error\<close>: \<open>valid_up_to\<close> and \<open>error_len\<close>, which is \<open>None\<close> when the input ends inside a
  character.\<close>

function utf8_error :: "nat \<Rightarrow> string \<Rightarrow> (nat \<times> nat option) option" where
  "utf8_error i [] = None"
| "utf8_error i (c # cs) =
     (let s = c # cs; (ok, n) = utf8_next s
      in if ok then utf8_error (i + n) (drop n s)
         else Some (i, if n = length s \<and> n < utf8_char_width (of_char c) then None else Some n))"
  by pat_completeness auto
termination
proof (relation "measure (\<lambda>(i, s). length s)", goal_cases)
  case (2 i c cs s x ok n)
  then have "0 < n" using utf8_next_pos [of s] by (metis snd_conv)
  with 2 show ?case by simp
qed simp

function from_utf8_lossy :: "string \<Rightarrow> string" where
  "from_utf8_lossy [] = []"
| "from_utf8_lossy (c # cs) =
     (let s = c # cs; (ok, n) = utf8_next s
      in (if ok then take n s else [CHR 0xEF, CHR 0xBF, CHR 0xBD]) @ from_utf8_lossy (drop n s))"
  by pat_completeness auto
termination
proof (relation "measure length", goal_cases)
  case (2 c cs s x ok n)
  then have "0 < n" using utf8_next_pos [of s] by (metis snd_conv)
  with 2 show ?case by simp
qed simp

definition utf8_valid :: "string \<Rightarrow> bool" where
  "utf8_valid s \<longleftrightarrow> utf8_error 0 s = None"

definition from_utf8 :: "string \<Rightarrow> (string, string) result" where
  "from_utf8 s =
     (case utf8_error 0 s of
        None \<Rightarrow> Inr s
      | Some (i, Some n) \<Rightarrow> Inl (''invalid utf-8 sequence of '' @ show_nat n @ '' bytes from index '' @ show_nat i)
      | Some (i, None) \<Rightarrow> Inl (''incomplete utf-8 byte sequence from index '' @ show_nat i))"

subsection \<open>Properties\<close>

declare utf8_error.simps(2) [simp del] from_utf8_lossy.simps(2) [simp del]

lemma utf8_step:
  assumes "utf8_next s = (ok, n)" "s \<noteq> []"
  shows "utf8_error i s = (if ok then utf8_error (i + n) (drop n s)
      else Some (i, if n = length s \<and> n < utf8_char_width (of_char (hd s)) then None else Some n))"
    "from_utf8_lossy s = (if ok then take n s else [CHR 0xEF, CHR 0xBF, CHR 0xBD]) @ from_utf8_lossy (drop n s)"
proof -
  obtain c cs where s: "s = c # cs" using assms(2) by (cases s) auto
  show "utf8_error i s = (if ok then utf8_error (i + n) (drop n s)
      else Some (i, if n = length s \<and> n < utf8_char_width (of_char (hd s)) then None else Some n))"
    using assms(1) unfolding s utf8_error.simps(2) Let_def by simp
  show "from_utf8_lossy s = (if ok then take n s else [CHR 0xEF, CHR 0xBF, CHR 0xBD]) @ from_utf8_lossy (drop n s)"
    using assms(1) unfolding s from_utf8_lossy.simps(2) Let_def by simp
qed

lemma utf8_next_char:
  assumes "utf8_next s = (True, n)" "s \<noteq> []"
  shows "n \<le> length s" "utf8_next (take n s @ t) = (True, n)"
proof -
  have l: "byte_at s i \<noteq> 0 \<Longrightarrow> i < length s" for i by (simp add: byte_at_def split: if_splits)
  have c: "2 \<le> length s" if "second_ok b (byte_at s 1)" for b
  proof -
    have "byte_at s 1 \<noteq> 0" using that by (auto simp: second_ok_def is_cont_def split: if_splits)
    from l [OF this] show ?thesis by simp
  qed
  have d: "Suc i \<le> length s" if "is_cont (byte_at s i)" for i
    using l [of i] that by (auto simp: is_cont_def)
  have "0 < length s" using assms(2) by simp
  with assms(1) c [of "byte_at s 0"] d [of 2] d [of 3] show n: "n \<le> length s"
    by (auto simp del: length_greater_0_conv simp: utf8_next_def Let_def split: if_splits)
  have "byte_at (take n s @ t) i = byte_at s i" if "i < n" for i
    using that n by (simp add: byte_at_def nth_append)
  then show "utf8_next (take n s @ t) = (True, n)" using assms(1)
    by (auto simp: utf8_next_def Let_def split: if_splits)
qed

lemma utf8_error_char:
  assumes "utf8_next s = (True, n)" "s \<noteq> []"
  shows "utf8_error i (take n s @ t) = utf8_error (i + n) t"
proof -
  have n: "0 < n" "n \<le> length s" using utf8_next_pos [of s] utf8_next_char(1) [OF assms] assms(1) by simp_all
  then have "take n s @ t \<noteq> []" "drop n (take n s @ t) = t" using assms(2) by auto
  then show ?thesis using utf8_step(1) [OF utf8_next_char(2) [OF assms, of t]] by simp
qed

text \<open>The result of \<open>from_utf8_lossy\<close> is UTF-8, and only what is not UTF-8 is changed.\<close>

lemma lossy_valid: "utf8_error i (from_utf8_lossy s) = None"
proof (induction s arbitrary: i rule: from_utf8_lossy.induct)
  case (2 c cs)
  obtain ok n where n: "utf8_next (c # cs) = (ok, n)" by fastforce
  have r: "utf8_next [CHR 0xEF, CHR 0xBF, CHR 0xBD] = (True, 3)"
    by (simp add: utf8_next_def byte_at_def second_ok_def is_cont_def utf8_char_width_def)
  show ?case
  proof (cases ok)
    case True
    with n "2.IH" [OF refl n [symmetric] refl] utf8_error_char [of "c # cs" n i] show ?thesis by (simp add: utf8_step(2) [OF n])
  next
    case False
    with n "2.IH" [OF refl n [symmetric] refl] utf8_error_char [OF r, of i] show ?thesis by (simp add: utf8_step(2) [OF n])
  qed
qed simp

lemma lossy_same: "utf8_error i s = None \<Longrightarrow> from_utf8_lossy s = s"
proof (induction s arbitrary: i rule: from_utf8_lossy.induct)
  case (2 c cs)
  obtain ok n where n: "utf8_next (c # cs) = (ok, n)" by fastforce
  with "2.prems" have "ok" "utf8_error (i + n) (drop n (c # cs)) = None" by (auto simp: utf8_step(1) [OF n] split: if_splits)
  with "2.IH" [OF refl n [symmetric] refl] show ?case by (simp add: utf8_step(2) [OF n])
qed simp

lemma utf8_ascii: "\<forall>c \<in> set s. (of_char c :: nat) < 128 \<Longrightarrow> utf8_error i s = None"
  by (induction s arbitrary: i) (simp_all add: utf8_error.simps(2) utf8_next_def byte_at_def utf8_char_width_def)

lemma lossy_ascii [simp]: "\<forall>c \<in> set s. (of_char c :: nat) < 128 \<Longrightarrow> from_utf8_lossy s = s"
  using lossy_same utf8_ascii by blast

lemma utf8_valid_ascii [simp]: "\<forall>c \<in> set s. (of_char c :: nat) < 128 \<Longrightarrow> utf8_valid s"
  by (simp add: utf8_valid_def utf8_ascii)

text \<open>Reading bytes as text: \<open>from_utf8_lossy\<close> always gives UTF-8, leaves exactly the UTF-8 texts
  unchanged, and \<open>from_utf8\<close> accepts exactly these and returns them as they are.\<close>

theorem utf8_reading:
  "utf8_valid (from_utf8_lossy s) \<and> (from_utf8_lossy s = s \<longleftrightarrow> utf8_valid s) \<and> (from_utf8 s = Inr r \<longleftrightarrow> utf8_valid s \<and> r = s)"
  using lossy_valid [of 0 s] lossy_same [of 0 s]
  by (auto simp: utf8_valid_def from_utf8_def split: option.splits)

end
