(* ===== verification/Observability.thy ===== *)
theory Observability
  imports Config_Types Utf8
begin

text \<open>
  Metrics and access logs (\<open>controlplane/src/observability\<close>). The \<open>prometheus\<close> objects are
  not under \<open>src\<close>: a \<open>MetricsRegistry\<close> is the sequence of the calls made on its fields,
  oldest first, with the label values passed. The constructors of \<open>Metric\<close> are the fields
  of the struct, \<open>metric_descs\<close> the options each is created with.
\<close>

subsection \<open>Metrics\<close>

datatype Metric =
  http_requests_total | http_request_duration_ms | auth_failures_total
| rate_limit_allowed_total | rate_limit_denied_total | rate_limit_degraded_total
| upstream_failures_total | config_reload_total | inflight_requests | overload_total
| plugin_duration_us | plugin_errors_total | plugin_chain_duration_us
| plugin_short_circuits_total | xds_connected_envoys | xds_acks_total | xds_nacks_total
| xds_snapshot_version | xds_push_duration_seconds

datatype MetricKind = CounterVec | HistogramVec | IntGauge | IntCounter | Histogram

record MetricDesc =
  md_metric :: Metric
  md_kind :: MetricKind
  md_name :: string
  md_help :: string
  md_labels :: "string list"
  md_buckets :: "f64 list option"

datatype metric_call =
  Inc Metric "string list" | Observe Metric "string list" f64
| GaugeInc Metric | GaugeDec Metric | GaugeSet Metric u64

record MetricsRegistry =
  mr_calls :: "metric_call list"

datatype MetricsError = Registration string | Encoding string

definition status_class :: "u16 \<Rightarrow> string" where
  "status_class status =
     (if 100 \<le> status \<and> status \<le> 199 then ''1xx''
      else if 200 \<le> status \<and> status \<le> 299 then ''2xx''
      else if 300 \<le> status \<and> status \<le> 399 then ''3xx''
      else if 400 \<le> status \<and> status \<le> 499 then ''4xx''
      else ''5xx'')"

definition DURATION_BUCKETS :: "f64 list" where
  "DURATION_BUCKETS = map Fin [1, 5, 10, 25, 50, 100, 250, 500, 1000, 5000]"

definition desc :: "Metric \<Rightarrow> MetricKind \<Rightarrow> string \<Rightarrow> string \<Rightarrow> string list \<Rightarrow> MetricDesc" where
  "desc m k name help labels =
     \<lparr>md_metric = m, md_kind = k, md_name = name, md_help = help, md_labels = labels, md_buckets = None\<rparr>"

text \<open>The options of each metric.\<close>

fun metric_desc :: "Metric \<Rightarrow> MetricDesc" where
  "metric_desc http_requests_total =
     desc http_requests_total CounterVec ''gateway_http_requests_total''
        ''Total HTTP requests processed'' [''route'', ''method'', ''status_class'']"
| "metric_desc http_request_duration_ms =
     (desc http_request_duration_ms HistogramVec ''gateway_http_request_duration_ms''
        ''Request duration in milliseconds'' [''route''])\<lparr>md_buckets := Some DURATION_BUCKETS\<rparr>"
| "metric_desc auth_failures_total =
     desc auth_failures_total CounterVec ''gateway_auth_failures_total''
        ''Authentication failures'' [''route'', ''reason'']"
| "metric_desc rate_limit_allowed_total =
     desc rate_limit_allowed_total CounterVec ''gateway_rate_limit_allowed_total''
        ''Requests allowed by rate limiter'' [''route'']"
| "metric_desc rate_limit_denied_total =
     desc rate_limit_denied_total CounterVec ''gateway_rate_limit_denied_total''
        ''Requests denied by rate limiter'' [''route'']"
| "metric_desc rate_limit_degraded_total =
     desc rate_limit_degraded_total CounterVec ''gateway_rate_limit_degraded_total''
        ''Rate limiting served from degraded fallback'' [''route'']"
| "metric_desc upstream_failures_total =
     desc upstream_failures_total CounterVec ''gateway_upstream_failures_total''
        ''Upstream service failures'' [''route'', ''service'', ''reason'']"
| "metric_desc config_reload_total =
     desc config_reload_total CounterVec ''gateway_config_reload_total''
        ''Configuration reload attempts'' [''result'']"
| "metric_desc inflight_requests =
     desc inflight_requests IntGauge ''gateway_inflight_requests''
        ''Current in-flight HTTP requests'' []"
| "metric_desc overload_total =
     desc overload_total IntCounter ''gateway_overload_total''
        ''Requests rejected due to gateway overload'' []"
| "metric_desc plugin_duration_us =
     desc plugin_duration_us HistogramVec ''gateway_plugin_duration_us''
        ''Per-plugin execution time in microseconds'' [''plugin'', ''route'', ''phase'']"
| "metric_desc plugin_errors_total =
     desc plugin_errors_total CounterVec ''gateway_plugin_errors_total''
        ''Plugin runtime failures'' [''plugin'', ''route'', ''error_type'']"
| "metric_desc plugin_chain_duration_us =
     desc plugin_chain_duration_us HistogramVec ''gateway_plugin_chain_duration_us''
        ''Total plugin chain duration in microseconds'' [''route'']"
| "metric_desc plugin_short_circuits_total =
     desc plugin_short_circuits_total CounterVec ''gateway_plugin_short_circuits_total''
        ''Requests short-circuited by plugins'' [''plugin'', ''route'', ''status'']"
| "metric_desc xds_connected_envoys =
     desc xds_connected_envoys IntGauge ''xds_connected_envoys''
        ''Currently connected Envoy xDS clients'' []"
| "metric_desc xds_acks_total =
     desc xds_acks_total IntCounter ''xds_acks_total'' ''xDS ACKs received'' []"
| "metric_desc xds_nacks_total =
     desc xds_nacks_total IntCounter ''xds_nacks_total'' ''xDS NACKs received'' []"
| "metric_desc xds_snapshot_version =
     desc xds_snapshot_version IntGauge ''xds_snapshot_version''
        ''Current xDS snapshot version'' []"
| "metric_desc xds_push_duration_seconds =
     desc xds_push_duration_seconds Histogram ''xds_push_duration_seconds''
        ''xDS push broadcast duration in seconds'' []"

text \<open>The order in which \<open>new\<close> creates the metrics and then registers them.\<close>

definition metric_descs :: "MetricDesc list" where
  "metric_descs = map metric_desc
     [http_requests_total, http_request_duration_ms, auth_failures_total,
      rate_limit_allowed_total, rate_limit_denied_total, rate_limit_degraded_total,
      upstream_failures_total, config_reload_total, inflight_requests,
      overload_total, plugin_duration_us, plugin_errors_total,
      plugin_chain_duration_us, plugin_short_circuits_total, xds_connected_envoys,
      xds_acks_total, xds_nacks_total, xds_snapshot_version,
      xds_push_duration_seconds]"

text \<open>The \<open>prometheus\<close> crate: an empty registry, the constructors of the metric types, and
  \<open>Registry::register\<close>.\<close>

record 'r prometheus =
  registry_new :: 'r
  metric_new :: "MetricDesc \<Rightarrow> (string, unit) result"
  register_metric :: "'r \<Rightarrow> MetricDesc \<Rightarrow> (string, 'r) result"

fun register_all :: "'r prometheus \<Rightarrow> 'r \<Rightarrow> MetricDesc list \<Rightarrow> (string, 'r) result" where
  "register_all P r [] = Inr r"
| "register_all P r (d # ds) = and_then (register_metric P r d) (\<lambda>r'. register_all P r' ds)"

definition MetricsRegistry_new :: "'r prometheus \<Rightarrow> (MetricsError, 'r \<times> MetricsRegistry) result" where
  "MetricsRegistry_new P =
     map_sum Registration (\<lambda>r. (r, \<lparr>mr_calls = []\<rparr>))
       (and_then (collect_results (metric_new P) metric_descs) (\<lambda>_.
          register_all P (registry_new P) metric_descs))"

definition call :: "metric_call \<Rightarrow> MetricsRegistry \<Rightarrow> MetricsRegistry" where
  "call c m = m\<lparr>mr_calls := mr_calls m @ [c]\<rparr>"

definition record_request :: "string \<Rightarrow> string \<Rightarrow> u16 \<Rightarrow> f64 \<Rightarrow> MetricsRegistry \<Rightarrow> MetricsRegistry" where
  "record_request route meth status duration_ms m =
     call (Observe http_request_duration_ms [route] duration_ms)
       (call (Inc http_requests_total [route, meth, status_class status]) m)"

definition record_auth_failure :: "string \<Rightarrow> string \<Rightarrow> MetricsRegistry \<Rightarrow> MetricsRegistry" where
  "record_auth_failure route reason = call (Inc auth_failures_total [route, reason])"

definition record_rate_limit_allowed :: "string \<Rightarrow> MetricsRegistry \<Rightarrow> MetricsRegistry" where
  "record_rate_limit_allowed route = call (Inc rate_limit_allowed_total [route])"

definition record_rate_limit_denied :: "string \<Rightarrow> MetricsRegistry \<Rightarrow> MetricsRegistry" where
  "record_rate_limit_denied route = call (Inc rate_limit_denied_total [route])"

definition record_rate_limit_degraded :: "string \<Rightarrow> MetricsRegistry \<Rightarrow> MetricsRegistry" where
  "record_rate_limit_degraded route = call (Inc rate_limit_degraded_total [route])"

definition record_upstream_failure :: "string \<Rightarrow> string \<Rightarrow> string \<Rightarrow> MetricsRegistry \<Rightarrow> MetricsRegistry" where
  "record_upstream_failure route service reason =
     call (Inc upstream_failures_total [route, service, reason])"

definition record_config_reload :: "string \<Rightarrow> MetricsRegistry \<Rightarrow> MetricsRegistry" where
  "record_config_reload result = call (Inc config_reload_total [result])"

definition inc_inflight :: "MetricsRegistry \<Rightarrow> MetricsRegistry" where
  "inc_inflight = call (GaugeInc inflight_requests)"

definition dec_inflight :: "MetricsRegistry \<Rightarrow> MetricsRegistry" where
  "dec_inflight = call (GaugeDec inflight_requests)"

definition record_overload :: "MetricsRegistry \<Rightarrow> MetricsRegistry" where
  "record_overload = call (Inc overload_total [])"

definition record_plugin_duration :: "string \<Rightarrow> string \<Rightarrow> string \<Rightarrow> u64 \<Rightarrow> MetricsRegistry \<Rightarrow> MetricsRegistry" where
  "record_plugin_duration plugin route phase duration_us =
     call (Observe plugin_duration_us [plugin, route, phase] (f64_of_u64 duration_us))"

definition record_plugin_error :: "string \<Rightarrow> string \<Rightarrow> string \<Rightarrow> MetricsRegistry \<Rightarrow> MetricsRegistry" where
  "record_plugin_error plugin route error_type =
     call (Inc plugin_errors_total [plugin, route, error_type])"

definition record_plugin_chain_duration :: "string \<Rightarrow> u64 \<Rightarrow> MetricsRegistry \<Rightarrow> MetricsRegistry" where
  "record_plugin_chain_duration route duration_us =
     call (Observe plugin_chain_duration_us [route] (f64_of_u64 duration_us))"

definition record_plugin_short_circuit :: "string \<Rightarrow> string \<Rightarrow> u16 \<Rightarrow> MetricsRegistry \<Rightarrow> MetricsRegistry" where
  "record_plugin_short_circuit plugin route status =
     call (Inc plugin_short_circuits_total [plugin, route, show_nat (unat status)])"

definition set_xds_connected_envoys :: "u64 \<Rightarrow> MetricsRegistry \<Rightarrow> MetricsRegistry" where
  "set_xds_connected_envoys count = call (GaugeSet xds_connected_envoys count)"

definition record_xds_ack :: "MetricsRegistry \<Rightarrow> MetricsRegistry" where
  "record_xds_ack = call (Inc xds_acks_total [])"

definition record_xds_nack :: "MetricsRegistry \<Rightarrow> MetricsRegistry" where
  "record_xds_nack = call (Inc xds_nacks_total [])"

definition set_xds_snapshot_version :: "u64 \<Rightarrow> MetricsRegistry \<Rightarrow> MetricsRegistry" where
  "set_xds_snapshot_version version = call (GaugeSet xds_snapshot_version version)"

definition record_xds_push :: "f64 \<Rightarrow> MetricsRegistry \<Rightarrow> MetricsRegistry" where
  "record_xds_push duration_seconds = call (Observe xds_push_duration_seconds [] duration_seconds)"

text \<open>\<open>gather\<close> stands for \<open>Registry::gather\<close> and \<open>TextEncoder\<close>.\<close>

definition metrics_encode ::
  "(MetricsRegistry \<Rightarrow> (string, string) result) \<Rightarrow> MetricsRegistry \<Rightarrow> (MetricsError, string) result" where
  "metrics_encode gather m =
     map_sum Encoding (\<lambda>s. s) (and_then (gather m) from_utf8)"

lemmas record_defs = record_request_def record_auth_failure_def record_rate_limit_allowed_def
  record_rate_limit_denied_def record_rate_limit_degraded_def record_upstream_failure_def
  record_config_reload_def inc_inflight_def dec_inflight_def record_overload_def
  record_plugin_duration_def record_plugin_error_def record_plugin_chain_duration_def
  record_plugin_short_circuit_def set_xds_connected_envoys_def record_xds_ack_def
  record_xds_nack_def set_xds_snapshot_version_def record_xds_push_def

subsection \<open>Access log\<close>

record AccessLogEntry =
  al_ts :: string
  al_request_id :: string
  al_remote_addr :: string
  al_host :: string
  al_method :: string
  al_path :: string
  al_route :: string
  al_status :: u16
  al_duration_ms :: u64
  al_bytes_in :: u64
  al_bytes_out :: u64
  al_auth_subject :: "string option"
  al_rate_limit_mode :: string
  al_upstream_service :: string
  al_upstream_addr :: string

text \<open>\<open>to_string\<close> is \<open>serde_json::to_string\<close>, \<open>out\<close> the lines of the standard output.\<close>

definition emit :: "(AccessLogEntry \<Rightarrow> (string, string) result) \<Rightarrow> string list \<Rightarrow> AccessLogEntry \<Rightarrow> string list" where
  "emit to_string out entry = (case to_string entry of Inr line \<Rightarrow> out @ [line] | Inl _ \<Rightarrow> out)"

definition hex_digit :: "nat \<Rightarrow> char" where
  "hex_digit d = (if d < 10 then char_of (48 + d) else char_of (87 + d))"

text \<open>\<open>format!("{:08x}")\<close> of a \<open>u32\<close>.\<close>

definition hex8 :: "u32 \<Rightarrow> string" where
  "hex8 w = map (\<lambda>i. hex_digit (unat w div 16 ^ i mod 16)) [7, 6, 5, 4, 3, 2, 1, 0]"

text \<open>\<open>count\<close> is the global \<open>REQUEST_COUNTER\<close>, \<open>nanos\<close> the sub-second part of the clock.\<close>

definition generate_request_id :: "u64 \<Rightarrow> u64 \<Rightarrow> u64 \<times> string" where
  "generate_request_id nanos count =
     (let mixed = Bit_Operations.xor (count * 2654435761) nanos
      in (count + 1, hex8 (ucast mixed)))"

subsection \<open>The calls and the declarations\<close>

text \<open>\<open>with_label_values\<close> panics unless it is given one value per label of the metric.\<close>

fun call_ok :: "metric_call \<Rightarrow> bool" where
  "call_ok (Inc k ls) \<longleftrightarrow> md_kind (metric_desc k) \<in> {CounterVec, IntCounter} \<and> length ls = length (md_labels (metric_desc k))"
| "call_ok (Observe k ls _) \<longleftrightarrow> md_kind (metric_desc k) \<in> {HistogramVec, Histogram} \<and> length ls = length (md_labels (metric_desc k))"
| "call_ok (GaugeInc k) \<longleftrightarrow> md_kind (metric_desc k) = IntGauge"
| "call_ok (GaugeDec k) \<longleftrightarrow> md_kind (metric_desc k) = IntGauge"
| "call_ok (GaugeSet k _) \<longleftrightarrow> md_kind (metric_desc k) = IntGauge"

definition well_labelled :: "MetricsRegistry \<Rightarrow> bool" where
  "well_labelled m = list_all call_ok (mr_calls m)"

lemma metric_desc_declared: "metric_desc k \<in> set metric_descs \<and> md_metric (metric_desc k) = k"
  by (cases k) (simp_all add: metric_descs_def desc_def del: metric_desc.simps, simp_all add: desc_def)

lemma well_labelled_call [simp]: "well_labelled (call c m) \<longleftrightarrow> well_labelled m \<and> call_ok c"
  by (auto simp: well_labelled_def call_def)

lemma well_labelled_records [simp]:
  "well_labelled (record_request r me s d m) = well_labelled m"
  "well_labelled (record_auth_failure r a m) = well_labelled m"
  "well_labelled (record_rate_limit_allowed r m) = well_labelled m"
  "well_labelled (record_rate_limit_denied r m) = well_labelled m"
  "well_labelled (record_rate_limit_degraded r m) = well_labelled m"
  "well_labelled (record_upstream_failure r a b m) = well_labelled m"
  "well_labelled (record_config_reload r m) = well_labelled m"
  "well_labelled (inc_inflight m) = well_labelled m"
  "well_labelled (dec_inflight m) = well_labelled m"
  "well_labelled (record_overload m) = well_labelled m"
  "well_labelled (record_plugin_duration p r ph d' m) = well_labelled m"
  "well_labelled (record_plugin_error p r e m) = well_labelled m"
  "well_labelled (record_plugin_chain_duration r d' m) = well_labelled m"
  "well_labelled (record_plugin_short_circuit p r s m) = well_labelled m"
  "well_labelled (set_xds_connected_envoys n m) = well_labelled m"
  "well_labelled (record_xds_ack m) = well_labelled m"
  "well_labelled (record_xds_nack m) = well_labelled m"
  "well_labelled (set_xds_snapshot_version n m) = well_labelled m"
  "well_labelled (record_xds_push d m) = well_labelled m"
  by (simp_all add: record_defs desc_def)

text \<open>What the calls amount to: how often a metric was incremented with given labels, and
  the value of the in-flight gauge.\<close>

definition count_inc :: "Metric \<Rightarrow> MetricsRegistry \<Rightarrow> nat" where
  "count_inc k m = length (filter (\<lambda>c. case c of Inc k' _ \<Rightarrow> k' = k | _ \<Rightarrow> False) (mr_calls m))"

definition gauge :: "Metric \<Rightarrow> MetricsRegistry \<Rightarrow> int" where
  "gauge k m = foldl (\<lambda>v c. case c of
       GaugeInc k' \<Rightarrow> if k' = k then v + 1 else v
     | GaugeDec k' \<Rightarrow> if k' = k then v - 1 else v
     | GaugeSet k' n \<Rightarrow> if k' = k then sint n else v
     | _ \<Rightarrow> v) 0 (mr_calls m)"

lemma count_inc_call:
  "count_inc k (call c m) = count_inc k m + (case c of Inc k' _ \<Rightarrow> if k' = k then 1 else 0 | _ \<Rightarrow> 0)"
  by (cases c) (auto simp: count_inc_def call_def)

lemma gauge_call:
  "gauge k (call c m) = (case c of
       GaugeInc k' \<Rightarrow> if k' = k then gauge k m + 1 else gauge k m
     | GaugeDec k' \<Rightarrow> if k' = k then gauge k m - 1 else gauge k m
     | GaugeSet k' n \<Rightarrow> if k' = k then sint n else gauge k m
     | _ \<Rightarrow> gauge k m)"
  by (cases c) (auto simp: gauge_def call_def)

end
