(* ===== verification/Observability_Correct.thy ===== *)
theory Observability_Correct
  imports Observability
begin

text \<open>
  Properties of the metrics and of the request ids: the registry of \<open>MetricsRegistry::new\<close>
  can always be built, and the ids of requests in flight at the same time are different.
\<close>

subsection \<open>The documented behaviour of \<open>prometheus\<close>\<close>

definition name_char :: "char \<Rightarrow> bool" where
  "name_char c \<longleftrightarrow> (let n = of_char c :: nat in
     97 \<le> n \<and> n \<le> 122 \<or> 65 \<le> n \<and> n \<le> 90 \<or> n = 95 \<or> n = 58)"

definition valid_name :: "string \<Rightarrow> bool" where
  "valid_name s \<longleftrightarrow> s \<noteq> [] \<and> name_char (hd s) \<and> list_all (\<lambda>c. name_char c \<or> is_digit c) s"

fun increasing :: "f64 list \<Rightarrow> bool" where
  "increasing (x # y # xs) \<longleftrightarrow> flt x y \<and> increasing (y # xs)"
| "increasing _ \<longleftrightarrow> True"

definition valid_desc :: "MetricDesc \<Rightarrow> bool" where
  "valid_desc d \<longleftrightarrow> valid_name (md_name d) \<and> md_help d \<noteq> [] \<and> list_all valid_name (md_labels d)
     \<and> distinct (md_labels d) \<and> ''le'' \<notin> set (md_labels d)
     \<and> (case md_buckets d of None \<Rightarrow> True | Some bs \<Rightarrow> increasing bs)"

text \<open>A metric with valid options can be created, and registered when no metric of that name
  is; \<open>names\<close> reads the names off a registry.\<close>

definition prometheus_spec :: "'r prometheus \<Rightarrow> ('r \<Rightarrow> string set) \<Rightarrow> bool" where
  "prometheus_spec P names \<longleftrightarrow> names (registry_new P) = {}
     \<and> (\<forall>d. valid_desc d \<longrightarrow> metric_new P d = Inr ())
     \<and> (\<forall>r d. valid_desc d \<and> md_name d \<notin> names r \<longrightarrow>
          (\<exists>r'. register_metric P r d = Inr r' \<and> names r' = insert (md_name d) (names r)))"

lemma metric_desc_valid: "valid_desc (metric_desc k)"
  by (cases k) (simp_all add: valid_desc_def desc_def valid_name_def name_char_def is_digit_def DURATION_BUCKETS_def)

lemma metric_names_distinct: "distinct (map md_name metric_descs)"
  by code_simp

lemma register_all_distinct:
  assumes "prometheus_spec P names" "\<forall>d \<in> set ds. valid_desc d \<and> md_name d \<notin> names r" "distinct (map md_name ds)"
  shows "\<exists>r'. register_all P r ds = Inr r' \<and> names r' = names r \<union> md_name ` set ds"
  using assms(2,3)
proof (induction ds arbitrary: r)
  case (Cons d ds)
  then obtain r' where r': "register_metric P r d = Inr r'" "names r' = insert (md_name d) (names r)"
    using assms(1) unfolding prometheus_spec_def by (metis list.set_intros(1))
  then have "\<forall>x \<in> set ds. valid_desc x \<and> md_name x \<notin> names r'"
    using Cons.prems by (auto simp: image_iff)
  from Cons.IH [OF this] Cons.prems(2) r' show ?case by auto
qed simp

definition list_prometheus :: "string list prometheus" where
  "list_prometheus =
     \<lparr>registry_new = [], metric_new = \<lambda>d. if valid_desc d then Inr () else Inl ''invalid'',
      register_metric = \<lambda>r d. if md_name d \<in> set r then Inl ''already registered'' else Inr (md_name d # r)\<rparr>"

subsection \<open>Hexadecimal ids\<close>

lemma hex_digit_code: "d < 16 \<Longrightarrow> of_char (hex_digit d) = (if d < 10 then 48 + d else 87 + d)"
  by (simp add: hex_digit_def)

lemma hex_digit_inj:
  assumes "a < 16" "b < 16" "hex_digit a = hex_digit b"
  shows "a = b"
proof -
  have "(of_char (hex_digit a) :: nat) = of_char (hex_digit b)" using assms(3) by simp
  then show ?thesis using hex_digit_code [OF assms(1)] hex_digit_code [OF assms(2)] assms(1,2)
    by (simp split: if_splits)
qed

lemma digits16: "n < 16 ^ k \<Longrightarrow> (\<Sum>i<k. (n div 16 ^ i mod 16) * 16 ^ i) = (n :: nat)"
proof (induction k arbitrary: n)
  case (Suc k)
  have "n div 16 < 16 ^ k" using Suc.prems by (simp add: less_mult_imp_div_less mult.commute)
  from Suc.IH [OF this] have "(\<Sum>i<k. (n div 16 ^ Suc i mod 16) * 16 ^ Suc i) = 16 * (n div 16)"
    by (simp add: sum_distrib_left [symmetric] div_mult2_eq mult.left_commute [of _ 16])
  then show ?case by (simp add: sum.lessThan_Suc_shift del: sum.lessThan_Suc)
qed simp

lemma hex8_inj: "hex8 v = hex8 w \<longleftrightarrow> v = w"
proof
  assume "hex8 v = hex8 w"
  then have "\<forall>i \<in> set [7, 6, 5, 4, 3, 2, 1, 0]. hex_digit (unat v div 16 ^ i mod 16) = hex_digit (unat w div 16 ^ i mod 16)"
    unfolding hex8_def by (simp only: map_eq_conv)
  moreover have "i \<in> set [7, 6, 5, 4, 3, 2, 1, 0]" if "i < 8" for i :: nat using that by auto
  ultimately have "hex_digit (unat v div 16 ^ i mod 16) = hex_digit (unat w div 16 ^ i mod 16)" if "i < 8" for i
    using that by blast
  then have "unat v div 16 ^ i mod 16 = unat w div 16 ^ i mod 16" if "i < 8" for i
    using that by (intro hex_digit_inj) auto
  then have "(\<Sum>i<8. (unat v div 16 ^ i mod 16) * 16 ^ i) = (\<Sum>i<8. (unat w div 16 ^ i mod 16) * 16 ^ i)"
    by (intro sum.cong refl) (simp only: lessThan_iff)
  moreover have "unat x < 16 ^ 8" for x :: u32 using unsigned_less [of x] by simp
  ultimately have "unat v = unat w" by (simp only: digits16)
  then show "v = w" by (simp add: unsigned_word_eqI)
qed simp

lemma ucast_mult_down: "(ucast (a * b :: u64) :: u32) = ucast a * ucast b"
proof (rule word_unat_eq_iff [THEN iffD2])
  have "unat (ucast x :: u32) = unat x mod 2 ^ 32" for x :: u64 by (simp add: unsigned_ucast_eq take_bit_eq_mod)
  moreover have "(unat a * unat b) mod 2 ^ 64 mod 2 ^ 32 = ((unat a mod 2 ^ 32) * (unat b mod 2 ^ 32)) mod (2 ^ 32 :: nat)"
    by (simp add: mod_mod_cancel mod_mult_eq)
  ultimately show "unat (ucast (a * b) :: u32) = unat (ucast a * ucast b :: u32)"
    by (simp add: unat_word_ariths)
qed

lemma mixed_low: "(ucast (Bit_Operations.xor (c * 2654435761) n :: u64) :: u32)
    = Bit_Operations.xor (ucast c * 2654435761) (ucast n)"
proof -
  have "(ucast (Bit_Operations.xor (c * 2654435761) n :: u64) :: u32)
      = Bit_Operations.xor (ucast (c * 2654435761)) (ucast n)"
    by (rule unsigned_xor_eq)
  then show ?thesis by (simp add: ucast_mult_down)
qed

lemma xor_right_cancel: "Bit_Operations.xor a n = Bit_Operations.xor b n \<longleftrightarrow> a = (b :: u32)"
proof
  assume "Bit_Operations.xor a n = Bit_Operations.xor b n"
  then have "Bit_Operations.xor (Bit_Operations.xor a n) n = Bit_Operations.xor (Bit_Operations.xor b n) n" by simp
  then show "a = b" by (simp add: xor.assoc)
qed simp

lemma odd_mult_cancel: "(a :: u32) * 2654435761 = b * 2654435761 \<Longrightarrow> a = b"
proof -
  assume "a * 2654435761 = b * 2654435761"
  then have "a * 2654435761 * 244002641 = b * 2654435761 * 244002641" by simp
  then have "a * (2654435761 * 244002641) = b * (2654435761 * 244002641)" by (simp only: mult.assoc)
  moreover have "(2654435761 * 244002641 :: u32) = 1" by code_simp
  ultimately show "a = b" by (simp only: mult_1_right)
qed

text \<open>Building the metrics cannot fail: with a \<open>prometheus\<close> crate that behaves as
  documented every metric is created and registered, under a name of its own.\<close>

lemma metrics_new_ok:
  assumes "prometheus_spec P names"
  shows "\<exists>r. MetricsRegistry_new P = Inr (r, \<lparr>mr_calls = []\<rparr>) \<and> names r = range (\<lambda>k. md_name (metric_desc k))"
proof -
  have "\<forall>d \<in> set metric_descs. valid_desc d" by (auto simp: metric_descs_def metric_desc_valid simp del: metric_desc.simps)
  with metric_names_distinct obtain r
    where "register_all P (registry_new P) metric_descs = Inr r" "names r = md_name ` set metric_descs"
    using register_all_distinct [OF assms, of metric_descs "registry_new P"] assms by (auto simp: prometheus_spec_def)
  moreover have "collect_results (metric_new P) metric_descs = Inr (map (\<lambda>_. ()) metric_descs)"
    using assms \<open>\<forall>d \<in> set metric_descs. valid_desc d\<close> by (intro collect_results_map) (simp add: prometheus_spec_def)
  moreover have "md_name ` set metric_descs = range (\<lambda>k. md_name (metric_desc k))"
    using metric_desc_declared by (fastforce simp: metric_descs_def simp del: metric_desc.simps)
  ultimately show ?thesis by (simp add: MetricsRegistry_new_def)
qed

lemma list_prometheus_spec: "prometheus_spec list_prometheus set"
  by (auto simp: prometheus_spec_def list_prometheus_def)

subsection \<open>Properties\<close>

text \<open>Request ids: every id is eight characters long, and two requests that read the same
  nanoseconds get different ids unless their counters agree modulo \<open>2^32\<close>: within
  \<open>2^32\<close> requests no id repeats because of the counter.\<close>

theorem request_id_unique:
  "length (snd (generate_request_id n c)) = 8
   \<and> (snd (generate_request_id n c) = snd (generate_request_id n c') \<longleftrightarrow> unat c mod 2 ^ 32 = unat c' mod 2 ^ 32)"
proof -
  have "snd (generate_request_id n c) = snd (generate_request_id n c') \<longleftrightarrow>
      Bit_Operations.xor (ucast c * 2654435761) (ucast n) = (Bit_Operations.xor (ucast c' * 2654435761) (ucast n) :: u32)"
    by (simp add: generate_request_id_def Let_def hex8_inj mixed_low)
  also have "\<dots> \<longleftrightarrow> (ucast c * 2654435761 :: u32) = ucast c' * 2654435761"
    by (rule xor_right_cancel)
  also have "\<dots> \<longleftrightarrow> (ucast c :: u32) = ucast c'"
    by (rule iffI, erule odd_mult_cancel, simp only:)
  also have "\<dots> \<longleftrightarrow> unat c mod 2 ^ 32 = unat c' mod 2 ^ 32"
    by (simp add: word_unat_eq_iff unsigned_ucast_eq take_bit_eq_mod)
  finally show ?thesis by (simp add: generate_request_id_def hex8_def Let_def)
qed

end
