(* ===== verification/Ext_Proc.thy ===== *)
theory Ext_Proc
  imports Prelude
begin

text \<open>
  The external processor (\<open>controlplane/src/extproc\<close>): the messages of
  \<open>external_processor.proto\<close>, the stateless processor, and the loop that answers a stream.
\<close>

subsection \<open>Messages\<close>

record HeaderValue =
  hv_key :: string
  hv_value :: string

record HeaderValueOption =
  hvo_header :: "HeaderValue option"

record HeaderMutation =
  hm_set_headers :: "HeaderValueOption list"
  hm_remove_headers :: "string list"

record ImmediateResponse =
  ir_status :: u32
  ir_body :: string
  ir_header_mutation :: "HeaderMutation option"

record RequestHeaders =
  rh_headers :: "HeaderValue list"
  rh_method :: string
  rh_path :: string

record HttpBody =
  hb_body :: "u8 list"
  hb_end_of_stream :: bool

record ResponseHeaders =
  sh_headers :: "HeaderValue list"
  sh_status :: u32

record CommonResponse =
  cr_header_mutation :: "HeaderMutation option"
  cr_immediate_response :: "ImmediateResponse option"
  cr_clear_route_cache :: bool

datatype ProcessingRequestKind =
  ReqRequestHeaders RequestHeaders | ReqRequestBody HttpBody
| ReqResponseHeaders ResponseHeaders | ReqResponseBody HttpBody

text \<open>\<open>HeadersResponse\<close> and \<open>BodyResponse\<close> hold an optional \<open>CommonResponse\<close> each.\<close>

datatype ProcessingResponseKind =
  RespRequestHeaders "CommonResponse option" | RespRequestBody "CommonResponse option"
| RespResponseHeaders "CommonResponse option" | RespResponseBody "CommonResponse option"
| RespImmediate ImmediateResponse

type_synonym ProcessingRequest = "ProcessingRequestKind option"
type_synonym ProcessingResponse = "ProcessingResponseKind option"

subsection \<open>The processor\<close>

definition no_mutation :: CommonResponse where
  "no_mutation = \<lparr>cr_header_mutation = None, cr_immediate_response = None, cr_clear_route_cache = False\<rparr>"

definition empty_body_response :: "bool \<Rightarrow> ProcessingResponse" where
  "empty_body_response is_request =
     Some (if is_request then RespRequestBody (Some no_mutation) else RespResponseBody (Some no_mutation))"

definition find_header :: "string \<Rightarrow> HeaderValue list \<Rightarrow> HeaderValue option" where
  "find_header name headers = find (\<lambda>h. eq_ignore_ascii_case (hv_key h) name) headers"

definition process :: "ProcessingRequest \<Rightarrow> ProcessingResponse" where
  "process request =
     (case request of
        Some (ReqRequestHeaders headers) \<Rightarrow>
          (case find_header ''x-ext-proc-immediate-status'' (rh_headers headers) of
             Some status_header \<Rightarrow>
               Some (RespImmediate
                 \<lparr>ir_status = (case parse_uint (2 ^ 32) (hv_value status_header) of Some n \<Rightarrow> of_nat n | None \<Rightarrow> 403),
                  ir_body = (case find_header ''x-ext-proc-immediate-body'' (rh_headers headers) of
                     Some h \<Rightarrow> hv_value h | None \<Rightarrow> ''blocked by ext_proc''),
                  ir_header_mutation = None\<rparr>)
           | None \<Rightarrow>
               (let mutation = map_option (\<lambda>(key, value).
                      \<lparr>hm_set_headers = [\<lparr>hvo_header = Some \<lparr>hv_key = trim key, hv_value = trim value\<rparr>\<rparr>],
                       hm_remove_headers = []\<rparr>)
                    (Option.bind (find_header ''x-ext-proc-set-header'' (rh_headers headers))
                      (\<lambda>h. split_once (CHR ''='') (hv_value h)))
                in Some (RespRequestHeaders (Some
                     \<lparr>cr_header_mutation = mutation, cr_immediate_response = None, cr_clear_route_cache = False\<rparr>))))
      | Some (ReqRequestBody _) \<Rightarrow> empty_body_response True
      | Some (ReqResponseHeaders _) \<Rightarrow> Some (RespResponseHeaders (Some no_mutation))
      | Some (ReqResponseBody _) \<Rightarrow> empty_body_response False
      | None \<Rightarrow> None)"

subsection \<open>The stream\<close>

text \<open>The items that arrive, each a message or the status of a failed stream, and the items
  sent back; the \<open>k\<close>-th send succeeds when \<open>open_at k\<close>: the client still reads.\<close>

fun process_stream ::
  "(nat \<Rightarrow> bool) \<Rightarrow> nat \<Rightarrow> ('s, ProcessingRequest) result list \<Rightarrow> ('s, ProcessingResponse) result list" where
  "process_stream open_at k [] = []"
| "process_stream open_at k (Inr message # inbound) =
     (if open_at k then Inr (process message) # process_stream open_at (Suc k) inbound else [])"
| "process_stream open_at k (Inl status # inbound) = (if open_at k then [Inl status] else [])"

subsection \<open>Properties\<close>

text \<open>The kind of answer that Envoy accepts for a message.\<close>

fun answers :: "ProcessingRequest \<Rightarrow> ProcessingResponse \<Rightarrow> bool" where
  "answers None r \<longleftrightarrow> r = None"
| "answers (Some (ReqRequestHeaders h)) r \<longleftrightarrow>
     (if find_header ''x-ext-proc-immediate-status'' (rh_headers h) \<noteq> None
      then (\<exists>i. r = Some (RespImmediate i)) else (\<exists>c. r = Some (RespRequestHeaders (Some c))))"
| "answers (Some (ReqRequestBody _)) r \<longleftrightarrow> (\<exists>c. r = Some (RespRequestBody (Some c)))"
| "answers (Some (ReqResponseHeaders _)) r \<longleftrightarrow> (\<exists>c. r = Some (RespResponseHeaders (Some c)))"
| "answers (Some (ReqResponseBody _)) r \<longleftrightarrow> (\<exists>c. r = Some (RespResponseBody (Some c)))"

lemma process_answers: "answers m (process m)"
proof (cases m)
  case (Some k)
  then show ?thesis
    by (cases k) (auto simp: process_def empty_body_response_def Let_def split: option.splits)
qed (simp add: process_def)

lemma process_stream_messages:
  "\<forall>k. open_at k \<Longrightarrow> process_stream open_at k (map Inr ms @ rest) = map (\<lambda>m. Inr (process m)) ms @ process_stream open_at (k + length ms) rest"
  by (induction ms arbitrary: k) auto

text \<open>C31. The stream protocol: while the client reads, the messages before the first error are
  answered one by one and in order, each with the kind of response that belongs to it (an
  immediate response exactly when the client sent the header that asks for one), the error
  is passed on, and nothing follows it.\<close>

theorem ext_proc_stream:
  "process_stream (\<lambda>_. True) k (map Inr ms @ Inl st # rest) = map (\<lambda>m. Inr (process m)) ms @ [Inl st]
   \<and> process_stream (\<lambda>_. True) k (map Inr ms) = map (\<lambda>m. Inr (process m) :: ('s, _) result) ms
   \<and> list_all2 answers ms (map process ms)"
  using process_stream_messages [of "\<lambda>_. True" k ms "Inl st # rest"]
    process_stream_messages [of "\<lambda>_. True" k ms "[] :: ('s, _) result list"]
  by (simp add: list_all2_conv_all_nth process_answers)

end
