(* ===== verification/Xds.thy ===== *)
theory Xds
  imports Observability
begin

text \<open>
  The xDS control plane (\<open>controlplane/src/xds\<close>): the protobuf messages it fills
  (\<open>proto/envoy\<close>), the resources built from a configuration, the snapshot of one version,
  the registry of connected Envoys and the ADS stream. Serialisation of a message
  (\<open>prost::Message::encode\<close>) is the parameter \<open>enc\<close>.
\<close>

subsection \<open>Messages\<close>

record Any =
  any_type_url :: string
  any_value :: "u8 list"

record Duration =
  pd_seconds :: "64 word"
  pd_nanos :: "32 word"

record SocketAddress =
  so_address :: string
  so_port_value :: u32

datatype Address = Address (ad_socket_address: "SocketAddress option")

record HealthCheck =
  hk_timeout :: "Duration option"
  hk_interval :: "Duration option"
  hk_path :: string
  hk_unhealthy_threshold :: u32
  hk_healthy_threshold :: u32

datatype LbEndpoint = LbEndpoint (le_address: "Address option")

datatype LocalityLbEndpoints = LocalityLbEndpoints (ll_lb_endpoints: "LbEndpoint list")

record ClusterLoadAssignment =
  ca_cluster_name :: string
  ca_endpoints :: "LocalityLbEndpoints list"

record Cluster =
  cu_name :: string
  cu_type :: string
  cu_lb_policy :: string
  cu_connect_timeout :: "Duration option"
  cu_load_assignment :: "ClusterLoadAssignment option"
  cu_health_checks :: "HealthCheck list"

record RetryPolicy =
  rp_retry_on :: string
  rp_num_retries :: u32

record RouteAction =
  ra_cluster :: string
  ra_timeout :: "Duration option"
  ra_retry_policy :: "RetryPolicy option"

datatype RouteMatch = RouteMatch (rm_prefix: string)

record Route =
  ro_match :: "RouteMatch option"
  ro_route :: "RouteAction option"

record VirtualHost =
  vh_name :: string
  vh_domains :: "string list"
  vh_routes :: "Route list"

record RouteConfiguration =
  rg_name :: string
  rg_virtual_hosts :: "VirtualHost list"

text \<open>\<open>Filter\<close> and \<open>HttpFilter\<close> have the same two fields.\<close>

record Filter =
  fi_name :: string
  fi_typed_config :: "Any option"

record Rds =
  rds_route_config_name :: string
  rds_config_source :: string

record HttpConnectionManager =
  hcm_stat_prefix :: string
  hcm_generate_request_id :: bool
  hcm_idle_timeout :: "Duration option"
  hcm_rds :: "Rds option"
  hcm_http_filters :: "Filter list"

record Listener =
  ls_name :: string
  ls_address :: "Address option"
  ls_filter_chains :: "Filter list list"

datatype Message =
  MsgCluster Cluster | MsgAssignment ClusterLoadAssignment | MsgListener Listener
| MsgRouteConfiguration RouteConfiguration | MsgHttpConnectionManager HttpConnectionManager
| MsgExtAuthz string | MsgExtProc string | MsgRouter

type_synonym encoder = "Message \<Rightarrow> (string, u8 list) result"

subsection \<open>Resources\<close>

datatype ResourceError = InvalidEndpoint string | Encode string

definition CLUSTER_TYPE_URL :: string where
  "CLUSTER_TYPE_URL = ''type.googleapis.com/envoy.config.cluster.v3.Cluster''"

definition ENDPOINT_TYPE_URL :: string where
  "ENDPOINT_TYPE_URL = ''type.googleapis.com/envoy.config.endpoint.v3.ClusterLoadAssignment''"

definition LISTENER_TYPE_URL :: string where
  "LISTENER_TYPE_URL = ''type.googleapis.com/envoy.config.listener.v3.Listener''"

definition ROUTE_TYPE_URL :: string where
  "ROUTE_TYPE_URL = ''type.googleapis.com/envoy.config.route.v3.RouteConfiguration''"

definition TYPE_URLS_IN_ORDER :: "string list" where
  "TYPE_URLS_IN_ORDER = [CLUSTER_TYPE_URL, ENDPOINT_TYPE_URL, LISTENER_TYPE_URL, ROUTE_TYPE_URL]"

definition pack_any :: "encoder \<Rightarrow> string \<Rightarrow> Message \<Rightarrow> (ResourceError, Any) result" where
  "pack_any enc type_url message =
     map_sum Encode (\<lambda>value. \<lparr>any_type_url = type_url, any_value = value\<rparr>) (enc message)"

definition parse_endpoint :: "string \<Rightarrow> (ResourceError, string \<times> u16) result" where
  "parse_endpoint endpoint =
     (case rsplit_once CHR '':'' endpoint of
        None \<Rightarrow> Inl (InvalidEndpoint endpoint)
      | Some (host, port_str) \<Rightarrow>
          (case parse_uint (2 ^ 16) port_str of
             None \<Rightarrow> Inl (InvalidEndpoint endpoint)
           | Some port \<Rightarrow> if host = [] then Inl (InvalidEndpoint endpoint) else Inr (host, of_nat port)))"

definition duration :: "u64 \<Rightarrow> Duration" where
  "duration ms = \<lparr>pd_seconds = ms div 1000, pd_nanos = ucast ((ms mod 1000) * 1000000)\<rparr>"

definition socket_address :: "string \<Rightarrow> u16 \<Rightarrow> Address" where
  "socket_address host port = Address (Some \<lparr>so_address = host, so_port_value = ucast port\<rparr>)"

definition build_cluster_assignment :: "ServiceConfig \<Rightarrow> (ResourceError, ClusterLoadAssignment) result" where
  "build_cluster_assignment service =
     and_then (collect_results (\<lambda>endpoint.
         and_then (parse_endpoint endpoint) (\<lambda>(host, port). Inr (LbEndpoint (Some (socket_address host port)))))
       (sc_endpoints service)) (\<lambda>endpoints.
     Inr \<lparr>ca_cluster_name = sc_name service, ca_endpoints = [LocalityLbEndpoints endpoints]\<rparr>)"

text \<open>\<open>BTreeMap::entry(k).or_insert(d)\<close> followed by \<open>f\<close> on the value; the entries are
  in the order of the keys.\<close>

fun btree_entry :: "'k :: linorder \<Rightarrow> 'v \<Rightarrow> ('v \<Rightarrow> 'v) \<Rightarrow> ('k \<times> 'v) list \<Rightarrow> ('k \<times> 'v) list" where
  "btree_entry k d f [] = [(k, f d)]"
| "btree_entry k d f ((k', v) # m) =
     (if k < k' then (k, f d) # (k', v) # m
      else if k = k' then (k', f v) # m
      else (k', v) # btree_entry k d f m)"

definition xds_route :: "RouteConfig \<Rightarrow> Route" where
  "xds_route route =
     \<lparr>ro_match = Some (RouteMatch (rc_path_prefix route)),
      ro_route = Some
        \<lparr>ra_cluster = uc_service (rc_upstream route),
         ra_timeout = Some (duration (uc_request_timeout_ms (rc_upstream route))),
         ra_retry_policy = (if uc_retries (rc_upstream route) > 0
           then Some \<lparr>rp_retry_on = ''5xx,connect-failure'', rp_num_retries = uc_retries (rc_upstream route)\<rparr>
           else None)\<rparr>\<rparr>"

definition add_route ::
  "(string list \<times> Route list) list \<times> (string list \<times> string) list \<Rightarrow> RouteConfig
    \<Rightarrow> (string list \<times> Route list) list \<times> (string list \<times> string) list" where
  "add_route gn route =
     (let key = sort (rc_hostnames route) in
      (btree_entry key [] (\<lambda>rs. rs @ [xds_route route]) (fst gn),
       btree_entry key (rc_name route) (\<lambda>n. n) (snd gn)))"

definition build_virtual_hosts :: "RouteConfig list \<Rightarrow> VirtualHost list" where
  "build_virtual_hosts routes =
     (let (groups, names) = foldl add_route ([], []) routes in
      map (\<lambda>(domains, rs).
        \<lparr>vh_name = (case map_of names domains of Some n \<Rightarrow> n | None \<Rightarrow> ''vhost''),
         vh_domains = domains, vh_routes = rs\<rparr>) groups)"

definition build_http_filters :: "encoder \<Rightarrow> GatewayConfig \<Rightarrow> (ResourceError, Filter list) result" where
  "build_http_filters enc config =
     and_then (case gs_extauthz_address (gc_gateway config) of
         Some ext_authz \<Rightarrow> and_then (pack_any enc
             ''type.googleapis.com/envoy.extensions.filters.http.ext_authz.v3.ExtAuthz'' (MsgExtAuthz ext_authz))
           (\<lambda>a. Inr [\<lparr>fi_name = ''envoy.filters.http.ext_authz'', fi_typed_config = Some a\<rparr>])
       | None \<Rightarrow> Inr []) (\<lambda>authz.
     and_then (if ep_enabled (gc_ext_proc config)
         then and_then (pack_any enc
             ''type.googleapis.com/envoy.extensions.filters.http.ext_proc.v3.ExtProc''
             (MsgExtProc (ep_listen_address (gc_ext_proc config))))
           (\<lambda>a. Inr [\<lparr>fi_name = ''envoy.filters.http.ext_proc'', fi_typed_config = Some a\<rparr>])
         else Inr []) (\<lambda>proc.
     and_then (pack_any enc
         ''type.googleapis.com/envoy.extensions.filters.http.router.v3.Router'' MsgRouter) (\<lambda>a.
     Inr (authz @ proc @ [\<lparr>fi_name = ''envoy.filters.http.router'', fi_typed_config = Some a\<rparr>]))))"

definition build_listener :: "encoder \<Rightarrow> GatewayConfig \<Rightarrow> (ResourceError, Any) result" where
  "build_listener enc config =
     and_then (build_http_filters enc config) (\<lambda>filters.
     and_then (parse_endpoint (gs_listen_address (gc_gateway config))) (\<lambda>(host, port).
     and_then (pack_any enc
         ''type.googleapis.com/envoy.extensions.filters.network.http_connection_manager.v3.HttpConnectionManager''
         (MsgHttpConnectionManager
           \<lparr>hcm_stat_prefix = ''ingress_http'', hcm_generate_request_id = True,
            hcm_idle_timeout = Some (duration (gs_idle_timeout_ms (gc_gateway config))),
            hcm_rds = Some \<lparr>rds_route_config_name = ''gateway-routes'', rds_config_source = ''ads''\<rparr>,
            hcm_http_filters = filters\<rparr>)) (\<lambda>hcm.
     pack_any enc LISTENER_TYPE_URL (MsgListener
       \<lparr>ls_name = ''main_listener'', ls_address = Some (socket_address host port),
        ls_filter_chains = [[\<lparr>fi_name = ''envoy.filters.network.http_connection_manager'',
          fi_typed_config = Some hcm\<rparr>]]\<rparr>))))"

definition build_route_config :: "encoder \<Rightarrow> GatewayConfig \<Rightarrow> (ResourceError, Any) result" where
  "build_route_config enc config =
     pack_any enc ROUTE_TYPE_URL (MsgRouteConfiguration
       \<lparr>rg_name = ''gateway-routes'', rg_virtual_hosts = build_virtual_hosts (gc_routes config)\<rparr>)"

definition xds_cluster :: "ServiceConfig \<Rightarrow> ClusterLoadAssignment \<Rightarrow> Cluster" where
  "xds_cluster service assignment =
     (let hc = sc_health_check service in
      \<lparr>cu_name = sc_name service, cu_type = ''STRICT_DNS'', cu_lb_policy = ''ROUND_ROBIN'',
       cu_connect_timeout = Some (duration (hc_timeout_ms hc)), cu_load_assignment = Some assignment,
       cu_health_checks = [\<lparr>hk_timeout = Some (duration (hc_timeout_ms hc)),
         hk_interval = Some (duration (hc_interval_ms hc)), hk_path = hc_path hc,
         hk_unhealthy_threshold = 3, hk_healthy_threshold = 1\<rparr>]\<rparr>)"

definition build_clusters :: "encoder \<Rightarrow> GatewayConfig \<Rightarrow> (ResourceError, Any list) result" where
  "build_clusters enc config =
     collect_results (\<lambda>service.
       and_then (build_cluster_assignment service) (\<lambda>assignment.
         pack_any enc CLUSTER_TYPE_URL (MsgCluster (xds_cluster service assignment))))
       (gc_services config)"

definition build_endpoints :: "encoder \<Rightarrow> GatewayConfig \<Rightarrow> (ResourceError, Any list) result" where
  "build_endpoints enc config =
     collect_results (\<lambda>service.
       and_then (build_cluster_assignment service) (\<lambda>assignment.
         pack_any enc ENDPOINT_TYPE_URL (MsgAssignment assignment)))
       (gc_services config)"

subsection \<open>Snapshots\<close>

record DiscoveryResponse =
  dr_version_info :: string
  dr_resources :: "Any list"
  dr_type_url :: string
  dr_nonce :: string

record XdsSnapshot =
  xs_version :: u64
  xs_nonce :: string
  xs_resources :: "string \<rightharpoonup> Any list"

definition XdsSnapshot_build :: "encoder \<Rightarrow> GatewayConfig \<Rightarrow> u64 \<Rightarrow> (ResourceError, XdsSnapshot) result" where
  "XdsSnapshot_build enc config version =
     and_then (build_clusters enc config) (\<lambda>clusters.
     and_then (build_endpoints enc config) (\<lambda>endpoints.
     and_then (build_listener enc config) (\<lambda>listener.
     and_then (build_route_config enc config) (\<lambda>route_config.
     Inr \<lparr>xs_version = version, xs_nonce = ''snapshot-'' @ show_nat (unat version),
          xs_resources = [CLUSTER_TYPE_URL \<mapsto> clusters, ENDPOINT_TYPE_URL \<mapsto> endpoints,
            LISTENER_TYPE_URL \<mapsto> [listener], ROUTE_TYPE_URL \<mapsto> [route_config]]\<rparr>))))"

definition response_for :: "XdsSnapshot \<Rightarrow> string \<Rightarrow> DiscoveryResponse option" where
  "response_for s type_url =
     map_option (\<lambda>resources. \<lparr>dr_version_info = show_nat (unat (xs_version s)), dr_resources = resources,
       dr_type_url = type_url, dr_nonce = xs_nonce s\<rparr>) (xs_resources s type_url)"

definition ordered_responses :: "XdsSnapshot \<Rightarrow> DiscoveryResponse list" where
  "ordered_responses s = List.map_filter (response_for s) TYPE_URLS_IN_ORDER"

end
