(* ===== verification/Xds_Server.thy ===== *)
theory Xds_Server
  imports Xds
begin

text \<open>
  The state of the xDS control plane and its operations (\<open>xds/version.rs\<close>,
  \<open>registry.rs\<close>, \<open>server.rs\<close>). A stream is named by a number. The channel to its client
  and its status record are shared between the task of the stream and the registry, so
  both live in stores indexed by that number, and the registry maps a node id to the
  number of the stream that registered it. The capacity of a channel only delays a send:
  \<open>send\<close> fails exactly when the client has gone, and a channel is the list of what was
  sent. \<open>DashMap\<close> iterates in no specified order; here it is the order of insertion.
\<close>

subsection \<open>State\<close>

record VersionCounter =
  vc_next :: u64

definition VersionCounter_new :: "u64 \<Rightarrow> VersionCounter" where
  "VersionCounter_new initial = \<lparr>vc_next = initial\<rparr>"

definition increment :: "VersionCounter \<Rightarrow> VersionCounter \<times> u64" where
  "increment v = (v\<lparr>vc_next := vc_next v + 1\<rparr>, vc_next v + 1)"

record EnvoyConnectionStatus =
  es_node_id :: string
  es_last_type_url :: "string option"
  es_last_acked_version :: "string option"
  es_last_nonce :: "string option"
  es_last_nack :: "string option"

record Channel =
  chn_open :: bool
  chn_sent :: "DiscoveryResponse list"

record XdsControlPlane =
  xp_snapshot :: XdsSnapshot
  xp_versions :: VersionCounter
  xp_connections :: "(string \<times> nat) list"
  xp_statuses :: "nat \<Rightarrow> EnvoyConnectionStatus"
  xp_channels :: "nat \<Rightarrow> Channel"
  xp_metrics :: MetricsRegistry

definition fresh_status :: "string \<Rightarrow> EnvoyConnectionStatus" where
  "fresh_status node_id = \<lparr>es_node_id = node_id, es_last_type_url = None, es_last_acked_version = None,
     es_last_nonce = None, es_last_nack = None\<rparr>"

subsection \<open>Registry\<close>

definition register :: "string \<Rightarrow> nat \<Rightarrow> XdsControlPlane \<Rightarrow> XdsControlPlane" where
  "register node_id sid cp =
     cp\<lparr>xp_statuses := (xp_statuses cp)(sid := fresh_status node_id),
        xp_connections := mapping_insert node_id sid (xp_connections cp)\<rparr>"

definition remove :: "string \<Rightarrow> XdsControlPlane \<Rightarrow> XdsControlPlane" where
  "remove node_id cp = cp\<lparr>xp_connections := filter (\<lambda>(n, _). n \<noteq> node_id) (xp_connections cp)\<rparr>"

text \<open>Sends until one fails; the flag tells whether one did.\<close>

fun send_all :: "DiscoveryResponse list \<Rightarrow> Channel \<Rightarrow> Channel \<times> bool" where
  "send_all [] ch = (ch, False)"
| "send_all (r # rs) ch =
     (if chn_open ch then send_all rs (ch\<lparr>chn_sent := chn_sent ch @ [r]\<rparr>) else (ch, True))"

fun broadcast_to ::
  "DiscoveryResponse list \<Rightarrow> (string \<times> nat) list \<Rightarrow> (nat \<Rightarrow> Channel) \<Rightarrow> (nat \<Rightarrow> Channel) \<times> string list" where
  "broadcast_to responses [] chans = (chans, [])"
| "broadcast_to responses ((node_id, sid) # conns) chans =
     (let (ch, failed) = send_all responses (chans sid);
          (chans', disconnected) = broadcast_to responses conns (chans(sid := ch))
      in (chans', if failed then node_id # disconnected else disconnected))"

definition broadcast :: "DiscoveryResponse list \<Rightarrow> XdsControlPlane \<Rightarrow> XdsControlPlane" where
  "broadcast responses cp =
     (let (chans, disconnected) = broadcast_to responses (xp_connections cp) (xp_channels cp)
      in fold remove disconnected (cp\<lparr>xp_channels := chans\<rparr>))"

definition statuses :: "XdsControlPlane \<Rightarrow> EnvoyConnectionStatus list" where
  "statuses cp = sort_key es_node_id (map (\<lambda>(_, sid). xp_statuses cp sid) (xp_connections cp))"

definition connected_envoys :: "XdsControlPlane \<Rightarrow> u64" where
  "connected_envoys cp = of_nat (length (xp_connections cp))"

subsection \<open>Control plane\<close>

definition XdsControlPlane_new ::
  "encoder \<Rightarrow> GatewayConfig \<Rightarrow> MetricsRegistry \<Rightarrow> (ResourceError, XdsControlPlane) result" where
  "XdsControlPlane_new enc config metrics =
     and_then (XdsSnapshot_build enc config 1) (\<lambda>snapshot.
     Inr \<lparr>xp_snapshot = snapshot, xp_versions = VersionCounter_new 1, xp_connections = [],
          xp_statuses = \<lambda>_. fresh_status [], xp_channels = \<lambda>_. \<lparr>chn_open = False, chn_sent = []\<rparr>,
          xp_metrics = set_xds_snapshot_version 1 metrics\<rparr>)"

text \<open>\<open>elapsed\<close> is the duration of the push in seconds.\<close>

definition rebuild_from_config ::
  "encoder \<Rightarrow> f64 \<Rightarrow> GatewayConfig \<Rightarrow> XdsControlPlane \<Rightarrow> XdsControlPlane \<times> (ResourceError, unit) result" where
  "rebuild_from_config enc elapsed config cp =
     (let (versions, version) = increment (xp_versions cp);
          cp1 = cp\<lparr>xp_versions := versions\<rparr>
      in case XdsSnapshot_build enc config version of
           Inl e \<Rightarrow> (cp1, Inl e)
         | Inr snapshot \<Rightarrow>
             let cp2 = broadcast (ordered_responses snapshot)
                   (cp1\<lparr>xp_metrics := set_xds_snapshot_version version (xp_metrics cp1),
                        xp_snapshot := snapshot\<rparr>)
             in (cp2\<lparr>xp_metrics := record_xds_push elapsed (xp_metrics cp2)\<rparr>, Inr ()))"

subsection \<open>The ADS stream\<close>

record Node =
  nd_id :: string
  nd_cluster :: string
  nd_metadata :: "(string \<times> string) list"

record DiscoveryRequest =
  dq_version_info :: string
  dq_node :: "Node option"
  dq_resource_names :: "string list"
  dq_type_url :: string
  dq_response_nonce :: string
  dq_error_detail :: "string option"

definition is_nack :: "DiscoveryRequest \<Rightarrow> bool" where
  "is_nack request \<longleftrightarrow> (case dq_error_detail request of Some message \<Rightarrow> message \<noteq> [] | None \<Rightarrow> False)"

definition non_empty :: "string \<Rightarrow> string option" where
  "non_empty s = (if s = [] then None else Some s)"

definition node_id_of :: "DiscoveryRequest \<Rightarrow> string" where
  "node_id_of message =
     (case dq_node message of
        Some node \<Rightarrow> if nd_id node = [] then ''unknown'' else nd_id node
      | None \<Rightarrow> ''unknown'')"

text \<open>The first message of a stream registers it; \<open>node_id\<close> is the variable of the task.\<close>

definition ads_register :: "nat \<Rightarrow> string \<Rightarrow> DiscoveryRequest \<Rightarrow> XdsControlPlane \<Rightarrow> string \<times> XdsControlPlane" where
  "ads_register sid node_id message cp =
     (if node_id = [] then
        let n = node_id_of message;
            cp' = register n sid cp
        in (n, cp'\<lparr>xp_metrics := set_xds_connected_envoys (connected_envoys cp') (xp_metrics cp')\<rparr>)
      else (node_id, cp))"

definition ads_update_status :: "nat \<Rightarrow> DiscoveryRequest \<Rightarrow> XdsControlPlane \<Rightarrow> XdsControlPlane" where
  "ads_update_status sid message cp =
     (let status = (xp_statuses cp sid)\<lparr>es_last_type_url := non_empty (dq_type_url message),
            es_last_nonce := non_empty (dq_response_nonce message)\<rparr>
      in if is_nack message then
           cp\<lparr>xp_statuses := (xp_statuses cp)(sid := status\<lparr>es_last_nack := dq_error_detail message\<rparr>),
              xp_metrics := record_xds_nack (xp_metrics cp)\<rparr>
         else if dq_version_info message \<noteq> [] then
           cp\<lparr>xp_statuses := (xp_statuses cp)(sid :=
                status\<lparr>es_last_acked_version := Some (dq_version_info message), es_last_nack := None\<rparr>),
              xp_metrics := record_xds_ack (xp_metrics cp)\<rparr>
         else cp\<lparr>xp_statuses := (xp_statuses cp)(sid := status)\<rparr>)"

definition ads_responses :: "XdsSnapshot \<Rightarrow> DiscoveryRequest \<Rightarrow> DiscoveryResponse list" where
  "ads_responses snapshot message =
     (let responses =
            (if dq_type_url message = [] then ordered_responses snapshot
             else case response_for snapshot (dq_type_url message) of Some r \<Rightarrow> [r] | None \<Rightarrow> [])
      in if responses = [] then List.map_filter (response_for snapshot) TYPE_URLS_IN_ORDER
         else responses)"

definition ads_receive ::
  "nat \<Rightarrow> string \<Rightarrow> DiscoveryRequest \<Rightarrow> XdsControlPlane \<Rightarrow> string \<times> XdsControlPlane \<times> DiscoveryResponse list" where
  "ads_receive sid node_id message cp =
     (let (node_id', cp1) = ads_register sid node_id message cp;
          cp2 = ads_update_status sid message cp1
      in (node_id', cp2, ads_responses (xp_snapshot cp2) message))"

definition ads_close :: "string \<Rightarrow> XdsControlPlane \<Rightarrow> XdsControlPlane" where
  "ads_close node_id cp =
     (if node_id \<noteq> [] then
        let cp' = remove node_id cp
        in cp'\<lparr>xp_metrics := set_xds_connected_envoys (connected_envoys cp') (xp_metrics cp')\<rparr>
      else cp)"

subsection \<open>Interleaving\<close>

text \<open>The streams with the responses each still has to send, and the control plane. A stream
  handles a message in one step and sends one response per step, so rebuilds and other
  streams interleave with its sends; \<open>w_next\<close> numbers the next stream.\<close>

record XdsWorld =
  w_cp :: XdsControlPlane
  w_tasks :: "nat \<rightharpoonup> string \<times> DiscoveryResponse list"
  w_next :: nat

definition send_one :: "nat \<Rightarrow> DiscoveryResponse \<Rightarrow> XdsControlPlane \<Rightarrow> XdsControlPlane" where
  "send_one sid r cp =
     cp\<lparr>xp_channels := (xp_channels cp)(sid := (xp_channels cp sid)\<lparr>chn_sent := chn_sent (xp_channels cp sid) @ [r]\<rparr>)\<rparr>"

definition set_open :: "nat \<Rightarrow> bool \<Rightarrow> XdsControlPlane \<Rightarrow> XdsControlPlane" where
  "set_open sid b cp = cp\<lparr>xp_channels := (xp_channels cp)(sid := (xp_channels cp sid)\<lparr>chn_open := b\<rparr>)\<rparr>"

text \<open>\<open>xds_reach enc n w\<close>: the world \<open>w\<close> can be reached from a fresh control plane with
  \<open>n\<close> calls of \<open>rebuild_from_config\<close>.\<close>

inductive xds_reach :: "encoder \<Rightarrow> nat \<Rightarrow> XdsWorld \<Rightarrow> bool" for enc where
  start: "XdsControlPlane_new enc config metrics = Inr cp \<Longrightarrow>
    xds_reach enc 0 \<lparr>w_cp = cp, w_tasks = Map.empty, w_next = 0\<rparr>"
| connect: "xds_reach enc n w \<Longrightarrow>
    xds_reach enc n (w\<lparr>w_cp := set_open (w_next w) True (w_cp w),
      w_tasks := (w_tasks w)(w_next w \<mapsto> ([], [])), w_next := w_next w + 1\<rparr>)"
| receive: "xds_reach enc n w \<Longrightarrow> w_tasks w sid = Some (node_id, []) \<Longrightarrow>
    ads_receive sid node_id message (w_cp w) = (node_id', cp, responses) \<Longrightarrow>
    xds_reach enc n (w\<lparr>w_cp := cp, w_tasks := (w_tasks w)(sid \<mapsto> (node_id', responses))\<rparr>)"
| send: "xds_reach enc n w \<Longrightarrow> w_tasks w sid = Some (node_id, r # rs) \<Longrightarrow> chn_open (xp_channels (w_cp w) sid) \<Longrightarrow>
    xds_reach enc n (w\<lparr>w_cp := send_one sid r (w_cp w), w_tasks := (w_tasks w)(sid \<mapsto> (node_id, rs))\<rparr>)"
| send_failed: "xds_reach enc n w \<Longrightarrow> w_tasks w sid = Some (node_id, r # rs) \<Longrightarrow>
    \<not> chn_open (xp_channels (w_cp w) sid) \<Longrightarrow>
    xds_reach enc n (w\<lparr>w_tasks := (w_tasks w)(sid \<mapsto> (node_id, []))\<rparr>)"
| hang_up: "xds_reach enc n w \<Longrightarrow> xds_reach enc n (w\<lparr>w_cp := set_open sid False (w_cp w)\<rparr>)"
| stream_end: "xds_reach enc n w \<Longrightarrow> w_tasks w sid = Some (node_id, []) \<Longrightarrow>
    xds_reach enc n (w\<lparr>w_cp := ads_close node_id (w_cp w), w_tasks := (w_tasks w)(sid := None)\<rparr>)"
| rebuild: "xds_reach enc n w \<Longrightarrow> rebuild_from_config enc elapsed config (w_cp w) = (cp, r) \<Longrightarrow>
    xds_reach enc (Suc n) (w\<lparr>w_cp := cp\<rparr>)"

end
