(* ===== verification/Xds_Correct.thy ===== *)
theory Xds_Correct
  imports Xds_Server Envoy_Gen
begin

text \<open>
  Properties of the xDS control plane: the resources agree with the bootstrap generator, a
  valid configuration always gives a complete snapshot, and over every interleaving of
  streams and rebuilds a version names one content.
\<close>

subsection \<open>Virtual hosts\<close>

definition sorted_keys :: "RouteConfig list \<Rightarrow> string list list" where
  "sorted_keys routes = sort (remdups (map route_key routes))"

interpretation xds: grouping sorted_keys
  by unfold_locales (simp_all add: sorted_keys_def)

definition xds_virtual_host_of :: "RouteConfig list \<Rightarrow> string list \<Rightarrow> VirtualHost" where
  "xds_virtual_host_of routes k =
     \<lparr>vh_name = rc_name (hd (routes_of_key routes k)), vh_domains = k,
      vh_routes = map xds_route (routes_of_key routes k)\<rparr>"

lemma btree_entry_map:
  assumes "sorted ks" "distinct ks"
  shows "btree_entry k d f (map (\<lambda>k. (k, g k)) ks) =
    map (\<lambda>k'. (k', if k' = k then f (if k \<in> set ks then g k else d) else g k')) (insort_insert k ks)"
  using assms
proof (induction ks)
  case (Cons x xs)
  consider "k < x" | "k = x" | "x < k" by fastforce
  then show ?case
  proof cases
    case 1
    with Cons.prems have "k \<notin> set (x # xs)" by force
    with 1 show ?thesis by (auto simp: insort_insert_key_def intro!: map_cong)
  next
    case 2
    with Cons.prems show ?thesis by (auto simp: insort_insert_key_def)
  next
    case 3
    with Cons show ?thesis by (auto simp: insort_insert_key_def)
  qed
qed (simp add: insort_insert_key_def)

lemma sorted_keys_snoc: "sorted_keys (routes @ [r]) = insort_insert (route_key r) (sorted_keys routes)"
proof (rule sorted_distinct_set_unique)
  show "set (sorted_keys (routes @ [r])) = set (insort_insert (route_key r) (sorted_keys routes))"
    by (auto simp: sorted_keys_def set_insort_insert)
qed (simp_all add: sorted_keys_def sorted_insort_insert distinct_insort_insert)

lemma groups_eq:
  "foldl add_route ([], []) routes =
     (map (\<lambda>k. (k, map xds_route (routes_of_key routes k))) (sorted_keys routes),
      map (\<lambda>k. (k, rc_name (hd (routes_of_key routes k)))) (sorted_keys routes))"
proof (induction routes rule: rev_induct)
  case Nil
  then show ?case by (simp add: sorted_keys_def)
next
  case (snoc r routes)
  have s: "sorted (sorted_keys routes)" "distinct (sorted_keys routes)" by (simp_all add: sorted_keys_def)
  have m: "k \<in> set (sorted_keys routes) \<longleftrightarrow> routes_of_key routes k \<noteq> []" for k
    by (simp add: routes_of_key_Nil xds.keys_set)
  have "foldl add_route ([], []) (routes @ [r]) =
      (btree_entry (route_key r) [] (\<lambda>rs. rs @ [xds_route r]) (map (\<lambda>k. (k, map xds_route (routes_of_key routes k))) (sorted_keys routes)),
       btree_entry (route_key r) (rc_name r) (\<lambda>n. n) (map (\<lambda>k. (k, rc_name (hd (routes_of_key routes k)))) (sorted_keys routes)))"
    by (simp add: snoc.IH add_route_def route_key_def Let_def)
  then show ?case
    unfolding btree_entry_map [OF s] sorted_keys_snoc
    by (auto simp: m routes_of_key_snoc set_insort_insert intro!: map_cong)
qed

lemma build_virtual_hosts_keys:
  "Xds.build_virtual_hosts routes = map (xds_virtual_host_of routes) (sorted_keys routes)"
proof -
  have "map_of (map (\<lambda>k. (k, rc_name (hd (routes_of_key routes k)))) ks) k = Some (rc_name (hd (routes_of_key routes k)))"
    if "k \<in> set ks" for k and ks :: "string list list"
    using that by (simp add: map_of_map_restrict)
  then show ?thesis
    by (simp add: Xds.build_virtual_hosts_def groups_eq xds_virtual_host_of_def)
qed

subsection \<open>Snapshots\<close>

lemma type_urls_distinct [simp]:
  "CLUSTER_TYPE_URL \<noteq> ENDPOINT_TYPE_URL" "CLUSTER_TYPE_URL \<noteq> LISTENER_TYPE_URL"
  "CLUSTER_TYPE_URL \<noteq> ROUTE_TYPE_URL" "ENDPOINT_TYPE_URL \<noteq> LISTENER_TYPE_URL"
  "ENDPOINT_TYPE_URL \<noteq> ROUTE_TYPE_URL" "LISTENER_TYPE_URL \<noteq> ROUTE_TYPE_URL"
  by (simp_all add: CLUSTER_TYPE_URL_def ENDPOINT_TYPE_URL_def LISTENER_TYPE_URL_def ROUTE_TYPE_URL_def)

lemma xds_parse_endpoint_ok: "host_port v \<Longrightarrow> \<exists>host port. Xds.parse_endpoint v = Inr (host, port)"
proof -
  assume "host_port v"
  then obtain host port where "rsplit_once CHR '':'' v = Some (host, port)" "host \<noteq> []" "parse_uint (2 ^ 16) port \<noteq> None"
    by (auto simp: host_port_def rsplit_once_Some)
  then show ?thesis by (auto simp: Xds.parse_endpoint_def)
qed

definition encodes_all :: "encoder \<Rightarrow> bool" where
  "encodes_all enc \<longleftrightarrow> (\<forall>m. is_ok (enc m))"

lemma pack_any_ok: "encodes_all enc \<Longrightarrow> \<exists>a. pack_any enc url m = Inr a \<and> any_type_url a = url \<and> enc m = Inr (any_value a)"
  by (cases "enc m") (auto simp: encodes_all_def pack_any_def is_ok_iff dest: spec [of _ m])

lemma and_then_ok: "is_ok r \<Longrightarrow> (\<And>a. is_ok (f a)) \<Longrightarrow> is_ok (and_then r f)"
  by (cases r) auto

lemma is_ok_pack: "encodes_all enc \<Longrightarrow> is_ok (pack_any enc url m)"
  using pack_any_ok [of enc url m] by auto

lemma build_cluster_assignment_ok:
  "valid_service s \<Longrightarrow> \<exists>a. build_cluster_assignment s = Inr a"
proof -
  assume "valid_service s"
  then have "is_ok (collect_results (\<lambda>endpoint. and_then (Xds.parse_endpoint endpoint)
      (\<lambda>(host, port). Inr (LbEndpoint (Some (socket_address host port))))) (sc_endpoints s))"
    unfolding collect_results_ok using xds_parse_endpoint_ok by (fastforce simp: valid_service_def)
  then show ?thesis by (auto simp: build_cluster_assignment_def is_ok_iff)
qed

lemma xds_clusters_ok:
  assumes "encodes_all enc" "\<forall>s \<in> set (gc_services cfg). valid_service s"
  shows "\<exists>cs. Xds.build_clusters enc cfg = Inr cs \<and> (\<forall>s \<in> set (gc_services cfg). \<exists>c \<in> set cs. \<exists>a.
      any_type_url c = CLUSTER_TYPE_URL \<and> enc (MsgCluster (xds_cluster s a)) = Inr (any_value c))"
proof -
  let ?f = "\<lambda>service. and_then (build_cluster_assignment service) (\<lambda>assignment.
     pack_any enc CLUSTER_TYPE_URL (MsgCluster (xds_cluster service assignment)))"
  have ok: "\<exists>c a. ?f s = Inr c \<and> any_type_url c = CLUSTER_TYPE_URL \<and> enc (MsgCluster (xds_cluster s a)) = Inr (any_value c)"
    if "s \<in> set (gc_services cfg)" for s
    using build_cluster_assignment_ok [of s] pack_any_ok [OF assms(1)] that assms(2) by fastforce
  then have "is_ok (collect_results ?f (gc_services cfg))" unfolding collect_results_ok using ok by (fastforce simp: is_ok_iff)
  then obtain cs where cs: "collect_results ?f (gc_services cfg) = Inr cs" by (auto simp: is_ok_iff)
  then have "list_all2 (\<lambda>s c. ?f s = Inr c) (gc_services cfg) cs" by (simp add: collect_results_Inr)
  then have "\<exists>c \<in> set cs. ?f s = Inr c" if "s \<in> set (gc_services cfg)" for s
    using that by (auto simp: list_all2_conv_all_nth in_set_conv_nth)
  with ok have "\<forall>s \<in> set (gc_services cfg). \<exists>c \<in> set cs. \<exists>a.
      any_type_url c = CLUSTER_TYPE_URL \<and> enc (MsgCluster (xds_cluster s a)) = Inr (any_value c)" by fastforce
  with cs show ?thesis by (auto simp: Xds.build_clusters_def)
qed

lemma build_endpoints_ok:
  assumes "encodes_all enc" "\<forall>s \<in> set (gc_services cfg). valid_service s"
  shows "is_ok (build_endpoints enc cfg)"
  unfolding build_endpoints_def collect_results_ok
  using build_cluster_assignment_ok pack_any_ok [OF assms(1)] assms(2) by (fastforce simp: is_ok_iff)

lemma build_http_filters_ok: "encodes_all enc \<Longrightarrow> is_ok (build_http_filters enc cfg)"
  unfolding build_http_filters_def by (auto intro!: and_then_ok is_ok_pack split: option.splits)

lemma build_listener_ok:
  assumes "encodes_all enc" "host_port (gs_listen_address (gc_gateway cfg))"
  shows "is_ok (Xds.build_listener enc cfg)"
proof -
  obtain fs where "build_http_filters enc cfg = Inr fs" using build_http_filters_ok [OF assms(1)] by (auto simp: is_ok_iff)
  moreover obtain h q where "Xds.parse_endpoint (gs_listen_address (gc_gateway cfg)) = Inr (h, q)"
    using xds_parse_endpoint_ok [OF assms(2)] by blast
  ultimately show ?thesis
    unfolding Xds.build_listener_def using assms(1) by (auto intro!: and_then_ok is_ok_pack)
qed

lemma snapshot_parts:
  assumes "XdsSnapshot_build enc cfg v = Inr s"
  shows "xs_version s = v" "xs_nonce s = ''snapshot-'' @ show_nat (unat v)"
    "\<exists>cs es l rc. Xds.build_clusters enc cfg = Inr cs \<and> xs_resources s = [CLUSTER_TYPE_URL \<mapsto> cs, ENDPOINT_TYPE_URL \<mapsto> es,
            LISTENER_TYPE_URL \<mapsto> [l], ROUTE_TYPE_URL \<mapsto> [rc]]"
  using assms by (auto simp: XdsSnapshot_build_def and_then_Inr) (intro exI, rule refl)

lemma snapshot_build_ok:
  assumes "encodes_all enc" "accepted_config url_parse cfg"
  shows "is_ok (XdsSnapshot_build enc cfg v)"
proof -
  have "\<forall>s \<in> set (gc_services cfg). valid_service s" "host_port (gs_listen_address (gc_gateway cfg))"
    using assms(2) by (auto simp: accepted_config_iff valid_addresses_def Let_def)
  note b = xds_clusters_ok [OF assms(1) this(1)] build_endpoints_ok [OF assms(1) this(1)] build_listener_ok [OF assms(1) this(2)]
  obtain rc where "build_route_config enc cfg = Inr rc" using pack_any_ok [OF assms(1)] by (auto simp: build_route_config_def)
  with b show ?thesis by (auto simp: XdsSnapshot_build_def is_ok_and_then is_ok_iff)
qed

lemma ordered_responses_built:
  assumes "XdsSnapshot_build enc cfg v = Inr s"
  shows "map dr_type_url (ordered_responses s) = TYPE_URLS_IN_ORDER"
    "\<forall>r \<in> set (ordered_responses s). dr_version_info r = show_nat (unat v) \<and> dr_nonce r = ''snapshot-'' @ show_nat (unat v)"
    "Xds.build_clusters enc cfg = Inr (dr_resources (hd (ordered_responses s)))"
  using snapshot_parts [OF assms]
  by (auto simp: ordered_responses_def TYPE_URLS_IN_ORDER_def map_filter_simps response_for_def)

subsection \<open>Interleaving\<close>

lemma send_all_sent: "set (chn_sent (fst (send_all rs ch))) \<subseteq> set (chn_sent ch) \<union> set rs"
  by (induction rs arbitrary: ch) (auto, fastforce)

lemma broadcast_to_sent:
  "set (chn_sent (fst (broadcast_to rs conns chans) sid)) \<subseteq> set (chn_sent (chans sid)) \<union> set rs"
proof (induction conns arbitrary: chans)
  case (Cons c conns)
  obtain n i where c: "c = (n, i)" by (cases c)
  let ?chans = "chans(i := fst (send_all rs (chans i)))"
  have "set (chn_sent (fst (broadcast_to rs conns ?chans) sid)) \<subseteq> set (chn_sent (?chans sid)) \<union> set rs"
    by (rule Cons.IH)
  also have "\<dots> \<subseteq> set (chn_sent (chans sid)) \<union> set rs" using send_all_sent [of rs "chans i"] by auto
  finally show ?case by (simp add: c Let_def case_prod_beta)
qed simp

lemma fold_remove [simp]:
  "xp_snapshot (fold remove ns cp) = xp_snapshot cp" "xp_versions (fold remove ns cp) = xp_versions cp"
  "xp_channels (fold remove ns cp) = xp_channels cp" "xp_metrics (fold remove ns cp) = xp_metrics cp"
  by (induction ns arbitrary: cp) (simp_all add: remove_def)

lemma broadcast_effect:
  "xp_snapshot (broadcast rs cp) = xp_snapshot cp" "xp_versions (broadcast rs cp) = xp_versions cp"
  "set (chn_sent (xp_channels (broadcast rs cp) sid)) \<subseteq> set (chn_sent (xp_channels cp sid)) \<union> set rs"
  using broadcast_to_sent [of rs "xp_connections cp" "xp_channels cp" sid]
  by (simp_all add: broadcast_def case_prod_beta)

lemma ads_receive_effect:
  assumes "ads_receive sid node_id message cp = (node_id', cp', responses)"
  shows "xp_snapshot cp' = xp_snapshot cp" "xp_versions cp' = xp_versions cp" "xp_channels cp' = xp_channels cp"
    "responses = ads_responses (xp_snapshot cp) message"
  using assms
  by (auto simp: ads_receive_def ads_register_def ads_update_status_def register_def Let_def split: if_splits)

lemma ads_responses_for: "r \<in> set (ads_responses s message) \<Longrightarrow> \<exists>t. response_for s t = Some r"
  by (auto simp: ads_responses_def ordered_responses_def List.map_filter_def Let_def
      split: if_splits option.splits)

lemma ordered_responses_for: "r \<in> set (ordered_responses s) \<Longrightarrow> \<exists>t. response_for s t = Some r"
  by (auto simp: ordered_responses_def List.map_filter_def split: option.splits)

text \<open>Everything a client was sent, or is about to be sent.\<close>

definition in_flight :: "XdsWorld \<Rightarrow> DiscoveryResponse set" where
  "in_flight w = {r. (\<exists>sid. r \<in> set (chn_sent (xp_channels (w_cp w) sid)))
     \<or> (\<exists>sid node_id rs. w_tasks w sid = Some (node_id, rs) \<and> r \<in> set rs)}"

text \<open>\<open>P\<close> gives the snapshot of each version that was built, up to \<open>n + 1\<close>.\<close>

definition published :: "(nat \<Rightarrow> XdsSnapshot) \<Rightarrow> nat \<Rightarrow> XdsWorld \<Rightarrow> bool" where
  "published P n w \<longleftrightarrow> vc_next (xp_versions (w_cp w)) = of_nat (n + 1)
     \<and> (\<exists>v. 1 \<le> v \<and> v \<le> n + 1 \<and> xp_snapshot (w_cp w) = P v)
     \<and> (\<forall>v. 1 \<le> v \<longrightarrow> v \<le> n + 1 \<longrightarrow> xs_version (P v) = of_nat v)
     \<and> (\<forall>r \<in> in_flight w. \<exists>v t. 1 \<le> v \<and> v \<le> n + 1 \<and> response_for (P v) t = Some r)"

lemma published_mono:
  assumes "published P n w" "xp_versions (w_cp w') = xp_versions (w_cp w)" "xp_snapshot (w_cp w') = xp_snapshot (w_cp w)"
    and "\<And>r. r \<in> in_flight w' \<Longrightarrow> r \<in> in_flight w \<or> (\<exists>t. response_for (xp_snapshot (w_cp w)) t = Some r)"
  shows "published P n w'"
proof -
  obtain v where v: "1 \<le> v" "v \<le> n + 1" "xp_snapshot (w_cp w) = P v"
    using assms(1) by (auto simp: published_def)
  have "\<exists>v t. 1 \<le> v \<and> v \<le> n + 1 \<and> response_for (P v) t = Some r" if "r \<in> in_flight w'" for r
    using assms(4) [OF that] assms(1) v unfolding published_def by metis
  with assms(1-3) show ?thesis unfolding published_def by metis
qed

lemma published_rebuild:
  assumes "published P n w" "rebuild_from_config enc elapsed config (w_cp w) = (cp, r)"
  shows "\<exists>P'. published P' (Suc n) (w\<lparr>w_cp := cp\<rparr>)"
proof -
  let ?v = "of_nat (n + 2) :: u64"
  have ver: "vc_next (xp_versions (w_cp w)) + 1 = ?v"
    using assms(1) by (simp add: published_def algebra_simps)
  show ?thesis
  proof (cases "XdsSnapshot_build enc config ?v")
    case (Inl e)
    then have cp: "cp = w_cp w\<lparr>xp_versions := \<lparr>vc_next = ?v\<rparr>\<rparr>"
      using assms(2) ver by (auto simp: rebuild_from_config_def increment_def)
    let ?P = "P(n + 2 := P 1\<lparr>xs_version := ?v\<rparr>)"
    have "in_flight (w\<lparr>w_cp := cp\<rparr>) = in_flight w" by (simp add: in_flight_def cp)
    moreover have "\<exists>v t. 1 \<le> v \<and> v \<le> Suc n + 1 \<and> response_for (?P v) t = Some r" if "r \<in> in_flight w" for r
    proof -
      from that assms(1) obtain v t where "1 \<le> v" "v \<le> n + 1" "response_for (P v) t = Some r"
        unfolding published_def by blast
      then show ?thesis by (intro exI [of _ v] exI [of _ t]) auto
    qed
    moreover have "\<exists>v. 1 \<le> v \<and> v \<le> Suc n + 1 \<and> xp_snapshot (w_cp w) = ?P v"
    proof -
      from assms(1) obtain v where "1 \<le> v" "v \<le> n + 1" "xp_snapshot (w_cp w) = P v" unfolding published_def by blast
      then show ?thesis by (intro exI [of _ v]) auto
    qed
    moreover have "xs_version (?P v) = of_nat v" if "1 \<le> v" "v \<le> Suc n + 1" for v
      using assms(1) that by (auto simp: published_def)
    ultimately show ?thesis by (intro exI [of _ ?P]) (simp add: published_def cp)
  next
    case (Inr s)
    then have cp: "cp = (let cp2 = broadcast (ordered_responses s) (w_cp w\<lparr>xp_versions := (xp_versions (w_cp w))\<lparr>vc_next := ?v\<rparr>,
        xp_metrics := set_xds_snapshot_version ?v (xp_metrics (w_cp w)), xp_snapshot := s\<rparr>)
      in cp2\<lparr>xp_metrics := record_xds_push elapsed (xp_metrics cp2)\<rparr>)"
      using assms(2) ver by (auto simp: rebuild_from_config_def increment_def Let_def)
    let ?P = "P(n + 2 := s)"
    have sent: "set (chn_sent (xp_channels cp sid)) \<subseteq> set (chn_sent (xp_channels (w_cp w) sid)) \<union> set (ordered_responses s)" for sid
      using broadcast_effect(3) [of "ordered_responses s" "w_cp w\<lparr>xp_versions := (xp_versions (w_cp w))\<lparr>vc_next := ?v\<rparr>,
        xp_metrics := set_xds_snapshot_version ?v (xp_metrics (w_cp w)), xp_snapshot := s\<rparr>" sid]
      by (simp add: cp Let_def)
    have "\<exists>v t. 1 \<le> v \<and> v \<le> Suc n + 1 \<and> response_for (?P v) t = Some r" if "r \<in> in_flight (w\<lparr>w_cp := cp\<rparr>)" for r
    proof -
      from that sent have "r \<in> in_flight w \<or> r \<in> set (ordered_responses s)" by (fastforce simp: in_flight_def)
      then show ?thesis
      proof
        assume "r \<in> in_flight w"
        with assms(1) obtain v t where "1 \<le> v" "v \<le> n + 1" "response_for (P v) t = Some r"
          unfolding published_def by blast
        then show ?thesis by (intro exI [of _ v] exI [of _ t]) auto
      next
        assume "r \<in> set (ordered_responses s)"
        then obtain t where "response_for s t = Some r" using ordered_responses_for by blast
        then show ?thesis by (intro exI [of _ "n + 2"] exI [of _ t]) auto
      qed
    qed
    moreover have "xs_version (?P v) = of_nat v" if "1 \<le> v" "v \<le> Suc n + 1" for v
      using assms(1) that snapshot_parts(1) [OF Inr] by (auto simp: published_def)
    moreover have "xp_snapshot cp = s" "vc_next (xp_versions cp) = ?v"
      by (simp_all add: cp Let_def broadcast_effect)
    ultimately show ?thesis
      by (intro exI [of _ ?P]) (auto simp: published_def intro!: exI [of _ "n + 2"])
  qed
qed

lemma reach_published: "xds_reach enc n w \<Longrightarrow> \<exists>P. published P n w"
proof (induction rule: xds_reach.induct)
  case (start config metrics cp)
  then obtain s where "XdsSnapshot_build enc config 1 = Inr s" "xp_snapshot cp = s" "vc_next (xp_versions cp) = 1"
    "\<forall>sid. chn_sent (xp_channels cp sid) = []"
    by (auto simp: XdsControlPlane_new_def and_then_Inr VersionCounter_new_def)
  then show ?case
    using snapshot_parts(1) by (intro exI [of _ "\<lambda>_. s"]) (auto simp: published_def in_flight_def le_Suc_eq)
next
  case (connect n w)
  then obtain P where P: "published P n w" by blast
  show ?case
    by (intro exI [of _ P] published_mono [OF P]) (auto simp: set_open_def in_flight_def split: if_splits)
next
  case (receive n w sid node_id message node_id' cp responses)
  then obtain P where P: "published P n w" by blast
  note e = ads_receive_effect [OF receive.hyps(3)]
  have "r \<in> in_flight w \<or> (\<exists>t. response_for (xp_snapshot (w_cp w)) t = Some r)"
    if "r \<in> in_flight (w\<lparr>w_cp := cp, w_tasks := (w_tasks w)(sid \<mapsto> (node_id', responses))\<rparr>)" for r
    using that ads_responses_for [of r "xp_snapshot (w_cp w)" message] by (auto simp: e in_flight_def split: if_splits)
  then show ?case by (intro exI [of _ P] published_mono [OF P]) (simp_all add: e)
next
  case (send n w sid node_id r rs)
  then obtain P where P: "published P n w" by blast
  show ?case
    using send.hyps(2)
    by (intro exI [of _ P] published_mono [OF P]) (auto simp: send_one_def in_flight_def split: if_splits, force+)
next
  case (send_failed n w sid node_id r rs)
  then obtain P where P: "published P n w" by blast
  show ?case
    by (intro exI [of _ P] published_mono [OF P]) (auto simp: in_flight_def split: if_splits)
next
  case (hang_up n w sid)
  then obtain P where P: "published P n w" by blast
  show ?case
    by (intro exI [of _ P] published_mono [OF P]) (auto simp: set_open_def in_flight_def split: if_splits)
next
  case (stream_end n w sid node_id)
  then obtain P where P: "published P n w" by blast
  show ?case
    by (intro exI [of _ P] published_mono [OF P])
      (auto simp: ads_close_def remove_def Let_def in_flight_def split: if_splits)
next
  case (rebuild n w elapsed config cp r)
  then show ?case using published_rebuild by blast
qed

subsection \<open>Runs\<close>

lemma fresh_control_plane:
  assumes "encodes_all enc" "accepted_config url_parse cfg"
  shows "\<exists>s cp. XdsSnapshot_build enc cfg 1 = Inr s \<and> XdsControlPlane_new enc cfg m = Inr cp \<and> xp_snapshot cp = s
    \<and> vc_next (xp_versions cp) = 1 \<and> xp_connections cp = [] \<and> (\<forall>sid. chn_sent (xp_channels cp sid) = [])"
  using snapshot_build_ok [OF assms, of 1]
  by (auto simp: XdsControlPlane_new_def is_ok_iff VersionCounter_new_def)

text \<open>The first message of an Envoy that asks for the clusters.\<close>

definition subscribe :: DiscoveryRequest where
  "subscribe = \<lparr>dq_version_info = [], dq_node = Some \<lparr>nd_id = ''envoy-1'', nd_cluster = [], nd_metadata = []\<rparr>,
     dq_resource_names = [], dq_type_url = CLUSTER_TYPE_URL, dq_response_nonce = [], dq_error_detail = None\<rparr>"

lemma ads_receive_first:
  assumes "XdsSnapshot_build enc cfg v = Inr s" "xp_snapshot cp = s"
  shows "\<exists>cp' r. ads_receive sid [] subscribe cp = (''envoy-1'', cp', [r]) \<and> dr_version_info r = show_nat (unat v)
    \<and> xp_connections cp' = mapping_insert ''envoy-1'' sid (xp_connections cp)"
proof -
  obtain r where "response_for s CLUSTER_TYPE_URL = Some r" "dr_version_info r = show_nat (unat v)"
    using snapshot_parts [OF assms(1)] by (auto simp: response_for_def)
  moreover have "CLUSTER_TYPE_URL \<noteq> []" by (simp add: CLUSTER_TYPE_URL_def)
  ultimately show ?thesis
    using assms(2)
    by (simp add: ads_receive_def ads_register_def ads_update_status_def ads_responses_def subscribe_def
        node_id_of_def register_def is_nack_def Let_def)
qed

lemma send_all_open: "chn_open ch \<Longrightarrow> send_all rs ch = (ch\<lparr>chn_sent := chn_sent ch @ rs\<rparr>, False)"
  by (induction rs arbitrary: ch) auto

lemma rebuild_one_client:
  assumes "XdsSnapshot_build enc cfg (vc_next (xp_versions cp) + 1) = Inr s"
    and "xp_connections cp = [(n, sid)]" "chn_open (xp_channels cp sid)"
  shows "\<exists>cp' r. rebuild_from_config enc elapsed cfg cp = (cp', r)
    \<and> xp_channels cp' sid = (xp_channels cp sid)\<lparr>chn_sent := chn_sent (xp_channels cp sid) @ ordered_responses s\<rparr>"
  using assms
  by (simp add: rebuild_from_config_def increment_def Let_def broadcast_def send_all_open)

subsection \<open>Properties\<close>

text \<open>C21. Static and dynamic configuration agree: for routes with distinct names the bootstrap
  generator and the xDS control plane form the same virtual hosts, one per set of
  hostnames with the same name and the same routes in the same order; they differ in the
  order of the virtual hosts, which xDS sorts.\<close>

theorem xds_and_bootstrap_agree:
  assumes "distinct (map rc_name routes)"
  shows "\<exists>ks. distinct ks \<and> set ks = route_key ` set routes
    \<and> Envoy_Gen.build_virtual_hosts routes = Some (map (virtual_host_of routes) ks)
    \<and> Xds.build_virtual_hosts routes = map (xds_virtual_host_of routes) (sort ks)"
proof -
  have "sorted_keys routes = sort (first_keys routes)"
    by (rule sorted_distinct_set_unique) (simp_all add: sorted_keys_def)
  then show ?thesis
    using build_virtual_hosts_eq [OF assms] build_virtual_hosts_keys [of routes]
    by (intro exI [of _ "first_keys routes"]) simp
qed

theorem xds_and_bootstrap_agree_witness:
  "\<exists>ks. distinct ks \<and> set ks = route_key ` set [sample_route, sample_private_route]
    \<and> Envoy_Gen.build_virtual_hosts [sample_route, sample_private_route]
        = Some (map (virtual_host_of [sample_route, sample_private_route]) ks)
    \<and> Xds.build_virtual_hosts [sample_route, sample_private_route]
        = map (xds_virtual_host_of [sample_route, sample_private_route]) (sort ks)"
  by (rule xds_and_bootstrap_agree) (simp add: sample_defs)

text \<open>C22. A valid configuration always gives a complete snapshot: clusters, endpoints, listener
  and routes, pushed in this order under one version and one nonce, and every route
  forwards to a cluster of the same snapshot. Encoding into a growing buffer cannot
  fail, which is the hypothesis on \<open>enc\<close>.\<close>

theorem valid_config_snapshot:
  assumes "encodes_all enc" "validate url_parse cfg = Inr ()"
  shows "\<exists>s. XdsSnapshot_build enc cfg v = Inr s
    \<and> map dr_type_url (ordered_responses s) = TYPE_URLS_IN_ORDER
    \<and> (\<forall>r \<in> set (ordered_responses s). dr_version_info r = show_nat (unat v)
         \<and> dr_nonce r = ''snapshot-'' @ show_nat (unat v))
    \<and> (\<forall>route \<in> set (gc_routes cfg). \<exists>c \<in> set (dr_resources (hd (ordered_responses s))). \<exists>cluster.
         any_type_url c = CLUSTER_TYPE_URL \<and> enc (MsgCluster cluster) = Inr (any_value c)
         \<and> cu_name cluster = uc_service (rc_upstream route))"
proof -
  have vc: "accepted_config url_parse cfg" using assms(2) by (simp add: validate_ok_iff)
  then obtain s where s: "XdsSnapshot_build enc cfg v = Inr s"
    using snapshot_build_ok [OF assms(1) vc, of v] by (auto simp: is_ok_iff)
  have "\<forall>s \<in> set (gc_services cfg). valid_service s" using vc by (auto simp: accepted_config_iff Let_def)
  from xds_clusters_ok [OF assms(1) this] ordered_responses_built(3) [OF s]
  have c: "\<forall>sv \<in> set (gc_services cfg). \<exists>c \<in> set (dr_resources (hd (ordered_responses s))). \<exists>a.
      any_type_url c = CLUSTER_TYPE_URL \<and> enc (MsgCluster (xds_cluster sv a)) = Inr (any_value c)" by auto
  have "\<exists>c \<in> set (dr_resources (hd (ordered_responses s))). \<exists>cluster.
      any_type_url c = CLUSTER_TYPE_URL \<and> enc (MsgCluster cluster) = Inr (any_value c)
      \<and> cu_name cluster = uc_service (rc_upstream route)" if "route \<in> set (gc_routes cfg)" for route
  proof -
    from vc that obtain sv where "sv \<in> set (gc_services cfg)" "sc_name sv = uc_service (rc_upstream route)"
      by (auto simp: accepted_config_iff accepted_route_def Let_def)
    with c show ?thesis by (metis xds_cluster_def Cluster.select_convs(1))
  qed
  with s ordered_responses_built(1,2) [OF s] show ?thesis by blast
qed

theorem valid_config_snapshot_witness:
  "\<exists>s. XdsSnapshot_build (\<lambda>_. Inr []) sample_config 1 = Inr s \<and> map dr_type_url (ordered_responses s) = TYPE_URLS_IN_ORDER"
  using valid_config_snapshot [of "\<lambda>_. Inr []" "\<lambda>_. True" sample_config 1]
  by (auto simp: encodes_all_def validate_ok_iff sample_valid)

text \<open>A version names one content: over every interleaving of streams, sends and rebuilds,
  whatever any client was sent carries the version of one of the snapshots built so far,
  and two responses of the same type with the same version are equal.\<close>

theorem xds_version_determines_content:
  assumes "xds_reach enc n w" "n + 1 < 2 ^ 64"
  shows "(\<forall>r \<in> in_flight w. \<exists>v. 1 \<le> v \<and> v \<le> n + 1 \<and> dr_version_info r = show_nat v)
    \<and> (\<forall>r \<in> in_flight w. \<forall>r' \<in> in_flight w.
         dr_version_info r = dr_version_info r' \<and> dr_type_url r = dr_type_url r' \<longrightarrow> r = r')"
proof -
  obtain P where P: "published P n w" using reach_published [OF assms(1)] by blast
  have i: "\<exists>v. 1 \<le> v \<and> v \<le> n + 1 \<and> dr_version_info r = show_nat v \<and> response_for (P v) (dr_type_url r) = Some r"
    if "r \<in> in_flight w" for r
  proof -
    from that P obtain v t where v: "1 \<le> v" "v \<le> n + 1" "response_for (P v) t = Some r"
      unfolding published_def by blast
    then have "unat (xs_version (P v)) = v"
      using P assms(2) by (simp add: published_def unat_of_nat)
    with v show ?thesis by (intro exI [of _ v]) (auto simp: response_for_def)
  qed
  then show ?thesis by (metis option.inject show_nat_inject)
qed

theorem xds_version_determines_content_witness:
  "\<exists>w r. xds_reach (\<lambda>_. Inr []) 0 w \<and> r \<in> in_flight w \<and> (\<exists>v. 1 \<le> v \<and> v \<le> 0 + 1 \<and> dr_version_info r = show_nat v)"
proof -
  obtain s cp where cp: "XdsSnapshot_build (\<lambda>_. Inr []) sample_config 1 = Inr s"
    "XdsControlPlane_new (\<lambda>_. Inr []) sample_config \<lparr>mr_calls = []\<rparr> = Inr cp" "xp_snapshot cp = s"
    using fresh_control_plane [of "\<lambda>_. Inr []" "\<lambda>_. True" sample_config "\<lparr>mr_calls = []\<rparr>"] sample_valid
    by (auto simp: encodes_all_def)
  note r1 = xds_reach.connect [OF xds_reach.start [OF cp(2)]]
  obtain cp' r where "ads_receive 0 [] subscribe (set_open 0 True cp) = (''envoy-1'', cp', [r])"
    using ads_receive_first [OF cp(1), of "set_open 0 True cp" 0] cp(3) by (auto simp: set_open_def)
  from xds_reach.receive [OF r1, of 0 "[]" subscribe "''envoy-1''" cp' "[r]"] this
  obtain w where w: "xds_reach (\<lambda>_. Inr []) 0 w" "w_tasks w 0 = Some (''envoy-1'', [r])" by fastforce
  then have "r \<in> in_flight w" by (fastforce simp: in_flight_def)
  with xds_version_determines_content [OF w(1)] w(1) show ?thesis by (intro exI [of _ w] exI [of _ r]) simp
qed

text \<open>An acknowledgement is answered: when an Envoy acknowledges a response with the version
  and nonce it was sent, the stream sends the same response again, and so on for ever.
  The state-of-the-world protocol answers only when there is something new.\<close>

theorem ack_is_answered_again:
  assumes "XdsSnapshot_build enc cfg v = Inr s" "r \<in> set (ordered_responses s)"
    and "dq_type_url message = dr_type_url r" "dq_version_info message = dr_version_info r"
    and "dq_response_nonce message = dr_nonce r" "dq_error_detail message = None"
  shows "\<not> is_nack message \<and> ads_responses s message = [r]"
proof -
  from assms(2) obtain t where t: "t \<in> set TYPE_URLS_IN_ORDER" "response_for s t = Some r"
    by (auto simp: ordered_responses_def List.map_filter_def split: option.splits)
  then have "t \<noteq> []"
    by (auto simp: TYPE_URLS_IN_ORDER_def CLUSTER_TYPE_URL_def ENDPOINT_TYPE_URL_def LISTENER_TYPE_URL_def ROUTE_TYPE_URL_def)
  moreover have "dr_type_url r = t" using t(2) by (auto simp: response_for_def)
  ultimately show ?thesis using assms(3,6) t(2) by (simp add: is_nack_def ads_responses_def)
qed

theorem ack_is_answered_again_witness:
  "\<exists>s r. XdsSnapshot_build (\<lambda>_. Inr []) sample_config 1 = Inr s
    \<and> ads_responses s (subscribe\<lparr>dq_version_info := dr_version_info r, dq_type_url := dr_type_url r,
        dq_response_nonce := dr_nonce r\<rparr>) = [r]"
proof -
  obtain s where s: "XdsSnapshot_build (\<lambda>_. Inr []) sample_config 1 = Inr s"
    using snapshot_build_ok [of "\<lambda>_. Inr []", OF _ sample_valid] by (auto simp: encodes_all_def is_ok_iff)
  have "ordered_responses s \<noteq> []" using ordered_responses_built(1) [OF s] by (auto simp: TYPE_URLS_IN_ORDER_def)
  then have "hd (ordered_responses s) \<in> set (ordered_responses s)" by simp
  from ack_is_answered_again [OF s this, of "subscribe\<lparr>dq_version_info := dr_version_info (hd (ordered_responses s)),
      dq_type_url := dr_type_url (hd (ordered_responses s)), dq_response_nonce := dr_nonce (hd (ordered_responses s))\<rparr>"]
  show ?thesis using s by (auto simp: subscribe_def)
qed

text \<open>A race between a stream and a rebuild: a response computed from version 1 can be sent
  after the broadcast of version 2 on the same stream, so that the client ends on the older
  clusters while the control plane takes version 2 to be published.\<close>

theorem older_version_after_newer:
  assumes "encodes_all enc" "accepted_config url_parse cfg"
  shows "\<exists>w. xds_reach enc 1 w \<and> xs_version (xp_snapshot (w_cp w)) = 2
    \<and> map dr_version_info (chn_sent (xp_channels (w_cp w) 0)) = [''2'', ''2'', ''2'', ''2'', ''1'']"
proof -
  have sh: "show_nat 1 = ''1''" "show_nat 2 = ''2''" by code_simp+
  obtain s cp where cp: "XdsSnapshot_build enc cfg 1 = Inr s" "XdsControlPlane_new enc cfg \<lparr>mr_calls = []\<rparr> = Inr cp"
    "xp_snapshot cp = s" "vc_next (xp_versions cp) = 1" "xp_connections cp = []" "chn_sent (xp_channels cp 0) = []"
    using fresh_control_plane [OF assms] by blast
  obtain s2 where s2: "XdsSnapshot_build enc cfg 2 = Inr s2" using snapshot_build_ok [OF assms] by (auto simp: is_ok_iff)
  let ?cp1 = "set_open 0 True cp"
  obtain cp2 r where cp2: "ads_receive 0 [] subscribe ?cp1 = (''envoy-1'', cp2, [r])" "dr_version_info r = ''1''"
    "xp_connections cp2 = [(''envoy-1'', 0)]"
    using ads_receive_first [OF cp(1), of ?cp1 0] cp(3,5) sh by (auto simp: set_open_def)
  note e = ads_receive_effect [OF cp2(1)]
  have c2: "vc_next (xp_versions cp2) + 1 = 2" "xp_channels cp2 0 = \<lparr>chn_open = True, chn_sent = []\<rparr>"
    using cp(4,6) by (simp_all add: e set_open_def)
  obtain cp3 res where cp3: "rebuild_from_config enc (Fin 0) cfg cp2 = (cp3, res)"
    "xp_channels cp3 0 = \<lparr>chn_open = True, chn_sent = ordered_responses s2\<rparr>"
    using rebuild_one_client [of enc cfg cp2 s2 "''envoy-1''" 0 "Fin 0"] s2 c2 cp2(3) by auto
  have v3: "xs_version (xp_snapshot cp3) = 2"
    using cp3(1) s2 c2(1) snapshot_parts(1) [OF s2]
    by (auto simp: rebuild_from_config_def increment_def broadcast_effect Let_def)
  have "map dr_version_info (ordered_responses s2) = map (\<lambda>_. ''2'') (map dr_type_url (ordered_responses s2))"
    using ordered_responses_built(2) [OF s2] sh by simp
  then have v2: "map dr_version_info (ordered_responses s2) = [''2'', ''2'', ''2'', ''2'']"
    by (simp only: ordered_responses_built(1) [OF s2]) (simp add: TYPE_URLS_IN_ORDER_def)
  let ?w = "\<lambda>cp rs. \<lparr>w_cp = cp, w_tasks = [0 \<mapsto> (''envoy-1'', rs)], w_next = 1\<rparr>"
  have "xds_reach enc 0 \<lparr>w_cp = ?cp1, w_tasks = [0 \<mapsto> ([], [])], w_next = 1\<rparr>"
    using xds_reach.connect [OF xds_reach.start [OF cp(2)]] by simp
  from xds_reach.receive [OF this, of 0 "[]"] cp2(1) have "xds_reach enc 0 (?w cp2 [r])" by simp
  from xds_reach.rebuild [OF this] cp3(1) have "xds_reach enc 1 (?w cp3 [r])" by simp
  from xds_reach.send [OF this, of 0 "''envoy-1''" r "[]"] cp3(2) have "xds_reach enc 1 (?w (send_one 0 r cp3) [])"
    by simp
  with cp3(2) v2 v3 cp2(2) show ?thesis
    by (intro exI [of _ "?w (send_one 0 r cp3) []"]) (simp add: send_one_def)
qed

theorem older_version_after_newer_witness:
  "\<exists>w. xds_reach (\<lambda>_. Inr []) 1 w \<and> xs_version (xp_snapshot (w_cp w)) = 2
    \<and> map dr_version_info (chn_sent (xp_channels (w_cp w) 0)) = [''2'', ''2'', ''2'', ''2'', ''1'']"
  by (rule older_version_after_newer [OF _ sample_valid]) (simp add: encodes_all_def)

end
