(* ===== verification/Plugins.thy ===== *)
theory Plugins
  imports Config_Types Utf8 "HOL-Library.Product_Lexorder"
begin

text \<open>
  The plugin engine (\<open>controlplane/src/plugins\<close>): discovery of the Lua files and the chain
  of each route (\<open>registry.rs\<close>, \<open>types.rs\<close>, \<open>mod.rs\<close>), the API of a plugin (\<open>sdk.rs\<close>), the
  virtual machine of a thread (\<open>pool.rs\<close>) and the execution of a chain (\<open>executor.rs\<close>).
  The file system, the \<open>jsonschema\<close> crate and the Lua virtual machine (\<open>mlua\<close>) are
  parameters.
\<close>

subsection \<open>Types\<close>

record PluginBinding =
  pb_id :: string
  pb_name :: string
  pb_priority :: int
  pb_version :: string
  pb_fail_open :: bool
  pb_source :: string
  pb_config :: json

record PluginMeta =
  pm_name :: string
  pm_priority :: int
  pm_version :: string
  pm_source :: string
  pm_schema :: "json option"

record PluginRuntime =
  pr_generation :: u64
  pr_limits :: PluginLimits
  pr_chains :: "string \<rightharpoonup> PluginBinding list"

record PluginRequest =
  pq_route_name :: string
  pq_host :: string
  pq_method :: string
  pq_path :: string
  pq_headers :: "(string \<times> string) list"

datatype PluginErrorType = Runtime | Memory | Timeout

fun PluginErrorType_as_str :: "PluginErrorType \<Rightarrow> string" where
  "PluginErrorType_as_str Runtime = ''runtime''"
| "PluginErrorType_as_str Memory = ''memory''"
| "PluginErrorType_as_str Timeout = ''timeout''"

type_synonym header_values = "(string \<times> string) list"

datatype PluginAccessResult =
  Continue header_values header_values u64
| ShortCircuit string u16 "string option" header_values u64
| AccessError string string PluginErrorType u64

record PluginExit =
  px_status :: u16
  px_body :: "string option"
  px_plugin_name :: string

datatype PluginError =
  MissingDirectory string | MissingPlugin string | SchemaValidation string string
| Load string string | RuntimeErr string string

definition quoted :: "string \<Rightarrow> string" where
  "quoted s = [CHR 0x27] @ s @ [CHR 0x27]"

fun PluginError_to_string :: "PluginError \<Rightarrow> string" where
  "PluginError_to_string (MissingDirectory d) = ''plugin directory '' @ quoted d @ '' does not exist''"
| "PluginError_to_string (MissingPlugin p) = ''plugin '' @ quoted p @ '' is configured but no Lua file was found''"
| "PluginError_to_string (SchemaValidation n r) = ''plugin '' @ quoted n @ '' failed schema validation: '' @ r"
| "PluginError_to_string (Load n r) = ''plugin '' @ quoted n @ '' failed to load: '' @ r"
| "PluginError_to_string (RuntimeErr n r) = ''plugin '' @ quoted n @ '' runtime error: '' @ r"

subsection \<open>Registry\<close>

record DirEntry =
  de_path :: string
  de_file_name :: string

text \<open>What building a runtime uses of its environment: the file system, evaluation of a plugin file in a fresh sandboxed machine with the
  reading of its fields, JSON schemas, and the conversion of a configuration to JSON.\<close>

record ('t, 's) plugin_env =
  dir_exists :: "string \<Rightarrow> bool"
  read_dir :: "string \<Rightarrow> (string, (string, DirEntry) result list) result"
  read_to_string :: "string \<Rightarrow> (string, string) result"
  eval_module :: "PluginLimits \<Rightarrow> string \<Rightarrow> string \<Rightarrow> (string, 't) result"
  get_string :: "'t \<Rightarrow> string \<Rightarrow> (string, string) result"
  get_i64 :: "'t \<Rightarrow> string \<Rightarrow> (string, int) result"
  get_json :: "'t \<Rightarrow> string \<Rightarrow> json option"
  schema_compile :: "json \<Rightarrow> (string, 's) result"
  schema_errors :: "'s \<Rightarrow> json \<Rightarrow> string list"
  to_json :: "yaml \<Rightarrow> json option"

text \<open>\<open>Path::extension\<close> and \<open>Path::file_stem\<close> of a file name.\<close>

definition extension :: "string \<Rightarrow> string option" where
  "extension file = (case rsplit_once CHR ''.'' file of
     Some (b, a) \<Rightarrow> if b = [] then None else Some a | None \<Rightarrow> None)"

definition file_stem :: "string \<Rightarrow> string" where
  "file_stem file = (case rsplit_once CHR ''.'' file of
     Some (b, _) \<Rightarrow> if b = [] then file else b | None \<Rightarrow> file)"

definition map_err :: "('e \<Rightarrow> 'f) \<Rightarrow> ('e, 'a) result \<Rightarrow> ('f, 'a) result" where
  "map_err f r = map_sum f (\<lambda>a. a) r"

definition extract_meta ::
  "('t, 's) plugin_env \<Rightarrow> string \<Rightarrow> string \<Rightarrow> PluginLimits \<Rightarrow> (PluginError, PluginMeta) result" where
  "extract_meta E name source limits =
     and_then (map_err (Load name) (eval_module E limits name source)) (\<lambda>plugin.
     and_then (map_err (\<lambda>e. Load name (''missing VERSION: '' @ e)) (get_string E plugin ''VERSION'')) (\<lambda>version.
     and_then (map_err (\<lambda>e. Load name (''missing PRIORITY: '' @ e)) (get_i64 E plugin ''PRIORITY'')) (\<lambda>priority.
     Inr \<lparr>pm_name = name, pm_priority = priority, pm_version = version, pm_source = source,
          pm_schema = get_json E plugin ''SCHEMA''\<rparr>)))"

fun discover_entries ::
  "('t, 's) plugin_env \<Rightarrow> string \<Rightarrow> PluginLimits \<Rightarrow> (string, DirEntry) result list
    \<Rightarrow> (string \<times> PluginMeta) list \<Rightarrow> (PluginError, (string \<times> PluginMeta) list) result" where
  "discover_entries E directory limits [] plugins = Inr plugins"
| "discover_entries E directory limits (Inl e # entries) plugins = Inl (Load directory e)"
| "discover_entries E directory limits (Inr entry # entries) plugins =
     (if extension (de_file_name entry) \<noteq> Some ''lua'' then discover_entries E directory limits entries plugins
      else
        and_then (map_err (Load (de_path entry)) (read_to_string E (de_path entry))) (\<lambda>source.
        and_then (if utf8_valid (file_stem (de_file_name entry)) then Inr (file_stem (de_file_name entry))
                  else Inl (Load (de_path entry) ''invalid UTF-8 file name'')) (\<lambda>name.
        and_then (extract_meta E name source limits) (\<lambda>meta.
        discover_entries E directory limits entries (mapping_insert name meta plugins)))))"

definition discover_plugins ::
  "('t, 's) plugin_env \<Rightarrow> string \<Rightarrow> PluginLimits \<Rightarrow> (PluginError, (string \<times> PluginMeta) list) result" where
  "discover_plugins E directory limits =
     and_then (map_err (Load directory) (read_dir E directory)) (\<lambda>entries.
       discover_entries E directory limits entries [])"

definition config_value :: "('t, 's) plugin_env \<Rightarrow> PluginInstance \<Rightarrow> json" where
  "config_value E instance = (case to_json E (pi_config instance) of Some j \<Rightarrow> j | None \<Rightarrow> JNull)"

fun join_semi :: "string list \<Rightarrow> string" where
  "join_semi [] = []"
| "join_semi [s] = s"
| "join_semi (s # ss) = s @ ''; '' @ join_semi ss"

definition validate_schema :: "('t, 's) plugin_env \<Rightarrow> PluginMeta \<Rightarrow> PluginInstance \<Rightarrow> (PluginError, unit) result" where
  "validate_schema E meta instance =
     (case pm_schema meta of
        None \<Rightarrow> Inr ()
      | Some schema \<Rightarrow>
          and_then (map_err (SchemaValidation (pm_name meta)) (schema_compile E schema)) (\<lambda>compiled.
            let errors = schema_errors E compiled (config_value E instance)
            in if errors \<noteq> [] then Inl (SchemaValidation (pm_name meta) (join_semi errors)) else Inr ()))"

definition binding_of :: "('t, 's) plugin_env \<Rightarrow> string \<Rightarrow> PluginMeta \<Rightarrow> PluginInstance \<Rightarrow> PluginBinding" where
  "binding_of E route_name meta instance =
     \<lparr>pb_id = route_name @ '':'' @ pi_name instance, pb_name = pm_name meta, pb_priority = pm_priority meta,
      pb_version = pm_version meta, pb_fail_open = (pi_fail_mode instance = ''open''),
      pb_source = pm_source meta, pb_config = config_value E instance\<rparr>"

definition push_bindings ::
  "('t, 's) plugin_env \<Rightarrow> string \<Rightarrow> PluginInstance list \<Rightarrow> (string \<times> PluginMeta) list
    \<Rightarrow> (PluginError, PluginBinding list) result" where
  "push_bindings E route_name configured registry =
     collect_results (\<lambda>instance.
       and_then (ok_or (map_of registry (pi_name instance)) (MissingPlugin (pi_name instance))) (\<lambda>meta.
       and_then (validate_schema E meta instance) (\<lambda>_.
       Inr (binding_of E route_name meta instance))))
       (filter pi_enabled configured)"

definition sort_bindings :: "PluginBinding list \<Rightarrow> PluginBinding list" where
  "sort_bindings = sort_key (\<lambda>b. (pb_priority b, pb_name b))"

fun build_chains ::
  "('t, 's) plugin_env \<Rightarrow> PluginInstance list \<Rightarrow> (string \<times> PluginMeta) list \<Rightarrow> RouteConfig list
    \<Rightarrow> (string \<rightharpoonup> PluginBinding list) \<Rightarrow> (PluginError, string \<rightharpoonup> PluginBinding list) result" where
  "build_chains E global registry [] cs = Inr cs"
| "build_chains E global registry (route # routes) cs =
     and_then (push_bindings E (rc_name route) global registry) (\<lambda>bs1.
     and_then (push_bindings E (rc_name route) (rc_plugins route) registry) (\<lambda>bs2.
     build_chains E global registry routes (cs(rc_name route \<mapsto> sort_bindings (bs1 @ bs2)))))"

definition build_runtime ::
  "('t, 's) plugin_env \<Rightarrow> GatewayConfig \<Rightarrow> u64 \<Rightarrow> (PluginError, PluginRuntime) result" where
  "build_runtime E config generation =
     (let plugins = gc_plugins config;
          runtime = (\<lambda>cs. \<lparr>pr_generation = generation, pr_limits = pc_limits plugins, pr_chains = cs\<rparr>)
      in if \<not> pc_enabled plugins then Inr (runtime Map.empty)
         else if \<not> dir_exists E (pc_directory plugins) then Inl (MissingDirectory (pc_directory plugins))
         else
           and_then (discover_plugins E (pc_directory plugins) (pc_limits plugins)) (\<lambda>registry.
           and_then (build_chains E (pc_global plugins) registry (gc_routes config) Map.empty) (\<lambda>cs.
           Inr (runtime cs))))"

subsection \<open>Engine\<close>

record PluginEngine =
  pe_runtime :: PluginRuntime
  pe_next_generation :: u64

definition PluginEngine_new :: "PluginRuntime \<Rightarrow> PluginEngine" where
  "PluginEngine_new runtime = \<lparr>pe_runtime = runtime, pe_next_generation = pr_generation runtime + 1\<rparr>"

definition next_generation :: "PluginEngine \<Rightarrow> PluginEngine \<times> u64" where
  "next_generation engine = (engine\<lparr>pe_next_generation := pe_next_generation engine + 1\<rparr>, pe_next_generation engine)"

definition replace_runtime :: "PluginRuntime \<Rightarrow> PluginEngine \<Rightarrow> PluginEngine" where
  "replace_runtime runtime engine = engine\<lparr>pe_runtime := runtime\<rparr>"

definition PluginEngine_from_config :: "('t, 's) plugin_env \<Rightarrow> GatewayConfig \<Rightarrow> (PluginError, PluginEngine) result" where
  "PluginEngine_from_config E config =
     and_then (build_runtime E config 1) (\<lambda>runtime. Inr (PluginEngine_new runtime))"

definition reload_from_config ::
  "('t, 's) plugin_env \<Rightarrow> GatewayConfig \<Rightarrow> PluginEngine \<Rightarrow> PluginEngine \<times> (PluginError, unit) result" where
  "reload_from_config E config engine =
     (let (engine1, generation) = next_generation engine
      in case build_runtime E config generation of
           Inl e \<Rightarrow> (engine1, Inl e)
         | Inr runtime \<Rightarrow> (replace_runtime runtime engine1, Inr ()))"

end
