(* ===== verification/Plugin_Exec.thy ===== *)
theory Plugin_Exec
  imports Plugins
begin

text \<open>
  Running a plugin chain (\<open>sdk.rs\<close>, \<open>pool.rs\<close>, \<open>executor.rs\<close>). A plugin reaches the
  gateway only through the functions of the API, so a call of one of its phases is given
  by the calls it makes on the API, in order, and the way it ends. The Lua machine is the
  parameter \<open>L\<close>: \<open>'l\<close> is its state, \<open>'c\<close> a table, \<open>'i\<close> a plugin instance, \<open>'k\<close> a key of
  its registry.
\<close>

subsection \<open>The API\<close>

definition EXIT_SENTINEL :: string where "EXIT_SENTINEL = ''__gateway_plugin_exit__''"

definition RESERVED_HEADER_PREFIXES :: "string list" where
  "RESERVED_HEADER_PREFIXES = [''x-auth-'', ''x-ratelimit-'', ''x-envoy-'']"

record RuntimeState =
  rs_upstream_headers :: header_values
  rs_response_headers :: header_values
  rs_short_circuit :: "PluginExit option"

definition RuntimeState_new :: RuntimeState where
  "RuntimeState_new = \<lparr>rs_upstream_headers = [], rs_response_headers = [], rs_short_circuit = None\<rparr>"

text \<open>\<open>mlua::Error\<close> as far as the code looks into it: an error raised by a Rust function
  reaches the caller of the Lua function that called it as a \<open>CallbackError\<close>.\<close>

datatype LuaError = RuntimeError string | CallbackError LuaError | OtherError string

fun is_exit_error :: "LuaError \<Rightarrow> bool" where
  "is_exit_error (RuntimeError message) \<longleftrightarrow> message = EXIT_SENTINEL"
| "is_exit_error _ \<longleftrightarrow> False"

text \<open>The functions that write: \<open>gateway.response.set_header\<close>, \<open>gateway.response.exit\<close> and
  \<open>gateway.service.request.set_header\<close>.\<close>

datatype ApiCall =
  SetResponseHeader string string | Exit u16 "string option" | SetUpstreamHeader string string

definition reserved :: "string \<Rightarrow> bool" where
  "reserved lower \<longleftrightarrow> list_ex (\<lambda>p. starts_with lower p) RESERVED_HEADER_PREFIXES"

fun api_call :: "string \<Rightarrow> RuntimeState \<Rightarrow> ApiCall \<Rightarrow> RuntimeState \<times> (LuaError, unit) result" where
  "api_call plugin_name rs (SetResponseHeader name v) =
     (rs\<lparr>rs_response_headers := mapping_insert (to_ascii_lowercase name) v (rs_response_headers rs)\<rparr>, Inr ())"
| "api_call plugin_name rs (Exit status body) =
     (rs\<lparr>rs_short_circuit := Some \<lparr>px_status = status, px_body = body, px_plugin_name = plugin_name\<rparr>\<rparr>,
      Inl (RuntimeError EXIT_SENTINEL))"
| "api_call plugin_name rs (SetUpstreamHeader name v) =
     (let lower = to_ascii_lowercase name in
      if reserved lower then
        (rs, Inl (RuntimeError (''header '' @ quoted name @ '' is reserved and cannot be set by plugins'')))
      else (rs\<lparr>rs_upstream_headers := mapping_insert lower v (rs_upstream_headers rs)\<rparr>, Inr ()))"

definition api_calls :: "string \<Rightarrow> ApiCall list \<Rightarrow> RuntimeState \<Rightarrow> RuntimeState" where
  "api_calls plugin_name calls rs = foldl (\<lambda>rs c. fst (api_call plugin_name rs c)) rs calls"

text \<open>\<open>gateway.request.get_header\<close>.\<close>

definition get_header :: "PluginRequest \<Rightarrow> string \<Rightarrow> string option" where
  "get_header request name =
     map_option snd (find (\<lambda>(key, _). eq_ignore_ascii_case key name) (pq_headers request))"

text \<open>What \<open>install_gateway\<close> makes visible to a plugin.\<close>

record 'c gateway =
  gw_request :: PluginRequest
  gw_binding :: PluginBinding
  gw_shared :: 'c
  gw_response_status :: "u16 option"

text \<open>The functions and fields of \<open>gateway\<close> that only read: those of \<open>request\<close>, \<open>route\<close>,
  \<open>plugin\<close> and \<open>ctx\<close>. The functions of \<open>log\<close> return nothing.\<close>

datatype ApiQuery =
  RequestGetHeader string | RequestGetMethod | RequestGetPath | RequestGetHost
| RouteGetName | PluginGetName | PluginGetVersion | PluginGetConfig | CtxResponseStatus | LogMessage string string

datatype ApiValue = NoValue | StringValue string | StatusValue u16 | ConfigValue json

fun request_query :: "PluginRequest \<Rightarrow> ApiQuery \<Rightarrow> ApiValue" where
  "request_query request (RequestGetHeader name) =
     (case get_header request name of Some v \<Rightarrow> StringValue v | None \<Rightarrow> NoValue)"
| "request_query request RequestGetMethod = StringValue (pq_method request)"
| "request_query request RequestGetPath = StringValue (pq_path request)"
| "request_query request RequestGetHost = StringValue (pq_host request)"
| "request_query request _ = NoValue"

fun plugin_query :: "PluginBinding \<Rightarrow> ApiQuery \<Rightarrow> ApiValue" where
  "plugin_query binding PluginGetName = StringValue (pb_name binding)"
| "plugin_query binding PluginGetVersion = StringValue (pb_version binding)"
| "plugin_query binding PluginGetConfig = ConfigValue (pb_config binding)"
| "plugin_query binding _ = NoValue"

fun api_query :: "'c gateway \<Rightarrow> ApiQuery \<Rightarrow> ApiValue" where
  "api_query g RouteGetName = StringValue (pq_route_name (gw_request g))"
| "api_query g CtxResponseStatus = (case gw_response_status g of Some s \<Rightarrow> StatusValue s | None \<Rightarrow> NoValue)"
| "api_query g PluginGetName = plugin_query (gw_binding g) PluginGetName"
| "api_query g PluginGetVersion = plugin_query (gw_binding g) PluginGetVersion"
| "api_query g PluginGetConfig = plugin_query (gw_binding g) PluginGetConfig"
| "api_query g (LogMessage level message) = NoValue"
| "api_query g q = request_query (gw_request g) q"

subsection \<open>The Lua machine\<close>

record ('l, 'c, 'i, 'k) lua =
  create_vm :: "PluginLimits \<Rightarrow> (string, 'l) result"
  reset_limits :: "'l \<Rightarrow> PluginLimits \<Rightarrow> 'l \<times> (string, unit) result"
  create_table :: "'l \<Rightarrow> 'l \<times> (string, 'c) result"
  registry_value :: "'l \<Rightarrow> 'k \<Rightarrow> (string, 'i) result"
  eval_plugin :: "'l \<Rightarrow> string \<Rightarrow> string \<Rightarrow> 'l \<times> (string, 'i) result"
  call_new :: "'l \<Rightarrow> 'i \<Rightarrow> json \<Rightarrow> ('l \<times> (string, 'i) result) option"
  create_registry_value :: "'l \<Rightarrow> 'i \<Rightarrow> 'l \<times> (string, 'k) result"
  install_gateway :: "'l \<Rightarrow> 'c gateway \<Rightarrow> 'l \<times> (string, unit) result"
  new_ctx :: "'l \<Rightarrow> 'c \<Rightarrow> u16 option \<Rightarrow> 'l \<times> (string, 'c) result"
  call_phase :: "'l \<Rightarrow> 'i \<Rightarrow> string \<Rightarrow> 'c \<Rightarrow> ('l \<times> ApiCall list \<times> (LuaError, unit) result) option"
  clear_gateway :: "'l \<Rightarrow> 'l"
  lua_error_string :: "LuaError \<Rightarrow> string"

record ('l, 'k) ThreadLocalVm =
  tv_lua :: 'l
  tv_generation :: u64
  tv_instances :: "string \<rightharpoonup> 'k"

definition ThreadLocalVm_new :: "('l, 'c, 'i, 'k) lua \<Rightarrow> (PluginError, ('l, 'k) ThreadLocalVm) result" where
  "ThreadLocalVm_new L =
     and_then (map_err (Load ''sandbox'') (create_vm L PluginLimits_default)) (\<lambda>l.
       Inr \<lparr>tv_lua = l, tv_generation = 0, tv_instances = Map.empty\<rparr>)"

definition prepare ::
  "('l, 'c, 'i, 'k) lua \<Rightarrow> u64 \<Rightarrow> PluginLimits \<Rightarrow> ('l, 'k) ThreadLocalVm
    \<Rightarrow> ('l, 'k) ThreadLocalVm \<times> (PluginError, unit) result" where
  "prepare L generation limits vm =
     (let vm1 = (if tv_generation vm \<noteq> generation
                 then vm\<lparr>tv_generation := generation, tv_instances := Map.empty\<rparr> else vm);
          (l, r) = reset_limits L (tv_lua vm1) limits
      in (vm1\<lparr>tv_lua := l\<rparr>, map_err (Load ''sandbox'') r))"

text \<open>The slot of a thread: the machine, or the error its creation ended with.\<close>

type_synonym ('l, 'k) vm_slot = "(PluginError, ('l, 'k) ThreadLocalVm) result"

definition with_thread_local_vm ::
  "('l, 'c, 'i, 'k) lua \<Rightarrow> u64 \<Rightarrow> PluginLimits
    \<Rightarrow> (('l, 'k) ThreadLocalVm \<Rightarrow> ('l, 'k) ThreadLocalVm \<times> (PluginError, 'r) result)
    \<Rightarrow> ('l, 'k) vm_slot \<Rightarrow> ('l, 'k) vm_slot \<times> (PluginError, 'r) result" where
  "with_thread_local_vm L generation limits f slot =
     (case slot of
        Inl err \<Rightarrow> (slot, Inl (Load ''sandbox'' (PluginError_to_string err)))
      | Inr vm \<Rightarrow>
          (case prepare L generation limits vm of
             (vm1, Inl e) \<Rightarrow> (Inr vm1, Inl e)
           | (vm1, Inr _) \<Rightarrow> map_prod Inr (\<lambda>r. r) (f vm1)))"

subsection \<open>One phase of one plugin\<close>

definition plugin_instance ::
  "('l, 'c, 'i, 'k) lua \<Rightarrow> PluginBinding \<Rightarrow> ('l, 'k) ThreadLocalVm
    \<Rightarrow> ('l, 'k) ThreadLocalVm \<times> (PluginError, 'i) result" where
  "plugin_instance L binding vm =
     (let load = Load (pb_name binding) in
      case tv_instances vm (pb_id binding) of
        Some key \<Rightarrow> (vm, map_err load (registry_value L (tv_lua vm) key))
      | None \<Rightarrow>
          (case eval_plugin L (tv_lua vm) (pb_source binding) (pb_name binding) of
             (l1, Inl e) \<Rightarrow> (vm\<lparr>tv_lua := l1\<rparr>, Inl (load e))
           | (l1, Inr plugin) \<Rightarrow>
               (case (case call_new L l1 plugin (pb_config binding) of None \<Rightarrow> (l1, Inr plugin) | Some r \<Rightarrow> r) of
                  (l2, Inl e) \<Rightarrow> (vm\<lparr>tv_lua := l2\<rparr>, Inl (load e))
                | (l2, Inr inst) \<Rightarrow>
                    (case create_registry_value L l2 inst of
                       (l3, Inl e) \<Rightarrow> (vm\<lparr>tv_lua := l3\<rparr>, Inl (load e))
                     | (l3, Inr key) \<Rightarrow>
                         (vm\<lparr>tv_lua := l3, tv_instances := (tv_instances vm)(pb_id binding \<mapsto> key)\<rparr>, Inr inst)))))"

text \<open>The call of the phase function once the gateway is installed, and what its end means.\<close>

definition finish_phase ::
  "('l, 'c, 'i, 'k) lua \<Rightarrow> PluginBinding \<Rightarrow> RuntimeState \<Rightarrow> (LuaError, unit) result
    \<Rightarrow> (PluginError, PluginExit option) result" where
  "finish_phase L binding rs call_result =
     (case call_result of
        Inr _ \<Rightarrow> Inr (rs_short_circuit rs)
      | Inl error \<Rightarrow>
          if is_exit_error error then Inr (rs_short_circuit rs)
          else if pb_fail_open binding then Inr None
          else Inl (RuntimeErr (pb_name binding) (lua_error_string L error)))"

definition run_phase ::
  "('l, 'c, 'i, 'k) lua \<Rightarrow> PluginRequest \<Rightarrow> 'c \<Rightarrow> string \<Rightarrow> u16 option \<Rightarrow> PluginBinding
    \<Rightarrow> ('l, 'k) ThreadLocalVm \<times> RuntimeState
    \<Rightarrow> (('l, 'k) ThreadLocalVm \<times> RuntimeState) \<times> (PluginError, PluginExit option) result" where
  "run_phase L request shared_ctx phase response_status binding st =
     (let (vm, rs) = st; err = RuntimeErr (pb_name binding) in
      case plugin_instance L binding vm of
        (vm1, Inl e) \<Rightarrow> ((vm1, rs), Inl e)
      | (vm1, Inr inst) \<Rightarrow>
          (case install_gateway L (tv_lua vm1) \<lparr>gw_request = request, gw_binding = binding,
               gw_shared = shared_ctx, gw_response_status = response_status\<rparr> of
             (l2, Inl e) \<Rightarrow> ((vm1\<lparr>tv_lua := l2\<rparr>, rs), Inl (err e))
           | (l2, Inr _) \<Rightarrow>
               (case new_ctx L l2 shared_ctx response_status of
                  (l3, Inl e) \<Rightarrow> ((vm1\<lparr>tv_lua := l3\<rparr>, rs), Inl (err e))
                | (l3, Inr ctx) \<Rightarrow>
                    (case call_phase L l3 inst phase ctx of
                       None \<Rightarrow> ((vm1\<lparr>tv_lua := clear_gateway L l3\<rparr>, rs), Inr None)
                     | Some (l4, calls, call_result) \<Rightarrow>
                         let rs' = api_calls (pb_name binding) calls rs
                         in ((vm1\<lparr>tv_lua := clear_gateway L l4\<rparr>, rs'), finish_phase L binding rs' call_result)))))"

subsection \<open>The chain\<close>

definition contains :: "string \<Rightarrow> string \<Rightarrow> bool" where
  "contains s p \<longleftrightarrow> list_ex (\<lambda>t. prefix p t) (suffixes s)"

fun classify_error :: "PluginError \<Rightarrow> PluginErrorType" where
  "classify_error (RuntimeErr _ reason) = (if contains (to_ascii_lowercase reason) ''memory'' then Memory else Runtime)"
| "classify_error _ = Runtime"

text \<open>The clock of one execution: \<open>ms i\<close> and \<open>us i\<close> are what \<open>started.elapsed()\<close> reads in
  milliseconds before the \<open>i\<close>-th plugin and in microseconds when the chain ends there.\<close>

record elapsed =
  el_ms :: "nat \<Rightarrow> u64"
  el_us :: "nat \<Rightarrow> u64"

fun access_loop ::
  "('l, 'c, 'i, 'k) lua \<Rightarrow> elapsed \<Rightarrow> PluginLimits \<Rightarrow> PluginRequest \<Rightarrow> 'c \<Rightarrow> nat \<Rightarrow> PluginBinding list
    \<Rightarrow> ('l, 'k) ThreadLocalVm \<times> RuntimeState \<Rightarrow> ('l, 'k) ThreadLocalVm \<times> PluginAccessResult" where
  "access_loop L el limits request ctx i [] st =
     (fst st, Continue (rs_upstream_headers (snd st)) (rs_response_headers (snd st)) (el_us el i))"
| "access_loop L el limits request ctx i (binding # bindings) st =
     (if el_ms el i > pl_chain_timeout_ms limits then
        (fst st, AccessError (pb_name binding)
          (''plugin chain exceeded '' @ show_nat (unat (pl_chain_timeout_ms limits)) @ '' ms'') Timeout (el_us el i))
      else
        case run_phase L request ctx ''access'' None binding st of
          (st', Inl error) \<Rightarrow>
            (fst st', AccessError (pb_name binding) (PluginError_to_string error) (classify_error error) (el_us el i))
        | (st', Inr (Some x)) \<Rightarrow>
            (fst st', ShortCircuit (px_plugin_name x) (px_status x) (px_body x) (rs_response_headers (snd st')) (el_us el i))
        | (st', Inr None) \<Rightarrow> access_loop L el limits request ctx (Suc i) bindings st')"

definition execute_access ::
  "('l, 'c, 'i, 'k) lua \<Rightarrow> elapsed \<Rightarrow> PluginRequest \<Rightarrow> PluginEngine \<Rightarrow> ('l, 'k) vm_slot
    \<Rightarrow> ('l, 'k) vm_slot \<times> (PluginError, PluginAccessResult) result" where
  "execute_access L el request engine slot =
     (let runtime = pe_runtime engine in
      case pr_chains runtime (pq_route_name request) of
        None \<Rightarrow> (slot, Inr (Continue [] [] 0))
      | Some bindings \<Rightarrow>
          with_thread_local_vm L (pr_generation runtime) (pr_limits runtime) (\<lambda>vm.
            case create_table L (tv_lua vm) of
              (l, Inl e) \<Rightarrow> (vm\<lparr>tv_lua := l\<rparr>, Inl (RuntimeErr ''ctx'' e))
            | (l, Inr ctx) \<Rightarrow>
                map_prod (\<lambda>vm. vm) Inr
                  (access_loop L el (pr_limits runtime) request ctx 0 bindings (vm\<lparr>tv_lua := l\<rparr>, RuntimeState_new)))
            slot)"

definition execute_log ::
  "('l, 'c, 'i, 'k) lua \<Rightarrow> PluginRequest \<Rightarrow> u16 \<Rightarrow> PluginEngine \<Rightarrow> ('l, 'k) vm_slot
    \<Rightarrow> ('l, 'k) vm_slot \<times> (PluginError, unit) result" where
  "execute_log L request response_status engine slot =
     (let runtime = pe_runtime engine in
      case pr_chains runtime (pq_route_name request) of
        None \<Rightarrow> (slot, Inr ())
      | Some bindings \<Rightarrow>
          with_thread_local_vm L (pr_generation runtime) (pr_limits runtime) (\<lambda>vm.
            case create_table L (tv_lua vm) of
              (l, Inl e) \<Rightarrow> (vm\<lparr>tv_lua := l\<rparr>, Inl (RuntimeErr ''ctx'' e))
            | (l, Inr ctx) \<Rightarrow>
                (fst (foldl (\<lambda>st binding. fst (run_phase L request ctx ''log'' (Some response_status) binding st))
                   (vm\<lparr>tv_lua := l\<rparr>, RuntimeState_new) (rev bindings)), Inr ()))
            slot)"

end
