(* ===== verification/Plugins_Correct.thy ===== *)
theory Plugins_Correct
  imports Plugin_Exec Sample_Config "HOL-Library.Multiset"
begin

text \<open>
  Properties of the plugin engine: what the chain of a route holds, what a plugin can do to
  the headers, when a chain continues, and how \<open>gateway.response.exit\<close> ends.
\<close>

subsection \<open>Chains\<close>

definition bound :: "('t, 's) plugin_env \<Rightarrow> (string \<times> PluginMeta) list \<Rightarrow> string \<Rightarrow> PluginInstance \<Rightarrow> PluginBinding" where
  "bound E registry r i = binding_of E r (the (map_of registry (pi_name i))) i"

lemma list_all2_map:
  "list_all2 R xs ys \<Longrightarrow> (\<And>x y. R x y \<Longrightarrow> y = g x \<and> P x) \<Longrightarrow> ys = map g xs \<and> (\<forall>x \<in> set xs. P x)"
  by (induction rule: list_all2_induct) auto

lemma push_bindings_Inr:
  assumes "push_bindings E r configured registry = Inr bs"
  shows "bs = map (bound E registry r) (filter pi_enabled configured)
    \<and> (\<forall>i \<in> set (filter pi_enabled configured). \<exists>m. map_of registry (pi_name i) = Some m \<and> validate_schema E m i = Inr ())"
  using assms unfolding push_bindings_def collect_results_Inr
  by (rule list_all2_map) (auto simp: and_then_Inr ok_or_def bound_def split: option.splits)

lemma build_chains_Inr:
  assumes "build_chains E global registry routes cs0 = Inr cs" "distinct (map rc_name routes)"
  shows "(\<forall>route \<in> set routes.
      cs (rc_name route) = Some (sort_bindings (map (bound E registry (rc_name route)) (filter pi_enabled (global @ rc_plugins route))))
      \<and> (\<forall>i \<in> set (filter pi_enabled (global @ rc_plugins route)).
           \<exists>m. map_of registry (pi_name i) = Some m \<and> validate_schema E m i = Inr ()))
    \<and> (\<forall>n. n \<notin> rc_name ` set routes \<longrightarrow> cs n = cs0 n)"
  using assms
proof (induction routes arbitrary: cs0)
  case (Cons route routes)
  then obtain bs1 bs2 where b: "push_bindings E (rc_name route) global registry = Inr bs1"
    "push_bindings E (rc_name route) (rc_plugins route) registry = Inr bs2"
    "build_chains E global registry routes (cs0(rc_name route \<mapsto> sort_bindings (bs1 @ bs2))) = Inr cs"
    by (auto simp: and_then_Inr)
  from push_bindings_Inr [OF b(1)] push_bindings_Inr [OF b(2)] Cons.IH [OF b(3)] Cons.prems(2)
  show ?case by (auto simp: image_iff)
qed simp

subsection \<open>The runtime state under API calls\<close>

definition clean :: "RuntimeState \<Rightarrow> bool" where
  "clean rs \<longleftrightarrow> (\<forall>(n, v) \<in> set (rs_upstream_headers rs). \<not> reserved n \<and> to_ascii_lowercase n = n)"

lemma mapping_insert_subset: "set (mapping_insert k v m) \<subseteq> insert (k, v) (set m)"
  by (induction k v m rule: mapping_insert.induct) auto

lemma clean_new [simp]: "clean RuntimeState_new"
  by (simp add: clean_def RuntimeState_new_def)

lemma clean_api_call: "clean rs \<Longrightarrow> clean (fst (api_call p rs c))"
  using mapping_insert_subset by (cases c) (fastforce simp: clean_def Let_def)+

lemma clean_api_calls: "clean rs \<Longrightarrow> clean (api_calls p calls rs)"
  unfolding api_calls_def by (induction calls arbitrary: rs) (simp_all add: clean_api_call)

lemma clean_run_phase:
  assumes "clean (snd st)"
  shows "clean (snd (fst (run_phase L request ctx ph status b st)))"
  using assms
  by (auto simp: run_phase_def Let_def clean_api_calls split: prod.splits sum.splits option.splits)

lemma access_loop_clean:
  assumes "clean (snd st)" "access_loop L el limits request ctx i bs st = (vm, Continue up resp us)"
  shows "\<forall>(n, v) \<in> set up. \<not> reserved n \<and> to_ascii_lowercase n = n"
  using assms
proof (induction bs arbitrary: i st)
  case Nil
  then show ?case by (auto simp: clean_def)
next
  case (Cons b bs)
  from Cons.prems(2) obtain st' where st': "run_phase L request ctx ''access'' None b st = (st', Inr None)"
    "access_loop L el limits request ctx (Suc i) bs st' = (vm, Continue up resp us)"
    by (auto split: if_splits prod.splits sum.splits option.splits)
  have "clean (snd st')" using clean_run_phase [OF Cons.prems(1), of L request ctx "''access''" None b] st'(1) by simp
  from Cons.IH [OF this st'(2)] show ?case .
qed

lemma with_vm_Inr:
  assumes "with_thread_local_vm L g limits f slot = (slot', Inr r)"
  shows "\<exists>vm vm'. slot' = Inr vm' \<and> f vm = (vm', Inr r)"
  using assms by (auto simp: with_thread_local_vm_def map_prod_def split: sum.splits prod.splits)

lemma execute_access_Some:
  assumes "pr_chains (pe_runtime engine) (pq_route_name request) = Some bs"
    and "execute_access L el request engine slot = (slot', Inr r)"
  shows "\<exists>vm vm' ctx. access_loop L el (pr_limits (pe_runtime engine)) request ctx 0 bs (vm, RuntimeState_new) = (vm', r)"
proof -
  from with_vm_Inr [where r = r and slot' = slot'] assms obtain vm vm' where
    "(case create_table L (tv_lua vm) of (l, Inl e) \<Rightarrow> (vm\<lparr>tv_lua := l\<rparr>, Inl (RuntimeErr ''ctx'' e))
      | (l, Inr ctx) \<Rightarrow> map_prod (\<lambda>vm. vm) Inr (access_loop L el (pr_limits (pe_runtime engine)) request ctx 0 bs
          (vm\<lparr>tv_lua := l\<rparr>, RuntimeState_new))) = (vm', Inr r)"
    unfolding execute_access_def Let_def by fastforce
  then show ?thesis by (auto simp: map_prod_def split: sum.splits prod.splits)
qed

lemma execute_access_clean:
  assumes "execute_access L el request engine slot = (slot', Inr (Continue up resp us))"
  shows "\<forall>(n, v) \<in> set up. \<not> reserved n \<and> to_ascii_lowercase n = n"
proof (cases "pr_chains (pe_runtime engine) (pq_route_name request)")
  case None
  with assms show ?thesis by (auto simp: execute_access_def)
next
  case (Some bs)
  from execute_access_Some [OF this assms] obtain vm vm' ctx where
    "access_loop L el (pr_limits (pe_runtime engine)) request ctx 0 bs (vm, RuntimeState_new) = (vm', Continue up resp us)"
    by blast
  then show ?thesis by (rule access_loop_clean [rotated]) simp
qed

text \<open>Where the chain of a request starts: the shared table of the chain, and the machine with
  nothing set yet.\<close>

definition chain_start ::
  "('l, 'c, 'i, 'k) lua \<Rightarrow> PluginEngine \<Rightarrow> ('l, 'k) vm_slot \<Rightarrow> ('c \<times> ('l, 'k) ThreadLocalVm \<times> RuntimeState) option" where
  "chain_start L engine slot =
     (case slot of
        Inl _ \<Rightarrow> None
      | Inr vm \<Rightarrow>
          (case prepare L (pr_generation (pe_runtime engine)) (pr_limits (pe_runtime engine)) vm of
             (_, Inl _) \<Rightarrow> None
           | (vm1, Inr _) \<Rightarrow>
               (case create_table L (tv_lua vm1) of
                  (_, Inl _) \<Rightarrow> None
                | (l, Inr ctx) \<Rightarrow> Some (ctx, vm1\<lparr>tv_lua := l\<rparr>, RuntimeState_new))))"

lemma execute_access_start:
  assumes "pr_chains (pe_runtime engine) (pq_route_name request) = Some bs" "chain_start L engine slot = Some (ctx, st)"
  shows "snd (execute_access L el request engine slot) = Inr (snd (access_loop L el (pr_limits (pe_runtime engine)) request ctx 0 bs st))"
  using assms
  by (auto simp: chain_start_def execute_access_def with_thread_local_vm_def Let_def split: sum.splits prod.splits)

text \<open>The state when the plugins \<open>bs\<close> have run one after the other.\<close>

definition state_after ::
  "('l, 'c, 'i, 'k) lua \<Rightarrow> PluginRequest \<Rightarrow> 'c \<Rightarrow> PluginBinding list \<Rightarrow> ('l, 'k) ThreadLocalVm \<times> RuntimeState
    \<Rightarrow> ('l, 'k) ThreadLocalVm \<times> RuntimeState" where
  "state_after L request ctx bs st = foldl (\<lambda>st b. fst (run_phase L request ctx ''access'' None b st)) st bs"

text \<open>What the plugin \<open>b\<close> does when it is its turn in the state \<open>st\<close>. \<open>None\<close>: the plugin could not be
  loaded or not be given its gateway. \<open>Some None\<close>: it has no access function. Otherwise the calls
  its access function makes on the gateway and how it ends.\<close>

definition access_call ::
  "('l, 'c, 'i, 'k) lua \<Rightarrow> PluginRequest \<Rightarrow> 'c \<Rightarrow> PluginBinding \<Rightarrow> ('l, 'k) ThreadLocalVm \<times> RuntimeState
    \<Rightarrow> (ApiCall list \<times> (LuaError, unit) result) option option" where
  "access_call L request ctx b st =
     (case plugin_instance L b (fst st) of
        (_, Inl _) \<Rightarrow> None
      | (vm1, Inr inst) \<Rightarrow>
          (case install_gateway L (tv_lua vm1) \<lparr>gw_request = request, gw_binding = b, gw_shared = ctx, gw_response_status = None\<rparr> of
             (_, Inl _) \<Rightarrow> None
           | (l2, Inr _) \<Rightarrow>
               (case new_ctx L l2 ctx None of
                  (_, Inl _) \<Rightarrow> None
                | (l3, Inr ctx') \<Rightarrow> Some (map_option snd (call_phase L l3 inst ''access'' ctx')))))"

text \<open>The plugin lets the chain go on: it has no access function; or the function returned (or ended
  with a bare exit error) and no response is pending, neither one of its own nor one that a plugin
  before it asked for; or the function failed and the plugin fails open. A failure includes an
  exit whose error arrives wrapped.\<close>

definition passes ::
  "('l, 'c, 'i, 'k) lua \<Rightarrow> PluginRequest \<Rightarrow> 'c \<Rightarrow> PluginBinding \<Rightarrow> ('l, 'k) ThreadLocalVm \<times> RuntimeState \<Rightarrow> bool" where
  "passes L request ctx b st \<longleftrightarrow>
     (case access_call L request ctx b st of
        None \<Rightarrow> False
      | Some None \<Rightarrow> True
      | Some (Some (calls, Inr _)) \<Rightarrow>
          rs_short_circuit (snd st) = None \<and> (\<forall>status body. Exit status body \<notin> set calls)
      | Some (Some (calls, Inl e)) \<Rightarrow>
          if e = RuntimeError ''__gateway_plugin_exit__''
          then rs_short_circuit (snd st) = None \<and> (\<forall>status body. Exit status body \<notin> set calls)
          else pb_fail_open b)"

lemma api_calls_pending:
  "rs_short_circuit (api_calls p calls rs) = None \<longleftrightarrow> rs_short_circuit rs = None \<and> (\<forall>status body. Exit status body \<notin> set calls)"
proof (induction calls arbitrary: rs)
  case (Cons c calls)
  have "rs_short_circuit (fst (api_call p rs c)) = None \<longleftrightarrow> rs_short_circuit rs = None \<and> (\<forall>status body. c \<noteq> Exit status body)"
    by (cases c) (simp_all add: Let_def)
  with Cons.IH [of "fst (api_call p rs c)"] show ?case by (auto simp: api_calls_def)
qed (simp add: api_calls_def)

lemma is_exit_error_iff: "is_exit_error e \<longleftrightarrow> e = RuntimeError ''__gateway_plugin_exit__''"
  by (cases e) (simp_all add: EXIT_SENTINEL_def)

lemma run_phase_passes: "snd (run_phase L request ctx ''access'' None b st) = Inr None \<longleftrightarrow> passes L request ctx b st"
  by (cases st) (auto simp: run_phase_def passes_def access_call_def finish_phase_def api_calls_pending is_exit_error_iff Let_def
      split: prod.splits sum.splits option.splits)

lemma split_Cons_all:
  "(\<forall>pre b post. x # bs = pre @ b # post \<longrightarrow> P pre b) \<longleftrightarrow> P [] x \<and> (\<forall>pre b post. bs = pre @ b # post \<longrightarrow> P (x # pre) b)"
  by (simp add: Cons_eq_append_conv all_conj_distrib imp_conjR) blast

lemma access_loop_continue_iff:
  "(\<forall>pre b post. bs = pre @ b # post \<longrightarrow>
      el_ms el (i + length pre) \<le> pl_chain_timeout_ms limits \<and> passes L request ctx b (state_after L request ctx pre st))
   \<longleftrightarrow> (\<exists>up resp us. snd (access_loop L el limits request ctx i bs st) = Continue up resp us)"
  (is "?A bs i st \<longleftrightarrow> ?B bs i st")
proof (induction bs arbitrary: i st)
  case (Cons x bs)
  let ?st = "fst (run_phase L request ctx ''access'' None x st)"
  have a: "?A (x # bs) i st \<longleftrightarrow> el_ms el i \<le> pl_chain_timeout_ms limits \<and> passes L request ctx x st \<and> ?A bs (Suc i) ?st"
    unfolding split_Cons_all by (simp add: state_after_def)
  have b: "?B (x # bs) i st \<longleftrightarrow> el_ms el i \<le> pl_chain_timeout_ms limits \<and> passes L request ctx x st \<and> ?B bs (Suc i) ?st"
    unfolding run_phase_passes [symmetric]
    by (auto simp: not_less split: prod.splits sum.splits option.splits)
  show ?case unfolding a b Cons.IH by (rule refl)
qed simp

lemma access_loop_continue_value:
  "snd (access_loop L el limits request ctx i bs st) = Continue up resp us \<Longrightarrow>
     up = rs_upstream_headers (snd (state_after L request ctx bs st)) \<and> resp = rs_response_headers (snd (state_after L request ctx bs st))"
  by (induction bs arbitrary: i st) (auto simp: state_after_def split: if_splits prod.splits sum.splits option.splits)

text \<open>A plugin that fails closed lets the chain go on only if it has no access function, or
  its access function ended without an error, or with an exit.\<close>

lemma run_phase_closed:
  assumes "snd (run_phase L request ctx ph status b st) = Inr None" "\<not> pb_fail_open b"
  shows "\<exists>l inst ctx'. call_phase L l inst ph ctx' = None
    \<or> (\<exists>l' calls res. call_phase L l inst ph ctx' = Some (l', calls, res)
         \<and> (case res of Inl e \<Rightarrow> is_exit_error e | Inr _ \<Rightarrow> True))"
proof -
  obtain vm rs where st: "st = (vm, rs)" by (cases st)
  from assms(1) obtain l inst ctx' where "call_phase L l inst ph ctx' = None
      \<or> (\<exists>l' calls res. call_phase L l inst ph ctx' = Some (l', calls, res)
           \<and> finish_phase L b (api_calls (pb_name b) calls rs) res = Inr None)"
    by (auto simp: run_phase_def st Let_def split: prod.splits sum.splits option.splits) blast
  then show ?thesis
    using assms(2) by (fastforce simp: finish_phase_def split: sum.splits if_splits)
qed

subsection \<open>A concrete environment\<close>

definition sample_plugin :: PluginInstance where
  "sample_plugin = \<lparr>pi_name = ''audit'', pi_enabled = True, pi_fail_mode = ''closed'', pi_config = YNull\<rparr>"

definition sample_plugins_config :: GatewayConfig where
  "sample_plugins_config = sample_config\<lparr>gc_plugins := PluginsConfig_default\<lparr>pc_enabled := True,
     pc_directory := ''plugins'', pc_global := [sample_plugin]\<rparr>\<rparr>"

definition sample_env :: "(unit, unit) plugin_env" where
  "sample_env =
     \<lparr>dir_exists = \<lambda>_. True,
      read_dir = \<lambda>_. Inr [Inr \<lparr>de_path = ''plugins/audit.lua'', de_file_name = ''audit.lua''\<rparr>,
        Inr \<lparr>de_path = ''plugins/README'', de_file_name = ''README''\<rparr>],
      read_to_string = \<lambda>_. Inr ''return {}'', eval_module = \<lambda>_ _ _. Inr (),
      get_string = \<lambda>_ _. Inr ''1.0'', get_i64 = \<lambda>_ _. Inr 10, get_json = \<lambda>_ _. None,
      schema_compile = \<lambda>_. Inr (), schema_errors = \<lambda>_ _. [], to_json = \<lambda>_. Some JNull\<rparr>"

definition sample_registry :: "(string \<times> PluginMeta) list" where
  "sample_registry = [(''audit'', \<lparr>pm_name = ''audit'', pm_priority = 10, pm_version = ''1.0'',
     pm_source = ''return {}'', pm_schema = None\<rparr>)]"

lemma sample_discover: "discover_plugins sample_env d limits = Inr sample_registry"
proof -
  have "rsplit_once CHR ''.'' ''audit.lua'' = Some (''audit'', ''lua'')" "rsplit_once CHR ''.'' ''README'' = None"
    by (simp_all add: rsplit_once_Some rsplit_once_None)
  then show ?thesis
    by (simp add: discover_plugins_def sample_env_def sample_registry_def extension_def file_stem_def map_err_def extract_meta_def)
qed

lemma sample_dir: "dir_exists sample_env d"
  by (simp add: sample_env_def)

lemma sample_runtime: "\<exists>rt. build_runtime sample_env sample_plugins_config 1 = Inr rt"
  by (simp add: build_runtime_def sample_plugins_config_def sample_config_def PluginsConfig_default_def sample_discover
      sample_dir sample_plugin_def push_bindings_def sample_registry_def validate_schema_def sample_route_def sample_private_route_def)

text \<open>A Lua machine in which every plugin has an access function that makes the given calls and
  ends with the given result.\<close>

definition scripted :: "ApiCall list \<Rightarrow> (LuaError, unit) result \<Rightarrow> (unit, unit, unit, unit) lua" where
  "scripted calls res =
     \<lparr>create_vm = \<lambda>_. Inr (), reset_limits = \<lambda>_ _. ((), Inr ()), create_table = \<lambda>_. ((), Inr ()),
      registry_value = \<lambda>_ _. Inr (), eval_plugin = \<lambda>_ _ _. ((), Inr ()), call_new = \<lambda>_ _ _. None,
      create_registry_value = \<lambda>_ _. ((), Inr ()), install_gateway = \<lambda>_ _. ((), Inr ()),
      new_ctx = \<lambda>_ _ _. ((), Inr ()), call_phase = \<lambda>_ _ _ _. Some ((), calls, res),
      clear_gateway = \<lambda>_. (), lua_error_string = \<lambda>_. ''error''\<rparr>"

definition sample_binding :: PluginBinding where
  "sample_binding = \<lparr>pb_id = ''r:audit'', pb_name = ''audit'', pb_priority = 10, pb_version = ''1.0'',
     pb_fail_open = False, pb_source = ''return {}'', pb_config = JNull\<rparr>"

definition sample_engine :: PluginEngine where
  "sample_engine = \<lparr>pe_runtime = \<lparr>pr_generation = 1, pr_limits = PluginLimits_default,
     pr_chains = [''r'' \<mapsto> [sample_binding]]\<rparr>, pe_next_generation = 2\<rparr>"

definition sample_request :: PluginRequest where
  "sample_request = \<lparr>pq_route_name = ''r'', pq_host = ''h'', pq_method = ''GET'', pq_path = ''/'', pq_headers = []\<rparr>"

definition no_time :: elapsed where
  "no_time = \<lparr>el_ms = \<lambda>_. 0, el_us = \<lambda>_. 0\<rparr>"

definition sample_slot :: "(unit, unit) vm_slot" where
  "sample_slot = Inr \<lparr>tv_lua = (), tv_generation = 0, tv_instances = Map.empty\<rparr>"

lemmas sample_exec_defs = execute_access_def with_thread_local_vm_def prepare_def sample_slot_def sample_engine_def
  sample_request_def scripted_def map_err_def no_time_def run_phase_def plugin_instance_def finish_phase_def
  api_calls_def RuntimeState_new_def sample_binding_def PluginLimits_default_def

subsection \<open>Properties\<close>

text \<open>C29. The chain of a route: when the runtime is built with plugins enabled, every route has
  exactly the enabled global plugins and its own enabled plugins, each bound to the file of
  its name with its configuration checked against the schema, sorted by priority and then
  by name.\<close>

theorem plugin_chain_spec:
  assumes "build_runtime E config g = Inr rt" "pc_enabled (gc_plugins config)" "distinct (map rc_name (gc_routes config))"
  shows "\<exists>registry. discover_plugins E (pc_directory (gc_plugins config)) (pc_limits (gc_plugins config)) = Inr registry
    \<and> (\<forall>route \<in> set (gc_routes config). \<exists>chain. pr_chains rt (rc_name route) = Some chain
         \<and> sorted (map (\<lambda>b. (pb_priority b, pb_name b)) chain)
         \<and> mset chain = mset (map (bound E registry (rc_name route)) (filter pi_enabled (pc_global (gc_plugins config) @ rc_plugins route)))
         \<and> (\<forall>i \<in> set (filter pi_enabled (pc_global (gc_plugins config) @ rc_plugins route)).
              \<exists>m. map_of registry (pi_name i) = Some m \<and> validate_schema E m i = Inr ()))"
proof -
  from assms(1,2) obtain registry cs where "discover_plugins E (pc_directory (gc_plugins config)) (pc_limits (gc_plugins config)) = Inr registry"
    "build_chains E (pc_global (gc_plugins config)) registry (gc_routes config) Map.empty = Inr cs" "pr_chains rt = cs"
    by (auto simp: build_runtime_def Let_def and_then_Inr split: if_splits)
  with build_chains_Inr [OF this(2) assms(3)] show ?thesis
    by (intro exI [of _ registry]) (auto simp: sort_bindings_def)
qed

theorem plugin_chain_spec_witness:
  "\<exists>rt registry. build_runtime sample_env sample_plugins_config 1 = Inr rt
    \<and> discover_plugins sample_env ''plugins'' (pc_limits (gc_plugins sample_plugins_config)) = Inr registry"
proof -
  obtain rt where rt: "build_runtime sample_env sample_plugins_config 1 = Inr rt" using sample_runtime by blast
  from plugin_chain_spec [OF rt] rt show ?thesis
    by (auto simp: sample_plugins_config_def sample_config_def PluginsConfig_default_def sample_route_def sample_private_route_def)
qed

text \<open>C18. Reserved headers: whatever the Lua code of the plugins does, the headers a chain adds to
  the upstream request are lower case and none begins with \<open>x-auth-\<close>, \<open>x-ratelimit-\<close> or
  \<open>x-envoy-\<close>.\<close>

theorem plugins_cannot_set_reserved_headers:
  assumes "execute_access L el request engine slot = (slot', Inr (Continue up resp us))" "(n, v) \<in> set up"
  shows "to_ascii_lowercase n = n \<and> (\<forall>rest. n \<noteq> ''x-auth-'' @ rest \<and> n \<noteq> ''x-ratelimit-'' @ rest \<and> n \<noteq> ''x-envoy-'' @ rest)"
proof -
  have "\<not> reserved n \<and> to_ascii_lowercase n = n" using execute_access_clean [OF assms(1)] assms(2) by blast
  then show ?thesis by (auto simp: reserved_def RESERVED_HEADER_PREFIXES_def starts_with_def)
qed

theorem plugins_cannot_set_reserved_headers_witness:
  "snd (execute_access (scripted [SetUpstreamHeader ''X-Auth-Sub'' ''root'', SetUpstreamHeader ''X-Trace'' ''1''] (Inr ())) no_time
     sample_request sample_engine sample_slot) = Inr (Continue [(''x-trace'', ''1'')] [] 0)
   \<and> (\<forall>rest. ''x-trace'' \<noteq> ''x-auth-'' @ rest)"
proof -
  let ?L = "scripted [SetUpstreamHeader ''X-Auth-Sub'' ''root'', SetUpstreamHeader ''X-Trace'' ''1''] (Inr ())"
  have l: "to_ascii_lowercase ''X-Auth-Sub'' = ''x-auth-sub''" "to_ascii_lowercase ''X-Trace'' = ''x-trace''" by code_simp+
  have r: "reserved ''x-auth-sub''" "\<not> reserved ''x-trace''" by code_simp+
  obtain slot' where e: "execute_access ?L no_time sample_request sample_engine sample_slot = (slot', Inr (Continue [(''x-trace'', ''1'')] [] 0))"
    by (simp add: sample_exec_defs l r)
  from plugins_cannot_set_reserved_headers [OF e, of "''x-trace''" "''1''"] e show ?thesis by simp
qed

text \<open>C17. A chain goes on exactly past plugins that let it. From the state in which the chain of a
  request starts, with each plugin run in the state its predecessors left: the result is to
  continue if every plugin starts within the time limit, can be loaded, and has no access
  function, or one that returns while no response is pending (its own exit or one of a plugin
  before it), or one that fails although the plugin fails open; the headers are then the ones
  that the plugins set. In every other case the chain does not continue: a plugin that fails
  closed stops it with any error, an exit whose error arrives wrapped included.\<close>

theorem chain_continues_iff_all_pass:
  assumes "pr_chains (pe_runtime engine) (pq_route_name request) = Some bs" "chain_start L engine slot = Some (ctx, st)"
  shows "if \<forall>pre b post. bs = pre @ b # post \<longrightarrow>
        el_ms el (length pre) \<le> pl_chain_timeout_ms (pr_limits (pe_runtime engine)) \<and> passes L request ctx b (state_after L request ctx pre st)
      then \<exists>us. snd (execute_access L el request engine slot)
        = Inr (Continue (rs_upstream_headers (snd (state_after L request ctx bs st))) (rs_response_headers (snd (state_after L request ctx bs st))) us)
      else \<forall>up resp us. snd (execute_access L el request engine slot) \<noteq> Inr (Continue up resp us)"
    (is "if ?P then _ else _")
proof -
  let ?r = "snd (access_loop L el (pr_limits (pe_runtime engine)) request ctx 0 bs st)"
  have p: "?P \<longleftrightarrow> (\<exists>up resp us. ?r = Continue up resp us)"
    using access_loop_continue_iff [of bs el 0 "pr_limits (pe_runtime engine)" L request ctx st] by (simp only: add_0)
  show ?thesis
  proof (cases ?P)
    case True
    with p obtain up resp us where r: "?r = Continue up resp us" by blast
    show ?thesis unfolding execute_access_start [OF assms] if_P [OF True] r
      using access_loop_continue_value [OF r] by simp
  next
    case False
    with p show ?thesis unfolding execute_access_start [OF assms] if_not_P [OF False] by blast
  qed
qed

theorem chain_continues_iff_all_pass_witness:
  "(\<exists>us. snd (execute_access (scripted [SetUpstreamHeader ''x-trace'' ''1''] (Inr ())) no_time sample_request sample_engine sample_slot)
      = Inr (Continue [(''x-trace'', ''1'')] [] us))
   \<and> (\<forall>up resp us. snd (execute_access (scripted [] (Inl (CallbackError (RuntimeError ''no'')))) no_time sample_request sample_engine sample_slot)
      \<noteq> Inr (Continue up resp us))"
proof
  let ?vm = "\<lparr>tv_lua = (), tv_generation = 1, tv_instances = Map.empty\<rparr>"
  have c: "pr_chains (pe_runtime sample_engine) (pq_route_name sample_request) = Some [sample_binding]"
    by (simp add: sample_engine_def sample_request_def)
  have s: "chain_start (scripted calls res) sample_engine sample_slot = Some ((), ?vm, RuntimeState_new)" for calls res
    by (simp add: chain_start_def sample_slot_def prepare_def scripted_def map_err_def sample_engine_def Let_def)
  have a: "access_call (scripted calls res) sample_request () sample_binding (?vm, RuntimeState_new) = Some (Some (calls, res))" for calls res
    by (simp add: access_call_def plugin_instance_def scripted_def sample_binding_def Let_def)
  have one: "[sample_binding] = pre @ b # post \<longleftrightarrow> pre = [] \<and> b = sample_binding \<and> post = []" for pre b post
    by (auto simp: Cons_eq_append_conv)
  let ?L1 = "scripted [SetUpstreamHeader ''x-trace'' ''1''] (Inr ())"
  have l: "to_ascii_lowercase ''x-trace'' = ''x-trace''" "\<not> reserved ''x-trace''" by code_simp+
  have p: "passes ?L1 sample_request () sample_binding (?vm, RuntimeState_new)" unfolding passes_def a by (simp add: RuntimeState_new_def)
  have r: "snd (state_after ?L1 sample_request () [sample_binding] (?vm, RuntimeState_new)) =
      RuntimeState_new\<lparr>rs_upstream_headers := [(''x-trace'', ''1'')]\<rparr>"
    by (simp add: state_after_def sample_exec_defs l Let_def)
  from chain_continues_iff_all_pass [OF c s [of "[SetUpstreamHeader ''x-trace'' ''1'']" "Inr ()"], of no_time] p
  show "\<exists>us. snd (execute_access ?L1 no_time sample_request sample_engine sample_slot) = Inr (Continue [(''x-trace'', ''1'')] [] us)"
    unfolding one r by (simp add: state_after_def) (simp add: no_time_def sample_engine_def RuntimeState_new_def)
  let ?L2 = "scripted [] (Inl (CallbackError (RuntimeError ''no'')))"
  have "\<not> passes ?L2 sample_request () sample_binding (?vm, RuntimeState_new)" unfolding passes_def a by (simp add: sample_binding_def)
  with chain_continues_iff_all_pass [OF c s [of "[]" "Inl (CallbackError (RuntimeError ''no''))"], of no_time]
  show "\<forall>up resp us. snd (execute_access ?L2 no_time sample_request sample_engine sample_slot) \<noteq> Inr (Continue up resp us)"
    unfolding one by (simp add: state_after_def)
qed

text \<open>\<open>gateway.response.exit\<close> does not short-circuit when its error arrives wrapped. The
  hypothesis is the documented behaviour of \<open>mlua\<close>, whose code is not part of the repository: an
  error raised by a Rust function reaches the caller as a \<open>CallbackError\<close>. \<open>is_exit_error\<close> does
  not look into it, so a chain of one plugin whose access function calls \<open>exit\<close> never ends in a
  short circuit: with \<open>fail_mode: closed\<close> the plugin is reported as failed.\<close>

theorem exit_never_short_circuits:
  assumes "pr_chains (pe_runtime engine) (pq_route_name request) = Some [b]"
    and "\<And>l inst ctx. \<exists>l' st body. call_phase L l inst ''access'' ctx
      = Some (l', [Exit st body], Inl (CallbackError (RuntimeError EXIT_SENTINEL)))"
    and "execute_access L el request engine slot = (slot', Inr r)"
  shows "(\<forall>n st body h us. r \<noteq> ShortCircuit n st body h us)
    \<and> (\<not> pb_fail_open b \<longrightarrow> (\<exists>n msg t us. r = AccessError n msg t us))"
proof -
  from execute_access_Some [OF assms(1,3)] obtain vm vm' ctx where
    l: "access_loop L el (pr_limits (pe_runtime engine)) request ctx 0 [b] (vm, RuntimeState_new) = (vm', r)" by blast
  have "snd (run_phase L request ctx ''access'' None b (vm, RuntimeState_new)) \<noteq> Inr (Some x)" for x
  proof
    assume "snd (run_phase L request ctx ''access'' None b (vm, RuntimeState_new)) = Inr (Some x)"
    then obtain l inst c l' calls res rs where "call_phase L l inst ''access'' c = Some (l', calls, res)"
      "finish_phase L b rs res = Inr (Some x)"
      by (auto simp: run_phase_def Let_def split: prod.splits sum.splits option.splits)
    moreover from assms(2) [of l inst c] this(1) have "res = Inl (CallbackError (RuntimeError EXIT_SENTINEL))" by auto
    ultimately show False by (auto simp: finish_phase_def split: if_splits)
  qed
  moreover have "snd (run_phase L request ctx ''access'' None b (vm, RuntimeState_new)) \<noteq> Inr None" if "\<not> pb_fail_open b"
  proof
    assume "snd (run_phase L request ctx ''access'' None b (vm, RuntimeState_new)) = Inr None"
    from run_phase_closed [OF this that] assms(2) show False by (metis is_exit_error.simps(2) not_Some_eq option.inject prod.inject sum.case(1))
  qed
  ultimately show ?thesis
    using l by (auto split: if_splits prod.splits sum.splits option.splits)
qed

theorem exit_never_short_circuits_witness:
  "\<exists>n msg t us. snd (execute_access (scripted [Exit 403 None] (Inl (CallbackError (RuntimeError EXIT_SENTINEL)))) no_time
     sample_request sample_engine sample_slot) = Inr (AccessError n msg t us)"
proof -
  let ?L = "scripted [Exit 403 None] (Inl (CallbackError (RuntimeError EXIT_SENTINEL)))"
  obtain slot' r where e: "execute_access ?L no_time sample_request sample_engine sample_slot = (slot', Inr r)"
    by (simp add: sample_exec_defs)
  have "\<exists>n msg t us. r = AccessError n msg t us"
    using exit_never_short_circuits [of sample_engine sample_request sample_binding ?L no_time sample_slot slot' r] e
    by (simp add: sample_engine_def sample_request_def scripted_def sample_binding_def)
  with e show ?thesis by simp
qed

end
