(* ===== verification/Sandbox.thy ===== *)
theory Sandbox
  imports Config_Types
begin

text \<open>
  The Lua sandbox (\<open>controlplane/src/plugins/sandbox.rs\<close>). Lua tables are objects that
  several values can refer to, so a machine has a heap: table addresses to tables. Functions
  of the Lua library are known by their names.
\<close>

datatype LuaValue = LuaNil | Function string | TableRef nat

type_synonym LuaTable = "string \<Rightarrow> LuaValue"

record Lua =
  lua_heap :: "nat \<Rightarrow> LuaTable"
  lua_next :: nat
  lua_globals :: nat
  lua_registry :: "string \<Rightarrow> LuaValue"
  lua_memory_limit :: u64
  lua_hook :: "u32 option"

definition REGISTRY_CJSON :: string where "REGISTRY_CJSON = ''__gateway_cjson''"
definition REGISTRY_CJSON_SAFE :: string where "REGISTRY_CJSON_SAFE = ''__gateway_cjson_safe''"

definition table_set :: "nat \<Rightarrow> string \<Rightarrow> LuaValue \<Rightarrow> Lua \<Rightarrow> Lua" where
  "table_set a name v l = l\<lparr>lua_heap := (lua_heap l)(a := (lua_heap l a)(name := v))\<rparr>"

definition new_table :: "Lua \<Rightarrow> Lua \<times> nat" where
  "new_table l = (l\<lparr>lua_heap := (lua_heap l)(lua_next l := (\<lambda>_. LuaNil)), lua_next := lua_next l + 1\<rparr>, lua_next l)"

definition set_global :: "string \<Rightarrow> LuaValue \<Rightarrow> Lua \<Rightarrow> Lua" where
  "set_global name v l = table_set (lua_globals l) name v l"

definition get_global :: "string \<Rightarrow> Lua \<Rightarrow> LuaValue" where
  "get_global name l = lua_heap l (lua_globals l) name"

text \<open>\<open>globals.get\<close> and \<open>Table::get\<close> at the types the code asks for.\<close>

definition get_table :: "string \<Rightarrow> Lua \<Rightarrow> (string, nat) result" where
  "get_table name l = (case get_global name l of TableRef a \<Rightarrow> Inr a | _ \<Rightarrow> Inl ''error converting Lua value to table'')"

definition get_function :: "nat \<Rightarrow> string \<Rightarrow> Lua \<Rightarrow> (string, LuaValue) result" where
  "get_function a name l =
     (case lua_heap l a name of Function f \<Rightarrow> Inr (Function f) | _ \<Rightarrow> Inl ''error converting Lua value to function'')"

definition removed_functions :: "string list" where
  "removed_functions = [''print'', ''load'', ''loadfile'', ''loadstring'', ''dofile'', ''collectgarbage'', ''newproxy'', ''_G'']"

definition removed_libraries :: "string list" where
  "removed_libraries = [''io'', ''debug'', ''package'', ''ffi'', ''jit'']"

definition safe_os_functions :: "string list" where
  "safe_os_functions = [''clock'', ''time'', ''date'', ''difftime'']"

fun copy_functions :: "nat \<Rightarrow> nat \<Rightarrow> string list \<Rightarrow> Lua \<Rightarrow> (string, Lua) result" where
  "copy_functions from to [] l = Inr l"
| "copy_functions from to (name # names) l =
     and_then (get_function from name l) (\<lambda>f. copy_functions from to names (table_set to name f l))"

text \<open>The closure that replaces \<open>require\<close>.\<close>

definition sandbox_require :: "Lua \<Rightarrow> string \<Rightarrow> (string, LuaValue) result" where
  "sandbox_require l name =
     (if name = ''cjson'' then Inr (lua_registry l REGISTRY_CJSON)
      else if name = ''cjson.safe'' then Inr (lua_registry l REGISTRY_CJSON_SAFE)
      else Inl (''module '' @ [CHR 0x27] @ name @ [CHR 0x27] @ '' is not available in sandbox''))"

text \<open>Of the Lua build: whether the memory limit can be set, and the chunk that turns the compiler
  off.\<close>

record lua_build =
  memory_control :: bool
  jit_off :: "Lua \<Rightarrow> (string, Lua) result"

definition sandbox_globals :: "lua_build \<Rightarrow> Lua \<Rightarrow> (string, Lua) result" where
  "sandbox_globals B lua =
     and_then (jit_off B lua) (\<lambda>l0.
     let l1 = fold (\<lambda>name. set_global name LuaNil) removed_functions l0;
         l2 = fold (\<lambda>name. set_global name LuaNil) removed_libraries l1
     in and_then (get_table ''os'' l2) (\<lambda>os_table.
        let (l3, safe_os) = new_table l2
        in and_then (copy_functions os_table safe_os safe_os_functions l3) (\<lambda>l4.
           let l5 = set_global ''os'' (TableRef safe_os) l4
           in and_then (get_table ''string'' l5) (\<lambda>string_table.
              let l6 = table_set string_table ''dump'' LuaNil l5
              in Inr (set_global ''require'' (Function ''sandbox_require'') l6)))))"

definition preload_cjson :: "Lua \<Rightarrow> (string, Lua) result" where
  "preload_cjson l =
     (let (l1, cjson) = new_table l;
          l2 = table_set cjson ''decode'' (Function ''cjson_decode'') (table_set cjson ''encode'' (Function ''cjson_encode'') l1);
          (l3, safe) = new_table l2
      in and_then (get_function cjson ''encode'' l3) (\<lambda>encode.
           let l4 = table_set safe ''decode'' (Function ''cjson_safe_decode'') (table_set safe ''encode'' encode l3)
           in Inr (l4\<lparr>lua_registry := (lua_registry l4)(REGISTRY_CJSON := TableRef cjson,
                REGISTRY_CJSON_SAFE := TableRef safe)\<rparr>)))"

definition set_memory_limit :: "lua_build \<Rightarrow> u64 \<Rightarrow> Lua \<Rightarrow> (string, Lua) result" where
  "set_memory_limit B n l =
     (if memory_control B then Inr (l\<lparr>lua_memory_limit := n\<rparr>) else Inl ''memory control is not available'')"

definition install_instruction_hook :: "u32 \<Rightarrow> Lua \<Rightarrow> Lua" where
  "install_instruction_hook max_instructions l = l\<lparr>lua_hook := Some max_instructions\<rparr>"

definition create_sandboxed_vm :: "lua_build \<Rightarrow> Lua \<Rightarrow> PluginLimits \<Rightarrow> (string, Lua) result" where
  "create_sandboxed_vm B unsafe_new limits =
     and_then (set_memory_limit B (pl_max_memory_bytes limits) unsafe_new) (\<lambda>l0.
     and_then (sandbox_globals B l0) (\<lambda>l1.
     and_then (preload_cjson l1) (\<lambda>l2.
     Inr (install_instruction_hook (pl_max_instructions limits) l2))))"

definition reset_limits_vm :: "lua_build \<Rightarrow> PluginLimits \<Rightarrow> Lua \<Rightarrow> (string, Lua) result" where
  "reset_limits_vm B limits l =
     and_then (set_memory_limit B (pl_max_memory_bytes limits) l) (\<lambda>l1.
     Inr (install_instruction_hook (pl_max_instructions limits) l1))"

subsection \<open>The machine that comes out\<close>

text \<open>A fresh machine: \<open>os\<close> and \<open>string\<close> are tables of their own with the functions of the Lua
  library, and turning the compiler off changes no table.\<close>

definition fresh_lua :: "lua_build \<Rightarrow> Lua \<Rightarrow> nat \<Rightarrow> nat \<Rightarrow> bool" where
  "fresh_lua B l os_table string_table \<longleftrightarrow>
     memory_control B \<and> (\<forall>l. jit_off B l = Inr l)
     \<and> get_global ''os'' l = TableRef os_table \<and> get_global ''string'' l = TableRef string_table
     \<and> distinct [lua_globals l, os_table, string_table] \<and> (\<forall>a \<in> {lua_globals l, os_table, string_table}. a < lua_next l)
     \<and> (\<forall>name \<in> set safe_os_functions. \<exists>f. lua_heap l os_table name = Function f)"

definition removed :: "string set" where
  "removed = set removed_functions \<union> set removed_libraries"

definition cleared :: "string set \<Rightarrow> Lua \<Rightarrow> Lua" where
  "cleared names l = l\<lparr>lua_heap := (lua_heap l)(lua_globals l :=
     (\<lambda>name. if name \<in> names then LuaNil else lua_heap l (lua_globals l) name))\<rparr>"

lemma fold_set_nil: "fold (\<lambda>name. set_global name LuaNil) names l = cleared (set names) l"
proof (induction names arbitrary: l)
  case Nil
  then show ?case by (simp add: cleared_def)
next
  case (Cons n names)
  have "cleared (set names) (set_global n LuaNil l) = cleared (set (n # names)) l"
    by (auto simp: cleared_def set_global_def table_set_def fun_eq_iff)
  with Cons show ?case by simp
qed

lemma cleared_twice: "cleared X (cleared Y l) = cleared (X \<union> Y) l"
  by (simp add: cleared_def fun_eq_iff)

lemma copy_functions_Inr:
  assumes "\<forall>name \<in> set names. \<exists>f. lua_heap l src name = Function f" "src \<noteq> dst"
  shows "copy_functions src dst names l = Inr (l\<lparr>lua_heap := (lua_heap l)(dst :=
      (\<lambda>name. if name \<in> set names then lua_heap l src name else lua_heap l dst name))\<rparr>)"
  using assms
proof (induction names arbitrary: l)
  case (Cons n names)
  obtain f where f: "lua_heap l src n = Function f" using Cons.prems(1) by auto
  let ?l = "table_set dst n (Function f) l"
  have same: "lua_heap ?l src = lua_heap l src" using assms(2) by (simp add: table_set_def)
  with Cons.prems(1) have "\<forall>name \<in> set names. \<exists>f. lua_heap ?l src name = Function f" by simp
  from Cons.IH [OF this assms(2)] f same show ?case
    by (auto simp: get_function_def table_set_def fun_eq_iff)
qed simp

lemma removed_names:
  "removed = {''load'', ''loadstring'', ''loadfile'', ''dofile'', ''print'', ''collectgarbage'', ''newproxy'', ''_G'',
     ''io'', ''debug'', ''package'', ''ffi'', ''jit''}"
  by (auto simp: removed_def removed_functions_def removed_libraries_def)

lemma removed_keeps: "''os'' \<notin> removed" "''string'' \<notin> removed" "''require'' \<notin> removed" "''module'' \<notin> removed"
  by (simp_all add: removed_def removed_functions_def removed_libraries_def)

lemma sandbox_globals_result:
  assumes "fresh_lua B l os_table string_table"
  shows "\<exists>l'. sandbox_globals B l = Inr l' \<and> lua_globals l' = lua_globals l \<and> lua_next l' = Suc (lua_next l)
    \<and> lua_memory_limit l' = lua_memory_limit l
    \<and> lua_heap l' = (lua_heap l)(
        lua_next l := (\<lambda>name. if name \<in> set safe_os_functions then lua_heap l os_table name else LuaNil),
        string_table := (lua_heap l string_table)(''dump'' := LuaNil),
        lua_globals l := (\<lambda>name. if name \<in> removed then LuaNil else if name = ''os'' then TableRef (lua_next l)
          else if name = ''require'' then Function ''sandbox_require'' else lua_heap l (lua_globals l) name))"
proof -
  let ?l2 = "cleared removed l"
  let ?l3 = "?l2\<lparr>lua_heap := (lua_heap ?l2)(lua_next l := (\<lambda>_. LuaNil)), lua_next := lua_next l + 1\<rparr>"
  note f = assms [unfolded fresh_lua_def]
  have two: "fold (\<lambda>name. set_global name LuaNil) removed_libraries (fold (\<lambda>name. set_global name LuaNil) removed_functions l) = ?l2"
    by (simp add: fold_set_nil cleared_twice removed_def Un_commute)
  have os: "get_table ''os'' ?l2 = Inr os_table"
    using f removed_keeps by (simp add: get_table_def get_global_def cleared_def)
  have h: "lua_heap ?l3 os_table = lua_heap l os_table" using f by (auto simp: cleared_def)
  then have "copy_functions os_table (lua_next l) safe_os_functions ?l3 = Inr (?l3\<lparr>lua_heap := (lua_heap ?l3)(lua_next l :=
      (\<lambda>name. if name \<in> set safe_os_functions then lua_heap ?l3 os_table name else lua_heap ?l3 (lua_next l) name))\<rparr>)"
    using f by (intro copy_functions_Inr) auto
  then have c: "copy_functions os_table (lua_next l) safe_os_functions ?l3 = Inr (?l3\<lparr>lua_heap := (lua_heap ?l3)(lua_next l :=
      (\<lambda>name. if name \<in> set safe_os_functions then lua_heap l os_table name else LuaNil))\<rparr>)" (is "_ = Inr ?l4")
    unfolding h by (simp cong: if_cong)
  have n: "new_table ?l2 = (?l3, lua_next l)" by (simp add: new_table_def cleared_def)
  have st: "get_table ''string'' (set_global ''os'' (TableRef (lua_next l)) ?l4) = Inr string_table"
    using f removed_keeps by (auto simp: get_table_def get_global_def set_global_def table_set_def cleared_def)
  have j: "jit_off B l = Inr l" using f by blast
  let ?l7 = "set_global ''require'' (Function ''sandbox_require'') (table_set string_table ''dump'' LuaNil
    (set_global ''os'' (TableRef (lua_next l)) ?l4))"
  have "sandbox_globals B l = Inr ?l7"
    unfolding sandbox_globals_def j and_then_simps Let_def two os n prod.case c st ..
  moreover have "lua_globals ?l7 = lua_globals l" "lua_next ?l7 = Suc (lua_next l)" "lua_memory_limit ?l7 = lua_memory_limit l"
    by (simp_all add: set_global_def table_set_def cleared_def)
  moreover have "lua_heap ?l7 = (lua_heap l)(
        lua_next l := (\<lambda>name. if name \<in> set safe_os_functions then lua_heap l os_table name else LuaNil),
        string_table := (lua_heap l string_table)(''dump'' := LuaNil),
        lua_globals l := (\<lambda>name. if name \<in> removed then LuaNil else if name = ''os'' then TableRef (lua_next l)
          else if name = ''require'' then Function ''sandbox_require'' else lua_heap l (lua_globals l) name))"
    using f removed_keeps by (auto simp: set_global_def table_set_def cleared_def fun_eq_iff)
  ultimately show ?thesis by blast
qed

subsection \<open>Properties\<close>

text \<open>C28. The sandbox: creating a machine for plugins succeeds. In the result the functions that load
  code (\<open>load\<close>, \<open>loadstring\<close>, \<open>loadfile\<close>, \<open>dofile\<close>), \<open>print\<close>, \<open>collectgarbage\<close>, \<open>newproxy\<close> and
  \<open>_G\<close>, and the libraries \<open>io\<close>, \<open>debug\<close>, \<open>package\<close>, \<open>ffi\<close> and \<open>jit\<close> are gone. \<open>os\<close> is a new table
  that has \<open>clock\<close>, \<open>time\<close>, \<open>date\<close> and \<open>difftime\<close> and nothing else, so neither \<open>execute\<close> nor
  \<open>getenv\<close>. \<open>string.dump\<close> is gone from the table that all strings share, \<open>require\<close> gives the two
  JSON modules and nothing else, and the limits are those of the configuration. Every other
  global is what it was, \<open>module\<close> of Lua 5.1 among them.\<close>

theorem sandboxed_vm_spec:
  assumes "fresh_lua B l os_table string_table"
  shows "\<exists>l' safe_os. create_sandboxed_vm B l limits = Inr l'
    \<and> (\<forall>name. get_global name l' =
         (if name \<in> {''load'', ''loadstring'', ''loadfile'', ''dofile'', ''print'', ''collectgarbage'', ''newproxy'', ''_G'',
              ''io'', ''debug'', ''package'', ''ffi'', ''jit''} then LuaNil
          else if name = ''os'' then TableRef safe_os
          else if name = ''require'' then Function ''sandbox_require'' else get_global name l))
    \<and> (\<forall>name. lua_heap l' safe_os name =
         (if name \<in> {''clock'', ''time'', ''date'', ''difftime''} then lua_heap l os_table name else LuaNil))
    \<and> lua_heap l' string_table = (lua_heap l string_table)(''dump'' := LuaNil)
    \<and> (\<forall>name. is_ok (sandbox_require l' name) \<longleftrightarrow> name \<in> {''cjson'', ''cjson.safe''})
    \<and> lua_memory_limit l' = pl_max_memory_bytes limits \<and> lua_hook l' = Some (pl_max_instructions limits)"
proof -
  let ?l0 = "l\<lparr>lua_memory_limit := pl_max_memory_bytes limits\<rparr>"
  note f = assms [unfolded fresh_lua_def]
  have "fresh_lua B ?l0 os_table string_table" using assms by (simp add: fresh_lua_def get_global_def)
  from sandbox_globals_result [OF this] obtain l1 where l1: "sandbox_globals B ?l0 = Inr l1" "lua_globals l1 = lua_globals l"
    "lua_next l1 = Suc (lua_next l)" "lua_memory_limit l1 = pl_max_memory_bytes limits"
    "lua_heap l1 = (lua_heap l)(
        lua_next l := (\<lambda>name. if name \<in> set safe_os_functions then lua_heap l os_table name else LuaNil),
        string_table := (lua_heap l string_table)(''dump'' := LuaNil),
        lua_globals l := (\<lambda>name. if name \<in> removed then LuaNil else if name = ''os'' then TableRef (lua_next l)
          else if name = ''require'' then Function ''sandbox_require'' else lua_heap l (lua_globals l) name))"
    by (auto cong: if_cong)
  obtain l2 where l2: "preload_cjson l1 = Inr l2" "lua_globals l2 = lua_globals l" "lua_memory_limit l2 = lua_memory_limit l1"
    "\<forall>a \<le> lua_next l. lua_heap l2 a = lua_heap l1 a"
    using l1(2,3) by (auto simp: preload_cjson_def new_table_def table_set_def get_function_def Let_def)
  have "create_sandboxed_vm B l limits = Inr (install_instruction_hook (pl_max_instructions limits) l2)"
    using f l1(1) l2(1) by (simp add: create_sandboxed_vm_def set_memory_limit_def)
  moreover have "is_ok (sandbox_require v name) \<longleftrightarrow> name \<in> {''cjson'', ''cjson.safe''}" for v name
    by (simp add: sandbox_require_def)
  moreover have "set safe_os_functions = {''clock'', ''time'', ''date'', ''difftime''}" by (simp add: safe_os_functions_def)
  ultimately show ?thesis
    unfolding removed_names [symmetric] using f l1(4,5) l2(2-4)
    by (intro exI [of _ "install_instruction_hook (pl_max_instructions limits) l2"] exI [of _ "lua_next l"])
      (auto simp: install_instruction_hook_def get_global_def)
qed

definition sample_lua :: Lua where
  "sample_lua =
     \<lparr>lua_heap = (\<lambda>a name. if a = 0 then (if name = ''os'' then TableRef 1 else if name = ''string'' then TableRef 2 else Function name)
        else Function name),
      lua_next = 3, lua_globals = 0, lua_registry = \<lambda>_. LuaNil, lua_memory_limit = 0, lua_hook = None\<rparr>"

definition sample_build :: lua_build where
  "sample_build = \<lparr>memory_control = True, jit_off = Inr\<rparr>"

theorem sandboxed_vm_spec_witness:
  "\<exists>l'. create_sandboxed_vm sample_build sample_lua PluginLimits_default = Inr l'
    \<and> get_global ''io'' l' = LuaNil \<and> get_global ''module'' l' = Function ''module''
    \<and> (\<exists>safe_os. get_global ''os'' l' = TableRef safe_os \<and> lua_heap l' safe_os ''execute'' = LuaNil)"
proof -
  have "fresh_lua sample_build sample_lua 1 2"
    by (simp add: fresh_lua_def sample_build_def sample_lua_def get_global_def)
  from sandboxed_vm_spec [OF this, of PluginLimits_default, unfolded removed_names [symmetric]] obtain l' safe_os where
    c: "create_sandboxed_vm sample_build sample_lua PluginLimits_default = Inr l'" and
    g: "\<forall>name. get_global name l' = (if name \<in> removed then LuaNil else if name = ''os'' then TableRef safe_os
          else if name = ''require'' then Function ''sandbox_require'' else get_global name sample_lua)" and
    o: "\<forall>name. lua_heap l' safe_os name =
         (if name \<in> {''clock'', ''time'', ''date'', ''difftime''} then lua_heap sample_lua 1 name else LuaNil)"
    by (elim exE conjE) (rule that)
  have "''io'' \<in> removed" by (simp add: removed_def removed_libraries_def)
  moreover have "get_global ''module'' sample_lua = Function ''module''" by (simp add: get_global_def sample_lua_def)
  moreover have "lua_heap l' safe_os ''execute'' = LuaNil" using o by simp
  ultimately show ?thesis
    using c g [rule_format, of "''io''"] g [rule_format, of "''module''"] g [rule_format, of "''os''"] removed_keeps(1,4) by simp
qed

end
