(* ===== verification/App_State.thy ===== *)
theory App_State
  imports Limiter Auth Plugin_Exec Xds_Server
begin

text \<open>
  The shared state of the control plane (\<open>controlplane/src/admin/state.rs\<close>). The
  \<open>Arc\<close>s become fields; a semaphore is its number of free permits. The metrics are shared
  with the xDS control plane, so its operations are given the metrics of the state.
\<close>

datatype ReloadResult = Success | ValidationError

fun ReloadResult_as_str :: "ReloadResult \<Rightarrow> string" where
  "ReloadResult_as_str Success = ''success''"
| "ReloadResult_as_str ValidationError = ''validation_error''"

record ConfigState =
  cs_config :: GatewayConfig
  cs_sha256 :: string
  cs_last_reload_unix :: int
  cs_last_reload_result :: ReloadResult
  cs_last_reload_error :: "string option"

record ('c, 'k) AppState =
  as_config_state :: ConfigState
  as_config_path :: string
  as_envoy_config_path :: "string option"
  as_jwks_registry :: "'k JwksCacheRegistry"
  as_rate_limiter :: "'c RateLimiter"
  as_metrics :: MetricsRegistry
  as_concurrency_limit :: nat
  as_tracing_enabled :: bool
  as_plugin_engine :: "PluginEngine option"
  as_xds :: "XdsControlPlane option"

text \<open>\<open>Semaphore::MAX_PERMITS\<close> is \<open>usize::MAX >> 3\<close>; \<open>Semaphore::new\<close> panics beyond it.\<close>

definition MAX_PERMITS :: nat where "MAX_PERMITS = 2 ^ 61 - 1"

definition Semaphore_new :: "nat \<Rightarrow> nat option" where
  "Semaphore_new permits = (if permits > MAX_PERMITS then None else Some permits)"

text \<open>\<open>sha256_hex\<close> and the clock are arguments; \<open>None\<close> is the panic.\<close>

definition build_state ::
  "(string \<Rightarrow> string) \<Rightarrow> int \<Rightarrow> GatewayConfig \<Rightarrow> string \<Rightarrow> string \<Rightarrow> string option \<Rightarrow> 'k JwksCacheRegistry
    \<Rightarrow> 'c RateLimiter \<Rightarrow> MetricsRegistry \<Rightarrow> PluginEngine option \<Rightarrow> XdsControlPlane option \<Rightarrow> ('c, 'k) AppState option" where
  "build_state sha256_hex now config raw_yaml config_path envoy_config_path jwks_registry rate_limiter metrics plugin_engine xds =
     map_option (\<lambda>permits.
       \<lparr>as_config_state = \<lparr>cs_config = config, cs_sha256 = sha256_hex raw_yaml, cs_last_reload_unix = now,
          cs_last_reload_result = Success, cs_last_reload_error = None\<rparr>,
        as_config_path = config_path, as_envoy_config_path = envoy_config_path,
        as_jwks_registry = jwks_registry, as_rate_limiter = rate_limiter, as_metrics = metrics,
        as_concurrency_limit = permits,
        as_tracing_enabled = tc_enabled (oc_tracing (gc_observability config)),
        as_plugin_engine = plugin_engine, as_xds = xds\<rparr>)
       (Semaphore_new (case gs_max_concurrent_requests (gc_gateway config) of
          Some n \<Rightarrow> unat n | None \<Rightarrow> MAX_PERMITS))"

end
