(* ===== verification/Ext_Authz.thy ===== *)
theory Ext_Authz
  imports App_State
begin

text \<open>
  The external authorization service (\<open>controlplane/src/extauthz\<close>): helpers, the
  authentication step, the plugin step and the handler. A request handler changes the
  \<open>World\<close>: the application state, the outside of the rate limiter, the Lua machine of the
  thread, the lines of the access log and the request counter. Parameters: \<open>V\<close> holds the
  third-party functions, \<open>T\<close> the clock readings of one request.
\<close>

subsection \<open>Requests, responses and the environment\<close>

type_synonym HeaderMap = "(string \<times> string) list"

datatype Body = NoBody | TextBody string | JsonBody json

record Response =
  rsp_status :: u16
  rsp_headers :: HeaderMap
  rsp_body :: Body

record Request =
  req_method :: string
  req_path :: string
  req_headers :: HeaderMap

text \<open>Of the \<open>http\<close> crate: whether \<open>HeaderValue::to_str\<close> succeeds, whether a text is a header
  value, the normal form of a header name, and \<open>StatusCode::from_u16\<close>. Of OpenTelemetry:
  the fields the propagator injects. Of \<open>jsonwebtoken\<close>: its functions, at the second of the
  system clock that \<open>decode\<close> reads. The times of a request include that second, \<open>tm_unix\<close>,
  and the \<open>Instant\<close> of the staleness check, \<open>tm_auth\<close>.\<close>

record ('k, 'e, 'l, 'c, 'i, 'lk) env =
  ev_to_str_ok :: "string \<Rightarrow> bool"
  ev_value_ok :: "string \<Rightarrow> bool"
  ev_name_of :: "string \<Rightarrow> string option"
  ev_status_of :: "u16 \<Rightarrow> u16 option"
  ev_otel_fields :: "HeaderMap \<Rightarrow> HeaderMap"
  ev_serialize :: "AccessLogEntry \<Rightarrow> (string, string) result"
  ev_jwt :: "int \<Rightarrow> 'k jwt"
  ev_refreshed :: "'k JwksCache \<Rightarrow> 'k JwksCache"
  ev_from_json :: "string \<Rightarrow> (string, LuaResponse) result"
  ev_invoke :: "'e \<Rightarrow> ScriptArgs \<Rightarrow> 'e \<times> InvokeResult"
  ev_lua :: "('l, 'c, 'i, 'lk) lua"

record Times =
  tm_nanos :: u64
  tm_ts :: string
  tm_log_ms :: u64
  tm_metric_ms :: f64
  tm_now_secs :: u64
  tm_auth :: nat
  tm_unix :: int
  tm_rate :: Clocks
  tm_plugins :: elapsed

record ('r, 'k, 'e, 'l, 'lk) World =
  wd_app :: "('r, 'k) AppState"
  wd_redis :: 'e
  wd_slot :: "('l, 'lk) vm_slot"
  wd_out :: "string list"
  wd_counter :: u64

definition upd_metrics ::
  "(MetricsRegistry \<Rightarrow> MetricsRegistry) \<Rightarrow> ('r, 'k, 'e, 'l, 'lk) World \<Rightarrow> ('r, 'k, 'e, 'l, 'lk) World" where
  "upd_metrics f w = w\<lparr>wd_app := (wd_app w)\<lparr>as_metrics := f (as_metrics (wd_app w))\<rparr>\<rparr>"

subsection \<open>Helpers\<close>

text \<open>\<open>max_by_key\<close>: the last of the elements with the largest key.\<close>

fun max_by_key :: "('a \<Rightarrow> nat) \<Rightarrow> 'a list \<Rightarrow> 'a option" where
  "max_by_key f [] = None"
| "max_by_key f (x # xs) =
     (case max_by_key f xs of None \<Rightarrow> Some x | Some y \<Rightarrow> if f x > f y then Some x else Some y)"

definition match_route :: "RouteConfig list \<Rightarrow> string \<Rightarrow> string \<Rightarrow> RouteConfig option" where
  "match_route routes host path =
     max_by_key (\<lambda>r. length (rc_path_prefix r))
       (filter (\<lambda>r. starts_with path (rc_path_prefix r))
         (filter (\<lambda>r. list_ex (\<lambda>h. h = ''*'' \<or> h = host) (rc_hostnames r)) routes))"

definition header_str :: "('k, 'e, 'l, 'c, 'i, 'lk) env \<Rightarrow> HeaderMap \<Rightarrow> string \<Rightarrow> string option" where
  "header_str V headers name =
     (case map_of headers name of
        Some v \<Rightarrow> if ev_to_str_ok V v then Some v else None
      | None \<Rightarrow> None)"

datatype BearerResult = Valid string | Malformed

definition extract_bearer :: "('k, 'e, 'l, 'c, 'i, 'lk) env \<Rightarrow> HeaderMap \<Rightarrow> BearerResult option" where
  "extract_bearer V headers =
     Option.bind (header_str V headers ''authorization'') (\<lambda>v.
     Option.bind (strip_prefix ''Bearer '' v) (\<lambda>token.
     if token = [] then Some Malformed else Some (Valid token)))"

definition client_ip :: "('k, 'e, 'l, 'c, 'i, 'lk) env \<Rightarrow> HeaderMap \<Rightarrow> bool \<Rightarrow> string" where
  "client_ip V headers trust_forwarded =
     (let external = (case header_str V headers ''x-envoy-external-address'' of
            Some a \<Rightarrow> a | None \<Rightarrow> ''0.0.0.0'')
      in if trust_forwarded then
           case header_str V headers ''x-forwarded-for'' of
             Some xff \<Rightarrow> (let ip = trim (hd (split_on CHR '','' xff)) in if ip \<noteq> [] then ip else external)
           | None \<Rightarrow> external
         else external)"

definition insert_value :: "('k, 'e, 'l, 'c, 'i, 'lk) env \<Rightarrow> string \<Rightarrow> string \<Rightarrow> HeaderMap \<Rightarrow> HeaderMap" where
  "insert_value V name v headers = (if ev_value_ok V v then mapping_insert name v headers else headers)"

definition max1 :: "u64 \<Rightarrow> u64" where "max1 n = (if n < 1 then 1 else n)"

definition insert_rate_limit_headers ::
  "('k, 'e, 'l, 'c, 'i, 'lk) env \<Rightarrow> u64 \<Rightarrow> RateDecision \<Rightarrow> HeaderMap \<Rightarrow> HeaderMap" where
  "insert_rate_limit_headers V now_secs decision headers =
     insert_value V ''x-rate-limit-reset'' (show_nat (unat (now_secs + max1 (rd_retry_after_ms decision div 1000))))
       (insert_value V ''x-rate-limit-mode'' (as_header_value (rd_mode decision))
         (insert_value V ''x-rate-limit-limit'' (show_nat (unat (rd_limit decision)))
           (insert_value V ''x-rate-limit-remaining'' (show_nat (unat (rd_remaining decision))) headers)))"

text \<open>Also the body of \<open>HeaderInjector::set\<close>, for each field in turn.\<close>

definition insert_string_headers :: "('k, 'e, 'l, 'c, 'i, 'lk) env \<Rightarrow> HeaderMap \<Rightarrow> HeaderMap \<Rightarrow> HeaderMap" where
  "insert_string_headers V headers values =
     foldl (\<lambda>hs (name, v). case ev_name_of V name of
       Some n \<Rightarrow> insert_value V n v hs | None \<Rightarrow> hs) headers values"

text \<open>The content type that axum gives a body, unless the headers of the response have one.\<close>

definition with_content_type :: "string \<Rightarrow> HeaderMap \<Rightarrow> HeaderMap" where
  "with_content_type ct headers =
     (if map_of headers ''content-type'' = None then (''content-type'', ct) # headers else headers)"

definition overload_response :: "('k, 'e, 'l, 'c, 'i, 'lk) env \<Rightarrow> string \<Rightarrow> Response" where
  "overload_response V request_id =
     \<lparr>rsp_status = 503,
      rsp_headers = with_content_type ''application/json'' (insert_value V ''x-request-id'' request_id
        (insert_value V ''retry-after'' ''1'' (insert_value V ''x-gateway-overloaded'' ''true'' []))),
      rsp_body = JsonBody (JObject [(''error'', JString ''gateway_overloaded'')])\<rparr>"

definition allow_response :: "('k, 'e, 'l, 'c, 'i, 'lk) env \<Rightarrow> HeaderMap \<Rightarrow> string \<Rightarrow> Response" where
  "allow_response V headers request_id =
     \<lparr>rsp_status = 200, rsp_headers = insert_value V ''x-request-id'' request_id headers, rsp_body = NoBody\<rparr>"

definition deny_response :: "('k, 'e, 'l, 'c, 'i, 'lk) env \<Rightarrow> u16 \<Rightarrow> string \<Rightarrow> string \<Rightarrow> Response" where
  "deny_response V status code request_id =
     \<lparr>rsp_status = status,
      rsp_headers = with_content_type ''application/json'' (insert_value V ''x-request-id'' request_id []),
      rsp_body = JsonBody (JObject [(''error'', JString code)])\<rparr>"

text \<open>What the log entry of a request says of the request itself.\<close>

record Meta =
  mt_request_id :: string
  mt_remote_addr :: string
  mt_host :: string
  mt_method :: string
  mt_path :: string

definition emit_log ::
  "('k, 'e, 'l, 'c, 'i, 'lk) env \<Rightarrow> Times \<Rightarrow> Meta \<Rightarrow> string \<Rightarrow> u16 \<Rightarrow> string option \<Rightarrow> string \<Rightarrow> string
    \<Rightarrow> ('r, 'k, 'e, 'l, 'lk) World \<Rightarrow> ('r, 'k, 'e, 'l, 'lk) World" where
  "emit_log V T meta route status auth_subject rate_limit_mode upstream_service w =
     w\<lparr>wd_out := emit (ev_serialize V) (wd_out w)
       \<lparr>al_ts = tm_ts T, al_request_id = mt_request_id meta, al_remote_addr = mt_remote_addr meta,
        al_host = mt_host meta, al_method = mt_method meta, al_path = mt_path meta, al_route = route,
        al_status = status, al_duration_ms = tm_log_ms T, al_bytes_in = 0, al_bytes_out = 0,
        al_auth_subject = auth_subject, al_rate_limit_mode = rate_limit_mode,
        al_upstream_service = upstream_service, al_upstream_addr = []\<rparr>\<rparr>"

definition request_metric ::
  "Times \<Rightarrow> Meta \<Rightarrow> string \<Rightarrow> u16 \<Rightarrow> ('r, 'k, 'e, 'l, 'lk) World \<Rightarrow> ('r, 'k, 'e, 'l, 'lk) World" where
  "request_metric T meta route status = upd_metrics (record_request route (mt_method meta) status (tm_metric_ms T))"

definition early_deny ::
  "('k, 'e, 'l, 'c, 'i, 'lk) env \<Rightarrow> Times \<Rightarrow> Meta \<Rightarrow> RouteConfig \<Rightarrow> u16 \<Rightarrow> string
    \<Rightarrow> ('r, 'k, 'e, 'l, 'lk) World \<Rightarrow> ('r, 'k, 'e, 'l, 'lk) World \<times> Response" where
  "early_deny V T meta route status code w =
     (request_metric T meta (rc_name route) status
        (emit_log V T meta (rc_name route) status None ''none'' (uc_service (rc_upstream route)) w),
      deny_response V status code (mt_request_id meta))"

definition method_denied ::
  "('k, 'e, 'l, 'c, 'i, 'lk) env \<Rightarrow> Times \<Rightarrow> Meta \<Rightarrow> RouteConfig
    \<Rightarrow> ('r, 'k, 'e, 'l, 'lk) World \<Rightarrow> ('r, 'k, 'e, 'l, 'lk) World \<times> Response" where
  "method_denied V T meta route = early_deny V T meta route 405 ''method_not_allowed''"

subsection \<open>Authentication\<close>

record AuthDeny =
  dn_status :: u16
  dn_error_code :: string

definition auth_failure ::
  "RouteConfig \<Rightarrow> string \<Rightarrow> u16 \<Rightarrow> string \<Rightarrow> ('r, 'k, 'e, 'l, 'lk) World
    \<Rightarrow> ('r, 'k, 'e, 'l, 'lk) World \<times> (AuthDeny, 'a) result" where
  "auth_failure route reason status code w =
     (upd_metrics (record_auth_failure (rc_name route) reason) w,
      Inl \<lparr>dn_status = status, dn_error_code = code\<rparr>)"

fun join_comma :: "string list \<Rightarrow> string" where
  "join_comma [] = []"
| "join_comma [s] = s"
| "join_comma (s # ss) = s @ '','' @ join_comma ss"

text \<open>The result: the response headers and the authenticated subject.\<close>

definition apply_auth ::
  "('k, 'e, 'l, 'c, 'i, 'lk) env \<Rightarrow> Times \<Rightarrow> GatewayConfig \<Rightarrow> RouteConfig \<Rightarrow> HeaderMap \<Rightarrow> HeaderMap
    \<Rightarrow> ('r, 'k, 'e, 'l, 'lk) World
    \<Rightarrow> ('r, 'k, 'e, 'l, 'lk) World \<times> (AuthDeny, HeaderMap \<times> string option) result" where
  "apply_auth V T cfg route headers response_headers w =
     (if \<not> rc_auth_required route then (w, Inr (response_headers, None))
      else case extract_bearer V headers of
        Some Malformed \<Rightarrow> auth_failure route ''invalid_token_format'' 401 ''invalid_token_format'' w
      | None \<Rightarrow> auth_failure route ''missing_token'' 401 ''missing_token'' w
      | Some (Valid token) \<Rightarrow>
          let provider_name = (case rc_auth_provider route of Some p \<Rightarrow> p | None \<Rightarrow> ''main'') in
          case find (\<lambda>p. ap_name p = provider_name) (ac_providers (gc_auth cfg)) of
            None \<Rightarrow> auth_failure route ''unknown_provider'' 503 ''auth_provider_unavailable'' w
          | Some provider \<Rightarrow>
              case registry_get (as_jwks_registry (wd_app w)) provider_name of
                None \<Rightarrow> auth_failure route ''unknown_provider'' 503 ''auth_provider_unavailable'' w
              | Some cache \<Rightarrow>
                  let required_scopes = (case rc_required_scopes route of Some s \<Rightarrow> s | None \<Rightarrow> []) in
                  case validate_with_refresh (ev_jwt V (tm_unix T)) (tm_auth T) (ev_refreshed V) token provider cache required_scopes of
                    Inr identity \<Rightarrow>
                      (w, Inr (insert_value V ''x-auth-scopes'' (join_comma (vi_scopes identity))
                        (insert_value V ''x-auth-iss'' (vi_iss identity)
                          (insert_value V ''x-auth-sub'' (vi_sub identity) response_headers)),
                        Some (vi_sub identity)))
                  | Inl error \<Rightarrow> auth_failure route (error_code error) (http_status error) (error_code error) w)"

subsection \<open>Plugins\<close>

record PluginContinue =
  pn_request :: PluginRequest
  pn_upstream_headers :: HeaderMap

definition plugin_request :: "('k, 'e, 'l, 'c, 'i, 'lk) env \<Rightarrow> RouteConfig \<Rightarrow> Meta \<Rightarrow> HeaderMap \<Rightarrow> PluginRequest" where
  "plugin_request V route meta headers =
     \<lparr>pq_route_name = rc_name route, pq_host = mt_host meta, pq_method = mt_method meta, pq_path = mt_path meta,
      pq_headers = filter (\<lambda>(_, v). ev_to_str_ok V v) headers\<rparr>"

definition run_plugin_log ::
  "('k, 'e, 'l, 'c, 'i, 'lk) env \<Rightarrow> PluginRequest \<Rightarrow> u16 \<Rightarrow> ('r, 'k, 'e, 'l, 'lk) World \<Rightarrow> ('r, 'k, 'e, 'l, 'lk) World" where
  "run_plugin_log V request response_status w =
     (case as_plugin_engine (wd_app w) of
        Some engine \<Rightarrow> w\<lparr>wd_slot := fst (execute_log (ev_lua V) request response_status engine (wd_slot w))\<rparr>
      | None \<Rightarrow> w)"

definition chain_metrics ::
  "RouteConfig \<Rightarrow> u64 \<Rightarrow> ('r, 'k, 'e, 'l, 'lk) World \<Rightarrow> ('r, 'k, 'e, 'l, 'lk) World" where
  "chain_metrics route chain_duration_us =
     upd_metrics (\<lambda>m. record_plugin_duration ''__chain__'' (rc_name route) ''access'' chain_duration_us
       (record_plugin_chain_duration (rc_name route) chain_duration_us m))"

text \<open>\<open>Inl\<close> is the response that ends the request, \<open>Inr\<close> what the chain added.\<close>

definition execute_access_plugins ::
  "('k, 'e, 'l, 'c, 'i, 'lk) env \<Rightarrow> Times \<Rightarrow> Meta \<Rightarrow> RouteConfig \<Rightarrow> HeaderMap \<Rightarrow> HeaderMap
    \<Rightarrow> ('r, 'k, 'e, 'l, 'lk) World
    \<Rightarrow> ('r, 'k, 'e, 'l, 'lk) World \<times> (Response, PluginContinue \<times> HeaderMap) result" where
  "execute_access_plugins V T meta route headers response_headers w =
     (let request = plugin_request V route meta headers; service = uc_service (rc_upstream route) in
      case as_plugin_engine (wd_app w) of
        None \<Rightarrow> (w, Inr (\<lparr>pn_request = request, pn_upstream_headers = []\<rparr>, response_headers))
      | Some engine \<Rightarrow>
          let (slot, result) = execute_access (ev_lua V) (tm_plugins T) request engine (wd_slot w);
              w1 = w\<lparr>wd_slot := slot\<rparr>
          in case result of
               Inr (Continue upstream_headers plugin_response_headers us) \<Rightarrow>
                 (chain_metrics route us w1,
                  Inr (\<lparr>pn_request = request, pn_upstream_headers = upstream_headers\<rparr>,
                       insert_string_headers V response_headers plugin_response_headers))
             | Inr (ShortCircuit plugin_name status body plugin_headers us) \<Rightarrow>
                 let w2 = upd_metrics (record_plugin_short_circuit plugin_name (rc_name route) status) (chain_metrics route us w1);
                     hs = insert_value V ''x-request-id'' (mt_request_id meta) (insert_string_headers V [] plugin_headers);
                     w3 = request_metric T meta (rc_name route) status
                       (emit_log V T meta (rc_name route) status None ''plugin-short-circuit'' service w2)
                 in (run_plugin_log V request status w3,
                     Inl \<lparr>rsp_status = (case ev_status_of V status of Some s \<Rightarrow> s | None \<Rightarrow> 200),
                          rsp_headers = (if body = None then hs else with_content_type ''text/plain; charset=utf-8'' hs),
                          rsp_body = (case body of Some b \<Rightarrow> TextBody b | None \<Rightarrow> NoBody)\<rparr>)
             | Inr (AccessError plugin_name message error_type us) \<Rightarrow>
                 let w2 = upd_metrics (record_plugin_error plugin_name (rc_name route) (PluginErrorType_as_str error_type))
                       (chain_metrics route us w1);
                     hs = insert_value V ''x-request-id'' (mt_request_id meta) (insert_value V ''x-plugin-error'' plugin_name []);
                     w3 = request_metric T meta (rc_name route) 500
                       (emit_log V T meta (rc_name route) 500 None ''plugin-error'' service w2)
                 in (run_plugin_log V request 500 w3,
                     Inl \<lparr>rsp_status = 500, rsp_headers = with_content_type ''application/json'' hs,
                          rsp_body = JsonBody (JObject [(''error'', JString ''plugin_error''),
                            (''plugin'', JString plugin_name), (''message'', JString message)])\<rparr>)
             | Inl _ \<Rightarrow>
                 (upd_metrics (record_plugin_error ''engine'' (rc_name route) (PluginErrorType_as_str Runtime)) w1,
                  Inl \<lparr>rsp_status = 200, rsp_headers = with_content_type ''application/json'' [],
                       rsp_body = JsonBody (JObject [(''error'', JString ''plugin_engine_error'')])\<rparr>))"

subsection \<open>The handler\<close>

definition key_value_of :: "('k, 'e, 'l, 'c, 'i, 'lk) env \<Rightarrow> GatewayConfig \<Rightarrow> RouteConfig \<Rightarrow> HeaderMap \<Rightarrow> HeaderMap \<Rightarrow> string" where
  "key_value_of V cfg route headers response_headers =
     (if rl_key_by (rc_rate_limit route) = ''sub'' then
        (case header_str V response_headers ''x-auth-sub'' of Some s \<Rightarrow> s | None \<Rightarrow> ''anonymous'')
      else client_ip V headers (gs_trust_forwarded_headers (gc_gateway cfg)))"

definition bucket_key_of :: "('k, 'e, 'l, 'c, 'i, 'lk) env \<Rightarrow> GatewayConfig \<Rightarrow> RouteConfig \<Rightarrow> HeaderMap \<Rightarrow> HeaderMap \<Rightarrow> string" where
  "bucket_key_of V cfg route headers response_headers =
     build_key (rls_redis_key_prefix (gc_rate_limits cfg)) (rc_name route) (rl_key_by (rc_rate_limit route))
       (key_value_of V cfg route headers response_headers)"

definition run_limiter ::
  "('k, 'e, 'l, 'c, 'i, 'lk) env \<Rightarrow> Times \<Rightarrow> string \<Rightarrow> RouteRateLimit \<Rightarrow> ('r, 'k, 'e, 'l, 'lk) World
    \<Rightarrow> ('r, 'k, 'e, 'l, 'lk) World \<times> (RateLimitError, RateDecision) result" where
  "run_limiter V T bucket_key rl w =
     (case RateLimiter_check (ev_from_json V) (ev_invoke V) (tm_rate T) (as_rate_limiter (wd_app w)) (wd_redis w)
             bucket_key (rl_bucket_capacity rl) (rl_refill_rate_per_sec rl) of
        (lm, e, r) \<Rightarrow> (w\<lparr>wd_app := (wd_app w)\<lparr>as_rate_limiter := lm\<rparr>, wd_redis := e\<rparr>, r))"

text \<open>Step 5 and the end of the request.\<close>

definition rate_limit_step ::
  "('k, 'e, 'l, 'c, 'i, 'lk) env \<Rightarrow> Times \<Rightarrow> GatewayConfig \<Rightarrow> Meta \<Rightarrow> RouteConfig \<Rightarrow> HeaderMap \<Rightarrow> PluginContinue
    \<Rightarrow> HeaderMap \<Rightarrow> string option \<Rightarrow> ('r, 'k, 'e, 'l, 'lk) World \<Rightarrow> ('r, 'k, 'e, 'l, 'lk) World \<times> Response" where
  "rate_limit_step V T cfg meta route headers pcont response_headers auth_subject w =
     (let service = uc_service (rc_upstream route); preq = pn_request pcont in
      case run_limiter V T (bucket_key_of V cfg route headers response_headers) (rc_rate_limit route) w of
        (w1, Inr decision) \<Rightarrow>
          let rl_mode = as_header_value (rd_mode decision);
              hs = insert_rate_limit_headers V (tm_now_secs T) decision response_headers
          in if \<not> rd_allowed decision then
               let w2 = upd_metrics (record_rate_limit_denied (rc_name route)) w1;
                   hs' = insert_value V ''retry-after'' (show_nat (unat (max1 (rd_retry_after_ms decision div 1000)))) hs;
                   w3 = request_metric T meta (rc_name route) 429
                     (emit_log V T meta (rc_name route) 429 auth_subject rl_mode service w2)
               in (run_plugin_log V preq 429 w3, \<lparr>rsp_status = 429, rsp_headers = hs', rsp_body = NoBody\<rparr>)
             else
               let w2 = upd_metrics (case rd_mode decision of
                     DegradedLocal \<Rightarrow> record_rate_limit_degraded (rc_name route)
                   | _ \<Rightarrow> record_rate_limit_allowed (rc_name route)) w1;
                   hs' = insert_string_headers V hs (pn_upstream_headers pcont);
                   w3 = request_metric T meta (rc_name route) 200
                     (emit_log V T meta (rc_name route) 200 auth_subject rl_mode service w2)
               in (run_plugin_log V preq 200 w3, allow_response V hs' (mt_request_id meta))
      | (w1, Inl _) \<Rightarrow>
          early_deny V T meta route 503 ''rate_limiter_unavailable''
            (run_plugin_log V preq 503 (upd_metrics (record_rate_limit_denied (rc_name route)) w1)))"

definition check_inner ::
  "('k, 'e, 'l, 'c, 'i, 'lk) env \<Rightarrow> Times \<Rightarrow> HeaderMap \<Rightarrow> string \<Rightarrow> string \<Rightarrow> string
    \<Rightarrow> ('r, 'k, 'e, 'l, 'lk) World \<Rightarrow> ('r, 'k, 'e, 'l, 'lk) World \<times> Response" where
  "check_inner V T headers meth path request_id w =
     (let host = (case header_str V headers ''host'' of Some h \<Rightarrow> h | None \<Rightarrow> ''*'');
          meta = \<lparr>mt_request_id = request_id, mt_remote_addr = client_ip V headers False, mt_host = host,
            mt_method = meth, mt_path = path\<rparr>;
          cfg = cs_config (as_config_state (wd_app w))
      in case match_route (gc_routes cfg) host path of
           None \<Rightarrow>
             (request_metric T meta [] 200 (emit_log V T meta [] 200 None ''none'' [] w), allow_response V [] request_id)
         | Some route \<Rightarrow>
             if \<not> list_ex (\<lambda>m. eq_ignore_ascii_case m meth) (rc_methods route) then method_denied V T meta route w
             else
               case execute_access_plugins V T meta route headers [] w of
                 (w1, Inl response) \<Rightarrow> (w1, response)
               | (w1, Inr (pcont, hs1)) \<Rightarrow>
                   (case apply_auth V T cfg route headers hs1 w1 of
                      (w2, Inl deny) \<Rightarrow>
                        early_deny V T meta route (dn_status deny) (dn_error_code deny)
                          (run_plugin_log V (pn_request pcont) (dn_status deny) w2)
                    | (w2, Inr (hs2, auth_subject)) \<Rightarrow>
                        rate_limit_step V T cfg meta route headers pcont hs2 auth_subject w2))"

definition check_begin :: "('r, 'k, 'e, 'l, 'lk) World \<Rightarrow> ('r, 'k, 'e, 'l, 'lk) World option" where
  "check_begin w =
     (if as_concurrency_limit (wd_app w) = 0 then None
      else Some (upd_metrics inc_inflight
        (w\<lparr>wd_app := (wd_app w)\<lparr>as_concurrency_limit := as_concurrency_limit (wd_app w) - 1\<rparr>\<rparr>)))"

definition check_end :: "('r, 'k, 'e, 'l, 'lk) World \<Rightarrow> ('r, 'k, 'e, 'l, 'lk) World" where
  "check_end w =
     (let w' = upd_metrics dec_inflight w
      in w'\<lparr>wd_app := (wd_app w')\<lparr>as_concurrency_limit := as_concurrency_limit (wd_app w') + 1\<rparr>\<rparr>)"

definition inject_otel_context ::
  "('k, 'e, 'l, 'c, 'i, 'lk) env \<Rightarrow> HeaderMap \<Rightarrow> Response \<Rightarrow> Response" where
  "inject_otel_context V request_headers r =
     r\<lparr>rsp_headers := insert_string_headers V (rsp_headers r) (ev_otel_fields V request_headers)\<rparr>"

definition check ::
  "('k, 'e, 'l, 'c, 'i, 'lk) env \<Rightarrow> Times \<Rightarrow> Request \<Rightarrow> ('r, 'k, 'e, 'l, 'lk) World
    \<Rightarrow> ('r, 'k, 'e, 'l, 'lk) World \<times> Response" where
  "check V T req w =
     (let (counter, request_id) = generate_request_id (tm_nanos T) (wd_counter w);
          w0 = w\<lparr>wd_counter := counter\<rparr>
      in case check_begin w0 of
           None \<Rightarrow> (upd_metrics record_overload w0, overload_response V request_id)
         | Some w1 \<Rightarrow>
             let (w2, response) = check_inner V T (req_headers req) (req_method req) (req_path req) request_id w1;
                 response' = (if as_tracing_enabled (wd_app w2)
                   then inject_otel_context V (req_headers req) response else response)
             in (check_end w2, response'))"

end
