(* ===== verification/Ext_Authz_Correct.thy ===== *)
theory Ext_Authz_Correct
  imports Ext_Authz Auth_Correct Limiter_Correct Plugins_Correct
begin

text \<open>
  Properties of the authorization handler: which route it picks, what an allowed request
  has passed, how it accounts for requests, and, composed with the rate limiter, how many
  requests it lets through.
\<close>

subsection \<open>Route matching\<close>

lemma max_by_key_None: "max_by_key f xs = None \<longleftrightarrow> xs = []"
  by (cases xs) (auto split: option.splits)

lemma max_by_key_Some:
  "max_by_key f xs = Some x \<Longrightarrow> \<exists>pre post. xs = pre @ x # post \<and> (\<forall>y \<in> set pre. f y \<le> f x) \<and> (\<forall>y \<in> set post. f y < f x)"
proof (induction xs)
  case (Cons a xs)
  show ?case
  proof (cases "max_by_key f xs")
    case None
    with Cons.prems show ?thesis by (auto simp: max_by_key_None intro!: exI [of _ "[]"])
  next
    case (Some y)
    with Cons.IH show ?thesis
    proof (cases "f a > f y")
      case True
      with Some Cons.prems have "x = a" by simp
      moreover have "\<forall>z \<in> set xs. f z \<le> f y"
      proof -
        have "f z \<le> f y" if "z \<in> set xs" "max_by_key f xs = Some y" for z
          using that by (induction xs arbitrary: y) (auto split: option.splits if_splits simp: max_by_key_None)
        with Some show ?thesis by blast
      qed
      ultimately show ?thesis using True by (intro exI [of _ "[]"] exI [of _ xs]) fastforce
    next
      case False
      with Some Cons.prems have "x = y" by simp
      with Some Cons.IH obtain pre post where "xs = pre @ x # post" "\<forall>z \<in> set pre. f z \<le> f x" "\<forall>z \<in> set post. f z < f x"
        by blast
      with False \<open>x = y\<close> show ?thesis by (intro exI [of _ "a # pre"] exI [of _ post]) auto
    qed
  qed
qed simp

definition eligible :: "string \<Rightarrow> string \<Rightarrow> RouteConfig \<Rightarrow> bool" where
  "eligible host path r \<longleftrightarrow> (''*'' \<in> set (rc_hostnames r) \<or> host \<in> set (rc_hostnames r)) \<and> prefix (rc_path_prefix r) path"

lemma match_route_filter:
  "match_route routes host path = max_by_key (\<lambda>r. length (rc_path_prefix r)) (filter (eligible host path) routes)"
proof -
  have "filter (\<lambda>r. starts_with path (rc_path_prefix r)) (filter (\<lambda>r. list_ex (\<lambda>h. h = ''*'' \<or> h = host) (rc_hostnames r)) routes)
      = filter (eligible host path) routes"
    unfolding filter_filter by (rule filter_cong) (auto simp: eligible_def starts_with_def list_ex_iff)
  then show ?thesis by (simp add: match_route_def)
qed

subsection \<open>What a request touches\<close>

text \<open>\<open>w'\<close> differs from \<open>w\<close> in the metrics, the Lua machine and the log only.\<close>

definition only_metrics :: "('r, 'k, 'e, 'l, 'lk) World \<Rightarrow> ('r, 'k, 'e, 'l, 'lk) World \<Rightarrow> bool" where
  "only_metrics w w' \<longleftrightarrow>
     (\<exists>m s o'. w' = w\<lparr>wd_app := (wd_app w)\<lparr>as_metrics := m\<rparr>, wd_slot := s, wd_out := o'\<rparr>)"

lemma only_metrics_iff:
  "only_metrics w w' \<longleftrightarrow> (wd_app w')\<lparr>as_metrics := undefined\<rparr> = (wd_app w)\<lparr>as_metrics := undefined\<rparr>
     \<and> wd_redis w' = wd_redis w \<and> wd_counter w' = wd_counter w"
proof
  assume r: "(wd_app w')\<lparr>as_metrics := undefined\<rparr> = (wd_app w)\<lparr>as_metrics := undefined\<rparr>
     \<and> wd_redis w' = wd_redis w \<and> wd_counter w' = wd_counter w"
  have "wd_app w' = (wd_app w)\<lparr>as_metrics := as_metrics (wd_app w')\<rparr>"
    using r by (cases "wd_app w"; cases "wd_app w'") simp
  with r have "w' = w\<lparr>wd_app := (wd_app w)\<lparr>as_metrics := as_metrics (wd_app w')\<rparr>, wd_slot := wd_slot w', wd_out := wd_out w'\<rparr>"
    by (cases w; cases w') simp
  then show "only_metrics w w'" unfolding only_metrics_def by blast
qed (auto simp: only_metrics_def)

lemma only_metrics_refl [simp]: "only_metrics w w"
  by (simp add: only_metrics_iff)

lemma only_metrics_trans [trans]: "only_metrics w w' \<Longrightarrow> only_metrics w' w'' \<Longrightarrow> only_metrics w w''"
  by (simp add: only_metrics_iff)

lemma only_metrics_ops [simp]:
  "only_metrics w (upd_metrics f w') = only_metrics w w'"
  "only_metrics w (emit_log V T meta route status sub mode up w') = only_metrics w w'"
  "only_metrics w (request_metric T meta route status w') = only_metrics w w'"
  "only_metrics w (run_plugin_log V req status w') = only_metrics w w'"
  "only_metrics w (chain_metrics r us w') = only_metrics w w'"
  "only_metrics w (w'\<lparr>wd_slot := s\<rparr>) = only_metrics w w'"
  by (simp_all add: only_metrics_iff upd_metrics_def emit_log_def request_metric_def run_plugin_log_def chain_metrics_def
      split: option.splits)

lemma only_metrics_deny [simp]: "only_metrics w (fst (early_deny V T meta route status code w')) = only_metrics w w'"
  by (simp add: early_deny_def)

lemma only_metrics_plugins: "only_metrics w (fst (execute_access_plugins V T meta route headers hs w))"
  by (auto simp: execute_access_plugins_def Let_def split: option.splits prod.splits sum.splits PluginAccessResult.splits)

lemma only_metrics_auth: "only_metrics w (fst (apply_auth V T cfg route headers hs w))"
  by (auto simp: apply_auth_def auth_failure_def Let_def split: option.splits sum.splits BearerResult.splits)

subsection \<open>Accounting\<close>

abbreviation metrics_of :: "('r, 'k, 'e, 'l, 'lk) World \<Rightarrow> MetricsRegistry" where
  "metrics_of w \<equiv> as_metrics (wd_app w)"

definition requests_counted :: "('r, 'k, 'e, 'l, 'lk) World \<Rightarrow> nat" where
  "requests_counted w = count_inc http_requests_total (metrics_of w)"

definition logs_all :: "('k, 'e, 'l, 'c, 'i, 'lk) env \<Rightarrow> bool" where
  "logs_all V \<longleftrightarrow> (\<forall>entry. is_ok (ev_serialize V entry))"

text \<open>From \<open>w\<close> to \<open>w'\<close>, \<open>n\<close> requests were counted and logged, the gauge and the counter of
  overloads are where they were and no call on the metrics has the wrong labels.\<close>

definition accounted ::
  "('k, 'e, 'l, 'c, 'i, 'lk) env \<Rightarrow> nat \<Rightarrow> ('r, 'k, 'e, 'l, 'lk) World \<Rightarrow> ('r, 'k, 'e, 'l, 'lk) World \<Rightarrow> bool" where
  "accounted V n w w' \<longleftrightarrow> requests_counted w' = requests_counted w + n
     \<and> (logs_all V \<longrightarrow> length (wd_out w') = length (wd_out w) + n)
     \<and> count_inc overload_total (metrics_of w') = count_inc overload_total (metrics_of w)
     \<and> gauge inflight_requests (metrics_of w') = gauge inflight_requests (metrics_of w)
     \<and> well_labelled (metrics_of w') = well_labelled (metrics_of w)"

lemma accounted_refl [simp]: "accounted V 0 w w"
  by (simp add: accounted_def)

lemma accounted_trans: "accounted V m w w' \<Longrightarrow> accounted V n w' w'' \<Longrightarrow> accounted V (m + n) w w''"
  by (simp add: accounted_def)

lemmas meter = accounted_def requests_counted_def upd_metrics_def record_defs count_inc_call gauge_call

lemma logs_all_D: "logs_all V \<Longrightarrow> ev_serialize V entry \<noteq> Inl e"
  unfolding logs_all_def by (metis is_ok_simps(1))

lemma accounted_logged:
  "accounted V (Suc 0) w (request_metric T meta route status (emit_log V T meta' route' status' sub mode up w))"
  by (auto simp: meter request_metric_def emit_log_def emit_def desc_def dest: logs_all_D split: sum.splits)

lemma accounted_simps [simp]:
  "accounted V n w (run_plugin_log V req status w') = accounted V n w w'"
  "accounted V n w (w'\<lparr>wd_slot := s\<rparr>) = accounted V n w w'"
  "accounted V n w (upd_metrics (record_auth_failure r a) w') = accounted V n w w'"
  "accounted V n w (upd_metrics (record_rate_limit_denied r) w') = accounted V n w w'"
  "accounted V n w (upd_metrics (record_rate_limit_allowed r) w') = accounted V n w w'"
  "accounted V n w (upd_metrics (record_rate_limit_degraded r) w') = accounted V n w w'"
  "accounted V n w (upd_metrics (record_plugin_error p r t) w') = accounted V n w w'"
  "accounted V n w (upd_metrics (record_plugin_short_circuit p r st) w') = accounted V n w w'"
  "accounted V n w (chain_metrics route us w') = accounted V n w w'"
  by (simp_all add: meter run_plugin_log_def chain_metrics_def desc_def split: option.splits)

lemma accounted_logged_after:
  assumes "accounted V 0 w w1"
  shows "accounted V (Suc 0) w (request_metric T meta route status (emit_log V T meta' route' status' sub mode up w1))"
  using accounted_trans [OF assms accounted_logged] by simp

lemma accounted_deny: "accounted V 0 w w1 \<Longrightarrow> accounted V (Suc 0) w (fst (early_deny V T meta route status code w1))"
  by (simp add: early_deny_def accounted_logged_after)

lemma accounted_auth: "accounted V 0 w (fst (apply_auth V T cfg route headers hs w))"
  by (auto simp: apply_auth_def auth_failure_def Let_def split: option.splits sum.splits BearerResult.splits)

text \<open>The plugin engine failed before any plugin could answer.\<close>

definition engine_failed ::
  "('k, 'e, 'l, 'c, 'i, 'lk) env \<Rightarrow> Times \<Rightarrow> Meta \<Rightarrow> RouteConfig \<Rightarrow> HeaderMap \<Rightarrow> ('r, 'k, 'e, 'l, 'lk) World \<Rightarrow> bool" where
  "engine_failed V T meta route headers w \<longleftrightarrow> (\<exists>engine e. as_plugin_engine (wd_app w) = Some engine
     \<and> snd (execute_access (ev_lua V) (tm_plugins T) (plugin_request V route meta headers) engine (wd_slot w)) = Inl e)"

lemma accounted_plugins:
  assumes "execute_access_plugins V T meta route headers hs w = (w', r)"
  shows "accounted V (case r of Inr _ \<Rightarrow> 0 | Inl _ \<Rightarrow> if engine_failed V T meta route headers w then 0 else 1) w w'"
  using assms
  by (auto simp: execute_access_plugins_def engine_failed_def Let_def intro!: accounted_logged_after
      split: option.splits prod.splits sum.splits PluginAccessResult.splits)

subsection \<open>The way to the rate limiter\<close>

definition meta_of ::
  "('k, 'e, 'l, 'c, 'i, 'lk) env \<Rightarrow> HeaderMap \<Rightarrow> string \<Rightarrow> string \<Rightarrow> string \<Rightarrow> Meta" where
  "meta_of V headers meth path request_id =
     \<lparr>mt_request_id = request_id, mt_remote_addr = client_ip V headers False,
      mt_host = (case header_str V headers ''host'' of Some h \<Rightarrow> h | None \<Rightarrow> ''*''),
      mt_method = meth, mt_path = path\<rparr>"

abbreviation config_of :: "('r, 'k, 'e, 'l, 'lk) World \<Rightarrow> GatewayConfig" where
  "config_of w \<equiv> cs_config (as_config_state (wd_app w))"

text \<open>The steps before the rate limiter: \<open>Inl\<close> when one of them answers the request.\<close>

definition pre_check ::
  "('k, 'e, 'l, 'c, 'i, 'lk) env \<Rightarrow> Times \<Rightarrow> HeaderMap \<Rightarrow> Meta \<Rightarrow> ('r, 'k, 'e, 'l, 'lk) World
    \<Rightarrow> (('r, 'k, 'e, 'l, 'lk) World \<times> Response,
        ('r, 'k, 'e, 'l, 'lk) World \<times> RouteConfig \<times> PluginContinue \<times> HeaderMap \<times> string option) result" where
  "pre_check V T headers meta w =
     (case match_route (gc_routes (config_of w)) (mt_host meta) (mt_path meta) of
        None \<Rightarrow> Inl (request_metric T meta [] 200 (emit_log V T meta [] 200 None ''none'' [] w),
          allow_response V [] (mt_request_id meta))
      | Some route \<Rightarrow>
          if \<not> list_ex (\<lambda>m. eq_ignore_ascii_case m (mt_method meta)) (rc_methods route) then Inl (method_denied V T meta route w)
          else
            case execute_access_plugins V T meta route headers [] w of
              (w1, Inl response) \<Rightarrow> Inl (w1, response)
            | (w1, Inr (pcont, hs1)) \<Rightarrow>
                (case apply_auth V T (config_of w) route headers hs1 w1 of
                   (w2, Inl deny) \<Rightarrow>
                     Inl (early_deny V T meta route (dn_status deny) (dn_error_code deny)
                       (run_plugin_log V (pn_request pcont) (dn_status deny) w2))
                 | (w2, Inr (hs2, auth_subject)) \<Rightarrow> Inr (w2, route, pcont, hs2, auth_subject)))"

lemma check_inner_pre:
  "check_inner V T headers meth path request_id w =
     (let meta = meta_of V headers meth path request_id in
      case pre_check V T headers meta w of
        Inl x \<Rightarrow> x
      | Inr (w2, route, pcont, hs2, sub) \<Rightarrow> rate_limit_step V T (config_of w) meta route headers pcont hs2 sub w2)"
  by (auto simp: check_inner_def pre_check_def meta_of_def Let_def split: option.splits prod.splits sum.splits)

lemma pre_check_Inl:
  assumes "pre_check V T headers meta w = Inl (w', resp)"
  shows "only_metrics w w'" "\<exists>n. n \<le> 1 \<and> accounted V n w w' \<and> (as_plugin_engine (wd_app w) = None \<longrightarrow> n = 1)"
proof -
  have "only_metrics w w' \<and> (\<exists>n. n \<le> 1 \<and> accounted V n w w' \<and> (as_plugin_engine (wd_app w) = None \<longrightarrow> n = 1))"
  proof (cases "match_route (gc_routes (config_of w)) (mt_host meta) (mt_path meta)")
    case None
    then have "w' = request_metric T meta [] 200 (emit_log V T meta [] 200 None ''none'' [] w)"
      using assms by (simp add: pre_check_def)
    then show ?thesis using accounted_logged by fastforce
  next
    case (Some route)
    note route = this
    show ?thesis
    proof (cases "list_ex (\<lambda>m. eq_ignore_ascii_case m (mt_method meta)) (rc_methods route)")
      case False
      then have "w' = fst (method_denied V T meta route w)" using assms route by (simp add: pre_check_def)
      then show ?thesis using accounted_deny [OF accounted_refl] by (fastforce simp: method_denied_def)
    next
      case True
      obtain w1 r where p: "execute_access_plugins V T meta route headers [] w = (w1, r)" by fastforce
      have o: "only_metrics w w1" using only_metrics_plugins [of w V T meta route headers "[]"] p by simp
      show ?thesis
      proof (cases r)
        case (Inl response)
        then have "w' = w1" using assms route True p by (simp add: pre_check_def)
        with o accounted_plugins [OF p] Inl show ?thesis by (auto simp: engine_failed_def split: if_splits)
      next
        case (Inr x)
        obtain pcont hs1 where x: "x = (pcont, hs1)" by fastforce
        obtain w2 d where d: "apply_auth V T (config_of w) route headers hs1 w1 = (w2, Inl d)"
          "w' = fst (early_deny V T meta route (dn_status d) (dn_error_code d) (run_plugin_log V (pn_request pcont) (dn_status d) w2))"
          using assms route True p Inr x by (auto simp: pre_check_def split: prod.splits sum.splits)
        have "only_metrics w w2" "accounted V 0 w w2"
          using only_metrics_trans [OF o only_metrics_auth [of w1 V T "config_of w" route headers hs1]]
            accounted_trans [OF accounted_plugins [OF p] accounted_auth [of V w1 T "config_of w" route headers hs1]] Inr d(1)
          by simp_all
        then have "only_metrics w w'" "accounted V (Suc 0) w w'" unfolding d(2) by (simp_all add: accounted_deny)
        then show ?thesis by auto
      qed
    qed
  qed
  then show "only_metrics w w'" "\<exists>n. n \<le> 1 \<and> accounted V n w w' \<and> (as_plugin_engine (wd_app w) = None \<longrightarrow> n = 1)"
    by blast+
qed

lemma pre_check_Inr:
  assumes "pre_check V T headers meta w = Inr (w2, route, pcont, hs2, sub)"
  shows "match_route (gc_routes (config_of w)) (mt_host meta) (mt_path meta) = Some route"
    "\<exists>m \<in> set (rc_methods route). eq_ignore_ascii_case m (mt_method meta)"
    "\<exists>w1 hs1. execute_access_plugins V T meta route headers [] w = (w1, Inr (pcont, hs1))
       \<and> apply_auth V T (config_of w) route headers hs1 w1 = (w2, Inr (hs2, sub))"
  using assms by (auto simp: pre_check_def list_ex_iff split: option.splits if_splits prod.splits sum.splits)

lemma pre_check_Inr_frame:
  assumes "pre_check V T headers meta w = Inr (w2, route, pcont, hs2, sub)"
  shows "only_metrics w w2" "accounted V 0 w w2"
proof -
  obtain w1 hs1 where p: "execute_access_plugins V T meta route headers [] w = (w1, Inr (pcont, hs1))"
    "apply_auth V T (config_of w) route headers hs1 w1 = (w2, Inr (hs2, sub))"
    using pre_check_Inr(3) [OF assms] by blast
  have "only_metrics w w1" "only_metrics w1 w2"
    using only_metrics_plugins [of w V T meta route headers "[]"] only_metrics_auth [of w1 V T "config_of w" route headers hs1] p
    by simp_all
  then show "only_metrics w w2" by (rule only_metrics_trans)
  show "accounted V 0 w w2"
    using accounted_trans [OF accounted_plugins [OF p(1)] accounted_auth [of V w1 T "config_of w" route headers hs1]] p(2) by simp
qed

lemma apply_auth_Inr:
  assumes "apply_auth V T cfg route headers hs1 w1 = (w2, Inr (hs2, sub))" "rc_auth_required route"
  shows "w2 = w1 \<and> (\<exists>token p c ident. extract_bearer V headers = Some (Valid token)
    \<and> p \<in> set (ac_providers (gc_auth cfg)) \<and> ap_name p = (case rc_auth_provider route of Some n \<Rightarrow> n | None \<Rightarrow> ''main'')
    \<and> registry_get (as_jwks_registry (wd_app w1)) (ap_name p) = Some c
    \<and> validate_with_refresh (ev_jwt V (tm_unix T)) (tm_auth T) (ev_refreshed V) token p c
        (case rc_required_scopes route of Some s \<Rightarrow> s | None \<Rightarrow> []) = Inr ident
    \<and> sub = Some (vi_sub ident)
    \<and> hs2 = insert_value V ''x-auth-scopes'' (join_comma (vi_scopes ident))
        (insert_value V ''x-auth-iss'' (vi_iss ident) (insert_value V ''x-auth-sub'' (vi_sub ident) hs1)))"
proof -
  let ?n = "case rc_auth_provider route of Some n \<Rightarrow> n | None \<Rightarrow> ''main''"
  let ?req = "case rc_required_scopes route of Some s \<Rightarrow> s | None \<Rightarrow> []"
  obtain token where t: "extract_bearer V headers = Some (Valid token)"
    using assms by (auto simp: apply_auth_def auth_failure_def split: option.splits BearerResult.splits)
  obtain p where p: "find (\<lambda>p. ap_name p = ?n) (ac_providers (gc_auth cfg)) = Some p"
    using assms t by (cases "find (\<lambda>p. ap_name p = ?n) (ac_providers (gc_auth cfg))") (simp_all add: apply_auth_def auth_failure_def Let_def)
  then have n: "ap_name p = ?n" "p \<in> set (ac_providers (gc_auth cfg))" by (auto simp: find_Some_iff)
  obtain c where c: "registry_get (as_jwks_registry (wd_app w1)) ?n = Some c"
    using assms t p by (cases "registry_get (as_jwks_registry (wd_app w1)) ?n") (simp_all add: apply_auth_def auth_failure_def Let_def)
  obtain ident where "validate_with_refresh (ev_jwt V (tm_unix T)) (tm_auth T) (ev_refreshed V) token p c ?req = Inr ident"
    using assms t p c
    by (cases "validate_with_refresh (ev_jwt V (tm_unix T)) (tm_auth T) (ev_refreshed V) token p c ?req") (simp_all add: apply_auth_def auth_failure_def Let_def)
  with assms t p c n show ?thesis by (simp add: apply_auth_def Let_def) metis
qed

lemma apply_auth_deny_status:
  assumes "apply_auth V T cfg route headers hs1 w1 = (w2, Inl deny)"
  shows "dn_status deny \<in> {401, 403, 503}"
proof -
  have h: "http_status e = 401 \<or> http_status e = 403 \<or> http_status e = 503" for e by (cases e) simp_all
  from assms show ?thesis
    by (auto simp: apply_auth_def auth_failure_def Let_def split: if_splits option.splits sum.splits BearerResult.splits)
      (use h in blast)+
qed

lemma apply_auth_not_required:
  "\<not> rc_auth_required route \<Longrightarrow> apply_auth V T cfg route headers hs1 w1 = (w1, Inr (hs1, None))"
  by (simp add: apply_auth_def)

subsection \<open>Headers\<close>

lemma map_of_insert_value:
  "map_of (insert_value V n v hs) k = (if ev_value_ok V v \<and> k = n then Some v else map_of hs k)"
  by (simp add: insert_value_def)

text \<open>\<open>HeaderName\<close>s are lower case.\<close>

definition http_spec :: "('k, 'e, 'l, 'c, 'i, 'lk) env \<Rightarrow> bool" where
  "http_spec V \<longleftrightarrow> (\<forall>n m. ev_name_of V n = Some m \<longrightarrow> m = to_ascii_lowercase n)"

lemma map_of_insert_string_headers:
  assumes "http_spec V" "k \<notin> (\<lambda>(n, _). to_ascii_lowercase n) ` set vs"
  shows "map_of (insert_string_headers V hs vs) k = map_of hs k"
  using assms(2)
proof (induction vs arbitrary: hs)
  case (Cons x vs)
  obtain n v where x: "x = (n, v)" by (cases x)
  have "map_of (case ev_name_of V n of Some m \<Rightarrow> insert_value V m v hs | None \<Rightarrow> hs) k = map_of hs k"
    using Cons.prems assms(1) by (auto simp: x http_spec_def map_of_insert_value split: option.splits)
  with Cons show ?case by (simp add: insert_string_headers_def x)
qed (simp add: insert_string_headers_def)

lemma map_of_rate_limit_headers:
  "k \<notin> {''x-rate-limit-reset'', ''x-rate-limit-mode'', ''x-rate-limit-limit'', ''x-rate-limit-remaining''} \<Longrightarrow>
     map_of (insert_rate_limit_headers V now d hs) k = map_of hs k"
  by (simp add: insert_rate_limit_headers_def map_of_insert_value)

lemma plugin_headers_clean:
  assumes "execute_access_plugins V T meta route headers hs w = (w1, Inr (pcont, hs1))"
  shows "\<forall>(n, v) \<in> set (pn_upstream_headers pcont). \<not> reserved n \<and> to_ascii_lowercase n = n"
proof (cases "as_plugin_engine (wd_app w)")
  case None
  with assms show ?thesis by (auto simp: execute_access_plugins_def Let_def)
next
  case (Some engine)
  with assms obtain slot up resp us where
    "execute_access (ev_lua V) (tm_plugins T) (plugin_request V route meta headers) engine (wd_slot w) = (slot, Inr (Continue up resp us))"
    "pn_upstream_headers pcont = up"
    by (auto simp: execute_access_plugins_def Let_def split: prod.splits sum.splits PluginAccessResult.splits)
  with execute_access_clean show ?thesis by blast
qed

text \<open>A plugin reads the request that the handler has: the names of a \<open>HeaderMap\<close> are lower case,
  and \<open>get_header\<close> finds a header under any spelling of its name, exactly when the handler
  itself can read it.\<close>

lemma plugin_reads_header:
  assumes "distinct (map fst headers)" "\<forall>(k, v) \<in> set headers. to_ascii_lowercase k = k"
    and "gw_request g = plugin_request V route meta headers"
  shows "api_query g (RequestGetHeader name) =
    (case header_str V headers (to_ascii_lowercase name) of Some v \<Rightarrow> StringValue v | None \<Rightarrow> NoValue)"
proof -
  have "map_option snd (find (\<lambda>(key, _). eq_ignore_ascii_case key name) (filter (\<lambda>(_, v). ev_to_str_ok V v) headers))
      = header_str V headers (to_ascii_lowercase name)"
    using assms(1,2)
  proof (induction headers)
    case (Cons h hs)
    obtain k v where h: "h = (k, v)" by (cases h)
    have k: "eq_ignore_ascii_case k name \<longleftrightarrow> k = to_ascii_lowercase name"
      using Cons.prems(2) by (auto simp: h eq_ignore_ascii_case_def)
    show ?case
    proof (cases "k = to_ascii_lowercase name")
      case True
      then have "map_of hs (to_ascii_lowercase name) = None" using Cons.prems(1) by (auto simp: h map_of_eq_None_iff)
      moreover have "map_option snd (find (\<lambda>(key, _). eq_ignore_ascii_case key name) (filter (\<lambda>(_, v). ev_to_str_ok V v) hs))
          = header_str V hs (to_ascii_lowercase name)" using Cons by simp
      ultimately show ?thesis using True k by (simp add: h header_str_def)
    next
      case False
      then show ?thesis using Cons k by (simp add: h header_str_def)
    qed
  qed (simp add: header_str_def)
  then show ?thesis by (simp add: assms(3) get_header_def plugin_request_def)
qed

end
