(* ===== verification/Gateway_Correct.thy ===== *)
theory Gateway_Correct
  imports Ext_Authz_Correct
begin

text \<open>
  The authorization handler as a whole: the rate limiting step, single requests, runs of
  requests, and requests in flight at the same time.
\<close>

subsection \<open>The rate limiting step\<close>

lemma rate_limit_step_spec:
  assumes "RateLimiter_check (ev_from_json V) (ev_invoke V) (tm_rate T) (as_rate_limiter (wd_app w)) (wd_redis w)
      (bucket_key_of V cfg route headers hs) (rl_bucket_capacity (rc_rate_limit route))
      (rl_refill_rate_per_sec (rc_rate_limit route)) = (lm, e, r)"
    and "rate_limit_step V T cfg meta route headers pcont hs sub w = (w', resp)"
  shows "only_metrics (w\<lparr>wd_app := (wd_app w)\<lparr>as_rate_limiter := lm\<rparr>, wd_redis := e\<rparr>) w'"
    and "accounted V (Suc 0) w w'"
    and "rsp_status resp = 200 \<longleftrightarrow> admits r"
    and "rsp_status resp = 200 \<Longrightarrow> \<exists>d. r = Inr d \<and> rsp_headers resp = insert_value V ''x-request-id'' (mt_request_id meta)
        (insert_string_headers V (insert_rate_limit_headers V (tm_now_secs T) d hs) (pn_upstream_headers pcont))"
proof -
  let ?w1 = "w\<lparr>wd_app := (wd_app w)\<lparr>as_rate_limiter := lm\<rparr>, wd_redis := e\<rparr>"
  have l: "run_limiter V T (bucket_key_of V cfg route headers hs) (rc_rate_limit route) w = (?w1, r)"
    by (simp add: run_limiter_def assms(1))
  have a: "accounted V 0 w ?w1" by (simp add: accounted_def requests_counted_def)
  have "only_metrics ?w1 w' \<and> accounted V (Suc 0) w w' \<and> (rsp_status resp = 200 \<longleftrightarrow> admits r)
    \<and> (rsp_status resp = 200 \<longrightarrow> (\<exists>d. r = Inr d \<and> rsp_headers resp = insert_value V ''x-request-id'' (mt_request_id meta)
        (insert_string_headers V (insert_rate_limit_headers V (tm_now_secs T) d hs) (pn_upstream_headers pcont))))"
  proof (cases r)
    case (Inl err)
    then show ?thesis
      using assms(2) l accounted_deny [of V w "run_plugin_log V (pn_request pcont) 503 (upd_metrics (record_rate_limit_denied (rc_name route)) ?w1)"] a
      by (auto simp: rate_limit_step_def early_deny_def deny_response_def Let_def)
  next
    case (Inr d)
    show ?thesis
    proof (cases "rd_allowed d")
      case False
      then show ?thesis
        using assms(2) l Inr a by (auto simp: rate_limit_step_def Let_def intro!: accounted_logged_after)
    next
      case True
      then show ?thesis
        using assms(2) l Inr a
        by (cases "rd_mode d") (auto simp: rate_limit_step_def allow_response_def Let_def intro!: accounted_logged_after)
    qed
  qed
  then show "only_metrics ?w1 w'" "accounted V (Suc 0) w w'" "rsp_status resp = 200 \<longleftrightarrow> admits r"
    "rsp_status resp = 200 \<Longrightarrow> \<exists>d. r = Inr d \<and> rsp_headers resp = insert_value V ''x-request-id'' (mt_request_id meta)
        (insert_string_headers V (insert_rate_limit_headers V (tm_now_secs T) d hs) (pn_upstream_headers pcont))"
    by blast+
qed

subsection \<open>One request\<close>

lemma check_inner_frame:
  assumes "check_inner V T headers meth path rid w = (w', resp)"
  shows "as_concurrency_limit (wd_app w') = as_concurrency_limit (wd_app w)"
    "as_tracing_enabled (wd_app w') = as_tracing_enabled (wd_app w)"
    "\<exists>n. n \<le> 1 \<and> accounted V n w w' \<and> (as_plugin_engine (wd_app w) = None \<longrightarrow> n = 1)"
proof -
  let ?meta = "meta_of V headers meth path rid"
  have "as_concurrency_limit (wd_app w') = as_concurrency_limit (wd_app w)
    \<and> as_tracing_enabled (wd_app w') = as_tracing_enabled (wd_app w)
    \<and> (\<exists>n. n \<le> 1 \<and> accounted V n w w' \<and> (as_plugin_engine (wd_app w) = None \<longrightarrow> n = 1))"
  proof (cases "pre_check V T headers ?meta w")
    case (Inl x)
    with assms have "pre_check V T headers ?meta w = Inl (w', resp)" by (simp add: check_inner_pre Let_def)
    from pre_check_Inl [OF this] show ?thesis by (auto simp: only_metrics_def)
  next
    case (Inr x)
    obtain w2 route pcont hs2 sub where x: "x = (w2, route, pcont, hs2, sub)" by (cases x) auto
    note f = pre_check_Inr_frame [OF Inr [unfolded x]]
    have s: "rate_limit_step V T (config_of w) ?meta route headers pcont hs2 sub w2 = (w', resp)"
      using assms Inr x by (simp add: check_inner_pre Let_def)
    obtain lm e r where r: "RateLimiter_check (ev_from_json V) (ev_invoke V) (tm_rate T) (as_rate_limiter (wd_app w2)) (wd_redis w2)
      (bucket_key_of V (config_of w) route headers hs2) (rl_bucket_capacity (rc_rate_limit route))
      (rl_refill_rate_per_sec (rc_rate_limit route)) = (lm, e, r)" by (cases "RateLimiter_check (ev_from_json V) (ev_invoke V) (tm_rate T) (as_rate_limiter (wd_app w2)) (wd_redis w2)
      (bucket_key_of V (config_of w) route headers hs2) (rl_bucket_capacity (rc_rate_limit route))
      (rl_refill_rate_per_sec (rc_rate_limit route))") auto
    from f(1) rate_limit_step_spec(1) [OF r s] accounted_trans [OF f(2) rate_limit_step_spec(2) [OF r s]]
    show ?thesis by (auto simp: only_metrics_def intro!: exI [of _ "Suc 0"])
  qed
  then show "as_concurrency_limit (wd_app w') = as_concurrency_limit (wd_app w)"
    "as_tracing_enabled (wd_app w') = as_tracing_enabled (wd_app w)"
    "\<exists>n. n \<le> 1 \<and> accounted V n w w' \<and> (as_plugin_engine (wd_app w) = None \<longrightarrow> n = 1)" by blast+
qed

text \<open>The world in which the inner check of a request runs, and its call of the rate limiter.\<close>

definition request_id_of :: "Times \<Rightarrow> ('r, 'k, 'e, 'l, 'lk) World \<Rightarrow> string" where
  "request_id_of T w = snd (generate_request_id (tm_nanos T) (wd_counter w))"

definition entered :: "Times \<Rightarrow> ('r, 'k, 'e, 'l, 'lk) World \<Rightarrow> ('r, 'k, 'e, 'l, 'lk) World option" where
  "entered T w = check_begin (w\<lparr>wd_counter := fst (generate_request_id (tm_nanos T) (wd_counter w))\<rparr>)"

definition request_meta :: "('k, 'e, 'l, 'c, 'i, 'lk) env \<Rightarrow> Times \<Rightarrow> Request \<Rightarrow> ('r, 'k, 'e, 'l, 'lk) World \<Rightarrow> Meta" where
  "request_meta V T req w = meta_of V (req_headers req) (req_method req) (req_path req) (request_id_of T w)"

definition limiter_call ::
  "('k, 'e, 'l, 'c, 'i, 'lk) env \<Rightarrow> Times \<Rightarrow> Request \<Rightarrow> ('r, 'k, 'e, 'l, 'lk) World \<Rightarrow> event option" where
  "limiter_call V T req w =
     (case entered T w of
        None \<Rightarrow> None
      | Some w1 \<Rightarrow>
          (case pre_check V T (req_headers req) (request_meta V T req w) w1 of
             Inl _ \<Rightarrow> None
           | Inr (w2, route, pcont, hs, sub) \<Rightarrow>
               Some (tm_rate T, bucket_key_of V (config_of w) route (req_headers req) hs,
                 rl_bucket_capacity (rc_rate_limit route), rl_refill_rate_per_sec (rc_rate_limit route))))"

lemma entered_Some:
  assumes "entered T w = Some w1"
  shows "as_rate_limiter (wd_app w1) = as_rate_limiter (wd_app w)" "wd_redis w1 = wd_redis w" "config_of w1 = config_of w"
    "as_plugin_engine (wd_app w1) = as_plugin_engine (wd_app w)" "as_concurrency_limit (wd_app w) > 0"
    "as_concurrency_limit (wd_app w1) = as_concurrency_limit (wd_app w) - 1" "wd_out w1 = wd_out w"
    "metrics_of w1 = inc_inflight (metrics_of w)"
  using assms by (auto simp: entered_def check_begin_def upd_metrics_def split: if_splits)

lemma check_cases:
  "check V T req w = (case entered T w of
      None \<Rightarrow> (upd_metrics record_overload (w\<lparr>wd_counter := fst (generate_request_id (tm_nanos T) (wd_counter w))\<rparr>),
        overload_response V (request_id_of T w))
    | Some w1 \<Rightarrow>
        (case check_inner V T (req_headers req) (req_method req) (req_path req) (request_id_of T w) w1 of
           (w2, response) \<Rightarrow> (check_end w2, if as_tracing_enabled (wd_app w2)
             then inject_otel_context V (req_headers req) response else response)))"
  by (simp add: check_def entered_def request_id_of_def Let_def case_prod_beta split: option.splits)

lemma check_limiter:
  assumes "check V T req w = (w', resp)"
  shows "case limiter_call V T req w of
      None \<Rightarrow> as_rate_limiter (wd_app w') = as_rate_limiter (wd_app w) \<and> wd_redis w' = wd_redis w
    | Some (ck, key, cap, rate) \<Rightarrow> (\<exists>r. RateLimiter_check (ev_from_json V) (ev_invoke V) ck (as_rate_limiter (wd_app w)) (wd_redis w)
          key cap rate = (as_rate_limiter (wd_app w'), wd_redis w', r) \<and> (rsp_status resp = 200 \<longleftrightarrow> admits r))"
proof (cases "entered T w")
  case None
  then show ?thesis using assms by (auto simp: check_cases limiter_call_def upd_metrics_def)
next
  case (Some w1)
  let ?meta = "request_meta V T req w"
  obtain w2 response where inner: "check_inner V T (req_headers req) (req_method req) (req_path req) (request_id_of T w) w1 = (w2, response)"
    by fastforce
  then have out: "w' = check_end w2" "rsp_status resp = rsp_status response"
    using assms Some by (auto simp: check_cases inject_otel_context_def split: if_splits)
  then have lw: "as_rate_limiter (wd_app w') = as_rate_limiter (wd_app w2)" "wd_redis w' = wd_redis w2"
    by (simp_all add: check_end_def upd_metrics_def Let_def)
  show ?thesis
  proof (cases "pre_check V T (req_headers req) ?meta w1")
    case (Inl x)
    then have "pre_check V T (req_headers req) ?meta w1 = Inl (w2, response)"
      using inner by (simp add: check_inner_pre request_meta_def Let_def)
    from pre_check_Inl(1) [OF this] lw Inl Some entered_Some [OF Some] show ?thesis
      by (auto simp: limiter_call_def only_metrics_def)
  next
    case (Inr x)
    obtain w3 route pcont hs sub where x: "x = (w3, route, pcont, hs, sub)" by (cases x) auto
    have f: "only_metrics w1 w3" by (rule pre_check_Inr_frame [OF Inr [unfolded x]])
    have s: "rate_limit_step V T (config_of w) ?meta route (req_headers req) pcont hs sub w3 = (w2, response)"
      using inner Inr x entered_Some(3) [OF Some] by (simp add: check_inner_pre request_meta_def Let_def)
    have l: "as_rate_limiter (wd_app w3) = as_rate_limiter (wd_app w)" "wd_redis w3 = wd_redis w"
      using f entered_Some [OF Some] by (auto simp: only_metrics_def)
    obtain lm e r where r: "RateLimiter_check (ev_from_json V) (ev_invoke V) (tm_rate T) (as_rate_limiter (wd_app w3)) (wd_redis w3)
      (bucket_key_of V (config_of w) route (req_headers req) hs) (rl_bucket_capacity (rc_rate_limit route))
      (rl_refill_rate_per_sec (rc_rate_limit route)) = (lm, e, r)" by (rule prod_cases3)
    from rate_limit_step_spec(1) [OF r s] have "as_rate_limiter (wd_app w2) = lm" "wd_redis w2 = e"
      by (auto simp: only_metrics_def)
    with r rate_limit_step_spec(3) [OF r s] lw l out Some Inr x show ?thesis by (simp add: limiter_call_def)
  qed
qed

subsection \<open>Runs\<close>

fun serve_all ::
  "('k, 'e, 'l, 'c, 'i, 'lk) env \<Rightarrow> (Times \<times> Request) list \<Rightarrow> ('r, 'k, 'e, 'l, 'lk) World \<Rightarrow> (event option \<times> Response) list" where
  "serve_all V [] w = []"
| "serve_all V ((T, req) # qs) w =
     (case check V T req w of (w', resp) \<Rightarrow> (limiter_call V T req w, resp) # serve_all V qs w')"

definition calls_of :: "(event option \<times> Response) list \<Rightarrow> event list" where
  "calls_of out = List.map_filter fst out"

text \<open>Requests that were let through under the bucket key \<open>k\<close>.\<close>

definition let_through :: "string \<Rightarrow> (event option \<times> Response) list \<Rightarrow> nat" where
  "let_through k out = length (filter (\<lambda>(ev, resp). (case ev of Some c \<Rightarrow> ev_key c = k | None \<Rightarrow> False) \<and> rsp_status resp = 200) out)"

lemma let_through_run:
  "let_through k (serve_all V qs w) =
     admitted_for k (calls_of (serve_all V qs w))
       (check_run (ev_from_json V) (ev_invoke V) (calls_of (serve_all V qs w)) (as_rate_limiter (wd_app w)) (wd_redis w))"
proof (induction qs arbitrary: w)
  case Nil
  then show ?case by (simp add: let_through_def calls_of_def map_filter_simps)
next
  case (Cons q qs)
  obtain T req where q: "q = (T, req)" by (cases q)
  obtain w' resp where c: "check V T req w = (w', resp)" by fastforce
  show ?case
  proof (cases "limiter_call V T req w")
    case None
    with check_limiter [OF c] Cons.IH [of w'] c show ?thesis
      by (simp add: q let_through_def calls_of_def map_filter_simps)
  next
    case (Some ev)
    obtain ck key cap rate where ev: "ev = (ck, key, cap, rate)" by (cases ev)
    obtain r where r: "RateLimiter_check (ev_from_json V) (ev_invoke V) ck (as_rate_limiter (wd_app w)) (wd_redis w)
        key cap rate = (as_rate_limiter (wd_app w'), wd_redis w', r)" "rsp_status resp = 200 \<longleftrightarrow> admits r"
      using check_limiter [OF c] Some ev by auto
    with Some Cons.IH [of w'] c show ?thesis
      by (simp add: q ev let_through_def calls_of_def map_filter_simps admitted_for_Cons ev_key_def)
  qed
qed

subsection \<open>Requests in flight\<close>

text \<open>A request whose client goes away is dropped at an \<open>await\<close> of \<open>check_inner\<close>: the permit
  goes back with its guard, and the rest of \<open>check\<close> does not run.\<close>

definition check_cancelled :: "('r, 'k, 'e, 'l, 'lk) World \<Rightarrow> ('r, 'k, 'e, 'l, 'lk) World" where
  "check_cancelled w = w\<lparr>wd_app := (wd_app w)\<lparr>as_concurrency_limit := as_concurrency_limit (wd_app w) + 1\<rparr>\<rparr>"

text \<open>Interleavings of requests: \<open>k\<close> of them hold a permit, \<open>c\<close> were dropped so far.\<close>

inductive gw_reach ::
  "('k, 'e, 'l, 'c, 'i, 'lk) env \<Rightarrow> nat \<Rightarrow> nat \<Rightarrow> nat \<Rightarrow> ('r, 'k, 'e, 'l, 'lk) World \<Rightarrow> bool" for V permits where
  started: "as_concurrency_limit (wd_app w) = permits \<Longrightarrow> gauge inflight_requests (metrics_of w) = 0 \<Longrightarrow>
    gw_reach V permits 0 0 w"
| admitted: "gw_reach V permits k c w \<Longrightarrow> check_begin w = Some w' \<Longrightarrow> gw_reach V permits (Suc k) c w'"
| turned_away: "gw_reach V permits k c w \<Longrightarrow> check_begin w = None \<Longrightarrow> gw_reach V permits k c (upd_metrics record_overload w)"
| inner: "gw_reach V permits (Suc k) c w \<Longrightarrow> check_inner V T headers meth path rid w = (w', resp) \<Longrightarrow>
    gw_reach V permits (Suc k) c w'"
| finished: "gw_reach V permits (Suc k) c w \<Longrightarrow> gw_reach V permits k c (check_end w)"
| cancelled: "gw_reach V permits (Suc k) c w \<Longrightarrow> gw_reach V permits k (Suc c) (check_cancelled w)"

lemma gw_reach_permits:
  "gw_reach V permits k c w \<Longrightarrow>
     as_concurrency_limit (wd_app w) + k = permits \<and> gauge inflight_requests (metrics_of w) = int k + int c"
proof (induction rule: gw_reach.induct)
  case (inner k c w T headers meth path rid w' resp)
  from check_inner_frame [OF inner.hyps(2)] inner.IH show ?case by (auto simp: accounted_def)
qed (auto simp: check_begin_def check_end_def check_cancelled_def upd_metrics_def record_defs gauge_call Let_def
    split: if_splits)

subsection \<open>A concrete gateway\<close>

definition demo_env :: "(nat, unit, unit, unit, unit, unit) env" where
  "demo_env =
     \<lparr>ev_to_str_ok = \<lambda>_. True, ev_value_ok = \<lambda>_. True, ev_name_of = \<lambda>n. Some (to_ascii_lowercase n), ev_status_of = Some,
      ev_otel_fields = \<lambda>_. [], ev_serialize = \<lambda>_. Inr ''{}'', ev_jwt = sample_jwt_at, ev_refreshed = \<lambda>c. c,
      ev_from_json = read_json, ev_invoke = \<lambda>e _. (e, Elapsed), ev_lua = scripted [] (Inr ())\<rparr>"

definition demo_times :: "nat \<Rightarrow> Times" where
  "demo_times t = \<lparr>tm_nanos = 0, tm_ts = [], tm_log_ms = 0, tm_metric_ms = Fin 0, tm_now_secs = 0, tm_auth = 5, tm_unix = 0,
     tm_rate = sample_clocks 0 t, tm_plugins = no_time\<rparr>"

definition demo_world :: "unit RateLimiter \<Rightarrow> PluginEngine option \<Rightarrow> nat \<Rightarrow> (unit, nat, unit, unit, unit) World" where
  "demo_world lm engine permits =
     \<lparr>wd_app = \<lparr>as_config_state = \<lparr>cs_config = sample_config, cs_sha256 = [], cs_last_reload_unix = 0,
          cs_last_reload_result = Success, cs_last_reload_error = None\<rparr>,
        as_config_path = [], as_envoy_config_path = None,
        as_jwks_registry = \<lparr>jr_caches = [(''main'', sample_cache\<lparr>jc_keys := [sample_key]\<rparr>)]\<rparr>,
        as_rate_limiter = lm, as_metrics = \<lparr>mr_calls = []\<rparr>, as_concurrency_limit = permits,
        as_tracing_enabled = False, as_plugin_engine = engine, as_xds = None\<rparr>,
      wd_redis = (), wd_slot = Inl (Load ''sandbox'' ''no memory''), wd_out = [], wd_counter = 0\<rparr>"

text \<open>An engine that has a chain for the private route.\<close>

definition demo_engine :: PluginEngine where
  "demo_engine = sample_engine\<lparr>pe_runtime := (pe_runtime sample_engine)\<lparr>pr_chains := [''private-api'' \<mapsto> [sample_binding]]\<rparr>\<rparr>"

definition demo_headers :: HeaderMap where
  "demo_headers = [(''host'', ''api.example.com''), (''authorization'', ''Bearer tok'')]"

lemma demo_env_spec: "\<forall>now. jwt_spec (ev_jwt demo_env now) (\<lambda>_ _ _. True) now" "http_spec demo_env" "logs_all demo_env"
  using sample_jwt_at_spec by (simp_all add: demo_env_def http_spec_def logs_all_def)

lemma demo_host: "mt_host (meta_of demo_env demo_headers meth path rid) = ''api.example.com''"
  "mt_path (meta_of demo_env demo_headers meth path rid) = path" "mt_method (meta_of demo_env demo_headers meth path rid) = meth"
  by (simp_all add: meta_of_def header_str_def demo_headers_def demo_env_def)

lemma demo_route: "match_route (gc_routes (config_of (demo_world lm engine n))) ''api.example.com'' ''/public/private/x'' = Some sample_private_route"
  by (simp add: demo_world_def match_route_def sample_config_def sample_route_def sample_private_route_def starts_with_def)

lemma demo_methods: "list_ex (\<lambda>m. eq_ignore_ascii_case m ''GET'') (rc_methods sample_private_route)"
  by (simp add: sample_private_route_def sample_route_def eq_ignore_ascii_case_def)

lemma filter_eq_split:
  "filter P xs = pre @ x # post \<Longrightarrow> \<exists>as bs. xs = as @ x # bs \<and> filter P as = pre \<and> filter P bs = post"
proof (induction pre arbitrary: xs)
  case Nil
  then show ?case by (auto simp: filter_eq_Cons_iff filter_empty_conv)
next
  case (Cons y pre)
  then obtain us vs where "xs = us @ y # vs" "\<forall>u \<in> set us. \<not> P u" "P y" "filter P vs = pre @ x # post"
    by (auto simp: filter_eq_Cons_iff)
  moreover from Cons.IH [OF this(4)] obtain as bs where "vs = as @ x # bs" "filter P as = pre" "filter P bs = post" by blast
  ultimately have "xs = (us @ y # as) @ x # bs \<and> filter P (us @ y # as) = y # pre \<and> filter P bs = post" by simp
  then show ?case by blast
qed

lemma longest_match:
  assumes "match_route routes host path = Some r"
  shows "\<exists>pre post. routes = pre @ r # post \<and> eligible host path r
    \<and> (\<forall>y \<in> set pre. eligible host path y \<longrightarrow> length (rc_path_prefix y) \<le> length (rc_path_prefix r))
    \<and> (\<forall>y \<in> set post. eligible host path y \<longrightarrow> length (rc_path_prefix y) < length (rc_path_prefix r))"
proof -
  obtain pre post where f: "filter (eligible host path) routes = pre @ r # post"
    "\<forall>y \<in> set pre. length (rc_path_prefix y) \<le> length (rc_path_prefix r)"
    "\<forall>y \<in> set post. length (rc_path_prefix y) < length (rc_path_prefix r)"
    using max_by_key_Some [OF assms [unfolded match_route_filter]] by blast
  from filter_eq_split [OF f(1)] obtain as bs where ab: "routes = as @ r # bs" "filter (eligible host path) as = pre"
    "filter (eligible host path) bs = post" by blast
  have "r \<in> set (filter (eligible host path) routes)" unfolding f(1) by simp
  then have "eligible host path r" by simp
  with ab f(2,3) have "routes = as @ r # bs \<and> eligible host path r
    \<and> (\<forall>y \<in> set as. eligible host path y \<longrightarrow> length (rc_path_prefix y) \<le> length (rc_path_prefix r))
    \<and> (\<forall>y \<in> set bs. eligible host path y \<longrightarrow> length (rc_path_prefix y) < length (rc_path_prefix r))" by auto
  then show ?thesis by blast
qed

text \<open>What an authorised request has shown: a token that a key of the provider's cache, or of the
  cache after a refresh, verifies, with the issuer, audience, expiry and scopes the route asks for.\<close>

definition proven ::
  "('k, 'e, 'l, 'c, 'i, 'lk) env \<Rightarrow> (string \<Rightarrow> 'k \<Rightarrow> Algorithm \<Rightarrow> bool) \<Rightarrow> int \<Rightarrow> HeaderMap \<Rightarrow> RouteConfig
    \<Rightarrow> ('r, 'k, 'e, 'l, 'lk) World \<Rightarrow> ValidatedIdentity \<Rightarrow> bool" where
  "proven V verifies now headers route w ident \<longleftrightarrow>
     (\<exists>token p c k. extract_bearer V headers = Some (Valid token)
        \<and> p \<in> set (ac_providers (gc_auth (config_of w)))
        \<and> ap_name p = (case rc_auth_provider route of Some n \<Rightarrow> n | None \<Rightarrow> ''main'')
        \<and> registry_get (as_jwks_registry (wd_app w)) (ap_name p) = Some c
        \<and> k \<in> set (jc_keys c) \<union> set (jc_keys (ev_refreshed V c)) \<and> verifies token (jk_decoding_key k) RS256
        \<and> vi_iss ident = ap_issuer p \<and> ap_audience p \<in> set (vi_aud ident)
        \<and> now - uint (ap_clock_skew_seconds p) \<le> vi_exp_unix ident
        \<and> (\<forall>s. rc_required_scopes route = Some s \<longrightarrow> set s \<subseteq> set (vi_scopes ident)))"

text \<open>The bucket of a request, of the documented form \<open>prefix:route:dimension:value\<close>. The value is the
  address of the client or, by subject, the subject of the token that was shown. Without a
  token, and for a subject that is no header value, it is the \<open>x-auth-sub\<close> that the plugins
  put in \<open>hs\<close>. A subject that does not read back as text shares the bucket of everybody
  without one, \<open>anonymous\<close>.\<close>

definition own_bucket ::
  "('k, 'e, 'l, 'c, 'i, 'lk) env \<Rightarrow> GatewayConfig \<Rightarrow> RouteConfig \<Rightarrow> HeaderMap \<Rightarrow> HeaderMap \<Rightarrow> string option \<Rightarrow> string" where
  "own_bucket V cfg route headers hs subject =
     rls_redis_key_prefix (gc_rate_limits cfg) @ '':'' @ rc_name route @ '':'' @ rl_key_by (rc_rate_limit route) @ '':''
     @ (if rl_key_by (rc_rate_limit route) \<noteq> ''sub'' then client_ip V headers (gs_trust_forwarded_headers (gc_gateway cfg))
        else case filter (ev_value_ok V) (case subject of Some s \<Rightarrow> [s] | None \<Rightarrow> []) of
          s # _ \<Rightarrow> if ev_to_str_ok V s then s else ''anonymous''
        | [] \<Rightarrow> (case header_str V hs ''x-auth-sub'' of Some s \<Rightarrow> s | None \<Rightarrow> ''anonymous''))"

lemma bucket_key_own:
  assumes "apply_auth V T cfg route headers hs1 w1 = (w2, Inr (hs2, sub))"
  shows "bucket_key_of V cfg route headers hs2 = own_bucket V cfg route headers hs1 sub"
    "bucket_key_of V cfg route headers hs2 = own_bucket V cfg route headers hs2 sub"
proof -
  have "map_of hs2 ''x-auth-sub'' = (case filter (ev_value_ok V) (case sub of Some s \<Rightarrow> [s] | None \<Rightarrow> []) of
      s # _ \<Rightarrow> Some s | [] \<Rightarrow> map_of hs1 ''x-auth-sub'')"
  proof (cases "rc_auth_required route")
    case True
    from apply_auth_Inr [OF assms True] show ?thesis by (auto simp: map_of_insert_value)
  next
    case False
    with assms show ?thesis by (simp add: apply_auth_not_required)
  qed
  then show "bucket_key_of V cfg route headers hs2 = own_bucket V cfg route headers hs1 sub"
    "bucket_key_of V cfg route headers hs2 = own_bucket V cfg route headers hs2 sub"
    by (auto simp: bucket_key_of_def key_value_of_def build_key_def own_bucket_def header_str_def split: option.splits list.splits)
qed

lemma apply_auth_proven:
  assumes "jwt_spec (ev_jwt V (tm_unix T)) verifies (tm_unix T)" "only_metrics w w1"
    and "apply_auth V T (config_of w) route headers hs1 w1 = (w2, Inr (hs2, sub))" "rc_auth_required route"
  shows "\<exists>ident. proven V verifies (tm_unix T) headers route w ident \<and> sub = Some (vi_sub ident)
    \<and> hs2 = insert_value V ''x-auth-scopes'' (join_comma (vi_scopes ident))
        (insert_value V ''x-auth-iss'' (vi_iss ident) (insert_value V ''x-auth-sub'' (vi_sub ident) hs1))"
proof -
  let ?req = "case rc_required_scopes route of Some s \<Rightarrow> s | None \<Rightarrow> []"
  obtain token p c ident where a: "extract_bearer V headers = Some (Valid token)"
    "p \<in> set (ac_providers (gc_auth (config_of w)))" "ap_name p = (case rc_auth_provider route of Some n \<Rightarrow> n | None \<Rightarrow> ''main'')"
    "registry_get (as_jwks_registry (wd_app w1)) (ap_name p) = Some c"
    "validate_with_refresh (ev_jwt V (tm_unix T)) (tm_auth T) (ev_refreshed V) token p c ?req = Inr ident"
    "sub = Some (vi_sub ident)" "hs2 = insert_value V ''x-auth-scopes'' (join_comma (vi_scopes ident))
        (insert_value V ''x-auth-iss'' (vi_iss ident) (insert_value V ''x-auth-sub'' (vi_sub ident) hs1))"
    using apply_auth_Inr [OF assms(3,4)] by blast
  obtain c' where c': "c' \<in> {c, ev_refreshed V c}" "validate_token (ev_jwt V (tm_unix T)) token p (jc_keys c') ?req = Inr ident"
    using validate_with_refresh_Inr [OF a(5)] by blast
  obtain k where k: "k \<in> set (jc_keys c')" "verifies token (jk_decoding_key k) RS256" "vi_iss ident = ap_issuer p"
    "ap_audience p \<in> set (vi_aud ident)" "tm_unix T - uint (ap_clock_skew_seconds p) \<le> vi_exp_unix ident" "set ?req \<subseteq> set (vi_scopes ident)"
    using accepted_token [OF assms(1) c'(2)] by blast
  have r: "registry_get (as_jwks_registry (wd_app w)) (ap_name p) = Some c"
    using a(4) assms(2) by (auto simp: only_metrics_def)
  have s: "\<forall>s. rc_required_scopes route = Some s \<longrightarrow> set s \<subseteq> set (vi_scopes ident)" using k(6) by auto
  have "k \<in> set (jc_keys c) \<union> set (jc_keys (ev_refreshed V c))" using c'(1) k(1) by auto
  then have "proven V verifies (tm_unix T) headers route w ident"
    unfolding proven_def using a(1-3) r k(2-5) s by blast
  with a(6,7) show ?thesis by blast
qed

lemma x_auth_sub_kept:
  assumes "http_spec V" "\<forall>(n, v) \<in> set vs. \<not> reserved n \<and> to_ascii_lowercase n = n"
  shows "map_of (insert_value V ''x-request-id'' rid (insert_string_headers V (insert_rate_limit_headers V now d hs) vs)) ''x-auth-sub''
    = map_of hs ''x-auth-sub''"
proof -
  have "reserved ''x-auth-sub''" by code_simp
  with assms(2) have "''x-auth-sub'' \<notin> (\<lambda>(n, _). to_ascii_lowercase n) ` set vs" by fastforce
  then show ?thesis
    by (simp add: map_of_insert_value map_of_insert_string_headers [OF assms(1)] map_of_rate_limit_headers)
qed

lemma demo_bearer: "extract_bearer demo_env demo_headers = Some (Valid ''tok'')"
  by (simp add: extract_bearer_def header_str_def demo_env_def demo_headers_def strip_prefix_def)

lemma demo_identity:
  "validate_with_refresh (ev_jwt demo_env 0) 5 (ev_refreshed demo_env) ''tok'' sample_provider (sample_cache\<lparr>jc_keys := [sample_key]\<rparr>) [''read'']
     = Inr sample_identity"
proof -
  have "\<not> is_stale 5 (sample_cache\<lparr>jc_keys := [sample_key]\<rparr>)" using sample_cache_fresh by (simp add: is_stale_def)
  then show ?thesis using sample_accepted by (simp add: validate_with_refresh_def get_keys_def demo_env_def)
qed

lemma demo_auth:
  "\<exists>hs2. apply_auth demo_env (demo_times t) sample_config sample_private_route demo_headers hs (demo_world lm engine n)
     = (demo_world lm engine n, Inr (hs2, Some ''user-1''))"
  using demo_identity
  by (simp add: apply_auth_def demo_bearer sample_private_route_def sample_config_def demo_world_def registry_get_def
      sample_provider_def demo_times_def sample_identity_def Let_def)

lemma demo_passes:
  "rsp_status (snd (check_inner demo_env (demo_times 0) demo_headers ''GET'' ''/public/private/x'' ''r''
     (demo_world (sample_limiter False False True) None 1))) = 200"
proof -
  let ?w = "demo_world (sample_limiter False False True) None 1"
  let ?meta = "meta_of demo_env demo_headers ''GET'' ''/public/private/x'' ''r''"
  obtain pcont where p: "execute_access_plugins demo_env (demo_times 0) ?meta sample_private_route demo_headers [] ?w = (?w, Inr (pcont, []))"
    by (simp add: execute_access_plugins_def demo_world_def Let_def)
  obtain hs2 where a: "apply_auth demo_env (demo_times 0) sample_config sample_private_route demo_headers [] ?w = (?w, Inr (hs2, Some ''user-1''))"
    using demo_auth by blast
  have "config_of ?w = sample_config" by (simp add: demo_world_def)
  with p a have c: "check_inner demo_env (demo_times 0) demo_headers ''GET'' ''/public/private/x'' ''r'' ?w
      = rate_limit_step demo_env (demo_times 0) sample_config ?meta sample_private_route demo_headers pcont hs2 (Some ''user-1'') ?w"
    using demo_route [of "sample_limiter False False True" None 1]
    by (simp add: check_inner_pre pre_check_def demo_host demo_methods)
  show ?thesis
    unfolding c by (simp add: rate_limit_step_def run_limiter_def demo_world_def demo_times_def sample_limiter_def
        RateLimiter_check_def try_redis_def enter_degraded_def allow_response_def Let_def)
qed

definition demo_request :: Request where
  "demo_request = \<lparr>req_method = ''GET'', req_path = ''/public'', req_headers = demo_headers\<rparr>"

lemma demo_call:
  "limiter_call demo_env (demo_times t) demo_request (demo_world lm None 1)
     = Some (sample_clocks 0 t, ''rl:public-api:ip:0.0.0.0'', 100, Fin 10)"
proof -
  obtain w1 where w1: "entered (demo_times t) (demo_world lm None 1) = Some w1"
    by (simp add: entered_def check_begin_def demo_world_def)
  have c: "config_of w1 = sample_config" "config_of (demo_world lm None 1) = sample_config" "as_plugin_engine (wd_app w1) = None"
    using entered_Some(3,4) [OF w1] by (simp_all add: demo_world_def)
  have r: "match_route (gc_routes sample_config) ''api.example.com'' ''/public'' = Some sample_route"
    by (simp add: match_route_def sample_config_def sample_route_def sample_private_route_def starts_with_def)
  have m: "list_ex (\<lambda>m. eq_ignore_ascii_case m ''GET'') (rc_methods sample_route)" "\<not> rc_auth_required sample_route"
    by (simp_all add: sample_route_def eq_ignore_ascii_case_def)
  have k: "bucket_key_of demo_env sample_config sample_route demo_headers [] = ''rl:public-api:ip:0.0.0.0''"
    by (simp add: bucket_key_of_def build_key_def key_value_of_def client_ip_def header_str_def sample_config_def sample_route_def
        demo_headers_def)
  show ?thesis
    using w1 c k m
    by (simp add: limiter_call_def request_meta_def demo_request_def demo_host pre_check_def r execute_access_plugins_def
        apply_auth_not_required Let_def demo_times_def) (simp add: sample_route_def)
qed

lemma allowed_reaches_limiter:
  assumes "check_inner V T headers meth path rid w = (w', resp)" "rsp_status resp = 200"
    and "match_route (gc_routes (config_of w)) (mt_host (meta_of V headers meth path rid)) path = Some route"
    and "execute_access_plugins V T (meta_of V headers meth path rid) route headers [] w = (w1, Inr (pcont, hs1))"
  shows "\<exists>w2 hs2 sub. pre_check V T headers (meta_of V headers meth path rid) w = Inr (w2, route, pcont, hs2, sub)
    \<and> apply_auth V T (config_of w) route headers hs1 w1 = (w2, Inr (hs2, sub))
    \<and> rate_limit_step V T (config_of w) (meta_of V headers meth path rid) route headers pcont hs2 sub w2 = (w', resp)"
proof -
  let ?meta = "meta_of V headers meth path rid"
  have m: "mt_path ?meta = path" "mt_method ?meta = meth" by (simp_all add: meta_of_def)
  have meth: "list_ex (\<lambda>m. eq_ignore_ascii_case m meth) (rc_methods route)"
    using assms(1-3) m by (auto simp: check_inner_pre pre_check_def method_denied_def early_deny_def deny_response_def Let_def split: if_splits)
  obtain w2 r where a: "apply_auth V T (config_of w) route headers hs1 w1 = (w2, r)" by fastforce
  obtain hs2 sub where r: "r = Inr (hs2, sub)"
  proof (cases r)
    case (Inl deny)
    then have "rsp_status resp = dn_status deny"
      using assms(1,3,4) m meth a by (auto simp: check_inner_pre pre_check_def early_deny_def deny_response_def Let_def)
    with apply_auth_deny_status [OF a [unfolded Inl]] assms(2) show ?thesis by auto
  next
    case (Inr x)
    then show ?thesis using that by (cases x) simp
  qed
  have p: "pre_check V T headers ?meta w = Inr (w2, route, pcont, hs2, sub)"
    using assms(3,4) m meth a r by (simp add: pre_check_def)
  then have "rate_limit_step V T (config_of w) ?meta route headers pcont hs2 sub w2 = (w', resp)"
    using assms(1) by (simp add: check_inner_pre Let_def)
  with p a r show ?thesis by blast
qed

subsection \<open>Properties\<close>

text \<open>C23. Route matching: no route is found exactly if none has the host (or \<open>*\<close>) and a prefix of
  the path; otherwise the route found has the longest such prefix, and of several with the
  same length it is the last of the configuration.\<close>

theorem match_route_longest_prefix:
  "(case match_route routes host path of
      None \<Rightarrow> list_all (\<lambda>r. \<not> eligible host path r) routes
    | Some r \<Rightarrow> \<exists>pre post. routes = pre @ r # post \<and> eligible host path r
        \<and> list_all (\<lambda>y. eligible host path y \<longrightarrow> length (rc_path_prefix y) \<le> length (rc_path_prefix r)) pre
        \<and> list_all (\<lambda>y. eligible host path y \<longrightarrow> length (rc_path_prefix y) < length (rc_path_prefix r)) post)"
proof (cases "match_route routes host path")
  case None
  then show ?thesis by (auto simp: match_route_filter max_by_key_None filter_empty_conv list_all_iff)
next
  case (Some r)
  from longest_match [OF this] Some show ?thesis by (auto simp: list_all_iff)
qed

theorem match_route_longest_prefix_witness:
  "\<exists>pre post. [sample_route, sample_private_route] = pre @ sample_private_route # post
    \<and> eligible ''api.example.com'' ''/public/private/x'' sample_private_route"
  using match_route_longest_prefix [where routes = "[sample_route, sample_private_route]" and host = "''api.example.com''"
      and path = "''/public/private/x''"]
    demo_route [of "sample_limiter True False True" None 0]
  by (auto simp: demo_world_def sample_config_def)



text \<open>C39. A failure of the plugin engine opens the gateway: when the engine itself fails (its Lua
  machine cannot be created or reset), the answer is 200, also on a route that requires
  authentication and whatever token the request has; the rate limiter is not asked, and the
  request is neither counted nor logged.\<close>

theorem plugin_engine_failure_allows:
  assumes "match_route (gc_routes (config_of w)) (mt_host (meta_of V headers meth path rid)) path = Some route"
    and "\<exists>m \<in> set (rc_methods route). eq_ignore_ascii_case m meth"
    and "engine_failed V T (meta_of V headers meth path rid) route headers w"
    and "check_inner V T headers meth path rid w = (w', resp)"
  shows "rsp_status resp = 200 \<and> as_rate_limiter (wd_app w') = as_rate_limiter (wd_app w) \<and> wd_redis w' = wd_redis w
    \<and> wd_out w' = wd_out w \<and> requests_counted w' = requests_counted w"
proof -
  let ?meta = "meta_of V headers meth path rid"
  have m: "mt_path ?meta = path" "mt_method ?meta = meth" by (simp_all add: meta_of_def)
  obtain engine err where e: "as_plugin_engine (wd_app w) = Some engine"
    "snd (execute_access (ev_lua V) (tm_plugins T) (plugin_request V route ?meta headers) engine (wd_slot w)) = Inl err"
    using assms(3) by (auto simp: engine_failed_def)
  then obtain slot where "execute_access (ev_lua V) (tm_plugins T) (plugin_request V route ?meta headers) engine (wd_slot w) = (slot, Inl err)"
    by (metis prod.collapse)
  with e(1) have "execute_access_plugins V T ?meta route headers [] w =
      (upd_metrics (record_plugin_error ''engine'' (rc_name route) (PluginErrorType_as_str Runtime)) (w\<lparr>wd_slot := slot\<rparr>),
       Inl \<lparr>rsp_status = 200, rsp_headers = with_content_type ''application/json'' [],
            rsp_body = JsonBody (JObject [(''error'', JString ''plugin_engine_error'')])\<rparr>)"
    by (simp add: execute_access_plugins_def Let_def)
  moreover have "list_ex (\<lambda>m. eq_ignore_ascii_case m meth) (rc_methods route)" using assms(2) by (auto simp: list_ex_iff)
  ultimately show ?thesis
    using assms(1,4) m by (auto simp: check_inner_pre pre_check_def Let_def meter)
qed

theorem plugin_engine_failure_allows_witness:
  "rc_auth_required sample_private_route
    \<and> rsp_status (snd (check_inner demo_env (demo_times 0) [(''host'', ''api.example.com'')] ''GET'' ''/public/private/x'' ''r''
        (demo_world (sample_limiter False False False) (Some demo_engine) 1))) = 200"
proof -
  let ?h = "[(''host'', ''api.example.com'')]"
  let ?w = "demo_world (sample_limiter False False False) (Some demo_engine) 1"
  let ?meta = "meta_of demo_env ?h ''GET'' ''/public/private/x'' ''r''"
  have h: "mt_host ?meta = ''api.example.com''" by (simp add: meta_of_def header_str_def demo_env_def)
  have f: "engine_failed demo_env (demo_times 0) ?meta sample_private_route ?h ?w"
    by (simp add: engine_failed_def demo_world_def demo_engine_def execute_access_def with_thread_local_vm_def
        plugin_request_def sample_private_route_def)
  have m: "\<exists>m \<in> set (rc_methods sample_private_route). eq_ignore_ascii_case m ''GET''"
    using demo_methods by (simp add: list_ex_iff)
  from plugin_engine_failure_allows [OF _ m f prod.collapse [symmetric]] show ?thesis
    by (simp add: h demo_route) (simp add: sample_private_route_def)
qed

text \<open>C8. Accounting: without plugins, a request that gets a permit is counted once and logged
  once; one that gets none is answered 503 and counted once as an overload, and is neither
  counted as a request nor logged. Either way the permits and the gauge of requests in flight
  are as it found them, and no call on the metrics has the wrong labels.\<close>

theorem check_accounting:
  assumes "check V T req w = (w', resp)" "as_plugin_engine (wd_app w) = None" "logs_all V" "well_labelled (metrics_of w)"
  shows "(if as_concurrency_limit (wd_app w) > 0
      then requests_counted w' = Suc (requests_counted w) \<and> length (wd_out w') = Suc (length (wd_out w))
        \<and> count_inc overload_total (metrics_of w') = count_inc overload_total (metrics_of w)
      else rsp_status resp = 503 \<and> requests_counted w' = requests_counted w \<and> wd_out w' = wd_out w
        \<and> count_inc overload_total (metrics_of w') = Suc (count_inc overload_total (metrics_of w)))
    \<and> as_concurrency_limit (wd_app w') = as_concurrency_limit (wd_app w)
    \<and> gauge inflight_requests (metrics_of w') = gauge inflight_requests (metrics_of w)
    \<and> well_labelled (metrics_of w')"
proof (cases "entered T w")
  case None
  then have "as_concurrency_limit (wd_app w) = 0" by (auto simp: entered_def check_begin_def split: if_splits)
  with None assms show ?thesis
    by (auto simp: check_cases overload_response_def meter desc_def)
next
  case (Some w1)
  obtain w2 response where inner: "check_inner V T (req_headers req) (req_method req) (req_path req) (request_id_of T w) w1 = (w2, response)"
    by fastforce
  then have "w' = check_end w2" using assms(1) Some by (auto simp: check_cases)
  moreover have "accounted V (Suc 0) w1 w2"
    using check_inner_frame(3) [OF inner] entered_Some(4) [OF Some] assms(2) by auto
  ultimately show ?thesis
    using entered_Some [OF Some] check_inner_frame(1) [OF inner] assms(3,4)
    by (auto simp: meter check_end_def desc_def Let_def)
qed

theorem check_accounting_witness:
  "requests_counted (fst (check demo_env (demo_times 0) \<lparr>req_method = ''GET'', req_path = ''/public'', req_headers = demo_headers\<rparr>
     (demo_world (sample_limiter False False True) None 1))) = 1
   \<and> count_inc overload_total (metrics_of (fst (check demo_env (demo_times 0)
       \<lparr>req_method = ''GET'', req_path = ''/public'', req_headers = demo_headers\<rparr> (demo_world (sample_limiter False False True) None 0)))) = 1"
proof -
  let ?w = "demo_world (sample_limiter False False True) None 1"
  let ?z = "demo_world (sample_limiter False False True) None 0"
  let ?r = "\<lparr>req_method = ''GET'', req_path = ''/public'', req_headers = demo_headers\<rparr>"
  have "as_plugin_engine (wd_app ?w) = None" "well_labelled (metrics_of ?w)" "as_concurrency_limit (wd_app ?w) = 1" "requests_counted ?w = 0"
    by (simp_all add: demo_world_def well_labelled_def requests_counted_def count_inc_def)
  moreover have "as_plugin_engine (wd_app ?z) = None" "well_labelled (metrics_of ?z)" "as_concurrency_limit (wd_app ?z) = 0"
    "count_inc overload_total (metrics_of ?z) = 0"
    by (simp_all add: demo_world_def well_labelled_def count_inc_def)
  ultimately show ?thesis
    using check_accounting [of demo_env "demo_times 0" ?r ?w, OF prod.collapse [symmetric] _ demo_env_spec(3)]
      check_accounting [of demo_env "demo_times 0" ?r ?z, OF prod.collapse [symmetric] _ demo_env_spec(3)]
    by (intro conjI) simp_all
qed

text \<open>C7. Overload protection: over every interleaving of requests, the free permits and the
  requests that hold one add up to the configured number, so that many requests at most are
  in flight, and one more is turned away exactly then. The gauge counts the requests in
  flight and, on top, every request whose client went away before the answer.\<close>

theorem concurrency_bounded:
  assumes "gw_reach V permits k c w"
  shows "k \<le> permits \<and> as_concurrency_limit (wd_app w) = permits - k \<and> (check_begin w = None \<longleftrightarrow> k = permits)
    \<and> gauge inflight_requests (metrics_of w) = int k + int c"
  using gw_reach_permits [OF assms] by (auto simp: check_begin_def)

theorem concurrency_bounded_witness:
  "\<exists>w :: (unit, nat, unit, unit, unit) World. gw_reach demo_env 1 0 1 w \<and> check_begin w \<noteq> None
    \<and> gauge inflight_requests (metrics_of w) = 1"
proof -
  let ?w = "demo_world (sample_limiter False False True) None 1"
  have s: "gw_reach demo_env 1 0 0 ?w" by (rule started) (simp_all add: demo_world_def gauge_def)
  obtain w1 where "check_begin ?w = Some w1" by (simp add: check_begin_def demo_world_def)
  from gw_reach.cancelled [OF gw_reach.admitted [OF s this]] have c: "gw_reach demo_env 1 0 1 (check_cancelled w1)" by simp
  from concurrency_bounded [OF this] c show ?thesis by auto
qed

text \<open>C2. The bound of survivability mode holds for the gateway as a whole: with Redis
  unreachable, of any requests served one after the other, with whatever plugins, tokens and
  routes, those let through under one bucket key \<open>k\<close> are at most
  \<open>fallback_capacity + rate * time\<close>, up to the rounding of the bucket.\<close>

theorem gateway_degraded_admission_bound:
  assumes "out = serve_all V qs w" "lm = as_rate_limiter (wd_app w)"
    and "\<not> rl_conn lm" "rl_fallback lm k = None"
    and "rls_survivability_mode (rl_config lm) = \<lparr>sm_enabled = True, sm_fallback_capacity = cap,
      sm_fallback_refill_rate_per_sec = Fin r\<rparr>"
    and "unat cap < 2 ^ 53" "0 \<le> r" "r \<le> 2 ^ 64"
    and "events_for k (calls_of out) = ev0 # rest" "t0 = ck_new (fst ev0)"
    and "sorted (t0 # map (\<lambda>ev. ck_refill (fst ev)) (events_for k (calls_of out)) @ [T])" "T < 2 ^ 64 * 10 ^ 9"
  shows "of_nat (let_through k out)
    \<le> of_nat (unat cap) + r * (1 + 5 * u_rnd) / 10 ^ 9 * (of_nat T - of_nat t0)
      + of_nat (length (events_for k (calls_of out))) * ((2 * of_nat (unat cap) + 1) * u_rnd)"
  using degraded_bound [OF assms(3-12)] unfolding assms(1,2) let_through_run .

theorem gateway_degraded_admission_bound_witness:
  "of_nat (let_through ''rl:public-api:ip:0.0.0.0'' (serve_all demo_env [(demo_times 5, demo_request)]
      (demo_world (sample_limiter False True False) None 1)))
    \<le> of_nat (unat (2 :: u64)) + 1 * (1 + 5 * u_rnd) / 10 ^ 9 * (of_nat 8 - of_nat 5)
      + of_nat (length (events_for ''rl:public-api:ip:0.0.0.0'' [(sample_clocks 0 5, ''rl:public-api:ip:0.0.0.0'', 100 :: u64, Fin 10)]))
        * ((2 * of_nat (unat (2 :: u64)) + 1) * u_rnd)"
proof -
  let ?out = "serve_all demo_env [(demo_times 5, demo_request)] (demo_world (sample_limiter False True False) None 1)"
  have c: "calls_of ?out = [(sample_clocks 0 5, ''rl:public-api:ip:0.0.0.0'', 100, Fin 10)]"
    using demo_call by (simp add: calls_of_def map_filter_simps split: prod.splits)
  from gateway_degraded_admission_bound [OF refl refl, of "demo_world (sample_limiter False True False) None 1" "''rl:public-api:ip:0.0.0.0''"
      2 1 demo_env "[(demo_times 5, demo_request)]" "(sample_clocks 0 5, ''rl:public-api:ip:0.0.0.0'', 100, Fin 10)" "[]" 5 8]
  show ?thesis unfolding c by (simp add: demo_world_def sample_limiter_def sample_clocks_def ev_key_def)
qed

text \<open>C24. Metrics are used as they were declared: whatever the plugins and the outcome of a request,
  every call it makes on a metric is of the kind and has the number of labels that the metric
  was registered with, so that no call panics.\<close>

theorem metrics_well_typed:
  assumes "check V T req w = (w', resp)" "well_labelled (metrics_of w)"
  shows "list_all call_ok (mr_calls (metrics_of w'))"
proof (cases "entered T w")
  case None
  with assms have "well_labelled (metrics_of w')" by (auto simp: check_cases meter desc_def)
  then show ?thesis by (simp add: well_labelled_def)
next
  case (Some w1)
  obtain w2 response where inner: "check_inner V T (req_headers req) (req_method req) (req_path req) (request_id_of T w) w1 = (w2, response)"
    by fastforce
  then have e: "w' = check_end w2" using assms(1) Some by (auto simp: check_cases)
  have "well_labelled (metrics_of w1)" using entered_Some(8) [OF Some] assms(2) by (simp add: record_defs desc_def)
  with check_inner_frame(3) [OF inner] have "well_labelled (metrics_of w2)" by (auto simp: accounted_def)
  then have "well_labelled (metrics_of w')" unfolding e by (simp add: check_end_def upd_metrics_def record_defs desc_def Let_def)
  then show ?thesis by (simp add: well_labelled_def)
qed

theorem metrics_well_typed_witness:
  "list_all call_ok (mr_calls (metrics_of (fst (check demo_env (demo_times 0) demo_request (demo_world (sample_limiter False False True) None 1)))))"
proof -
  have "well_labelled (metrics_of (demo_world (sample_limiter False False True) None 1))"
    by (simp add: demo_world_def well_labelled_def)
  from metrics_well_typed [OF prod.collapse [symmetric] this] show ?thesis .
qed

end
