(* ===== verification/Admin.thy ===== *)
theory Admin
  imports App_State Envoy_Gen
begin

text \<open>
  The admin API (\<open>controlplane/src/admin/handlers.rs\<close>, \<open>responses.rs\<close>, \<open>mod.rs\<close>).
  A handler changes the \<open>AppState\<close> and the files on disk; the third-party functions and the
  file system are the parameter \<open>A\<close>. A reload is composed of the steps between its
  \<open>await\<close>s, because other requests, and other reloads, run between them.
\<close>

subsection \<open>Responses\<close>

record HealthResponse =
  hr_ok :: bool

record ReadyResponse =
  ry_ok :: bool
  ry_config_loaded :: bool
  ry_redis_ok :: bool
  ry_jwks_ok :: bool
  ry_last_config_reload_unix :: int

record ConfigStatusResponse =
  cr_active_config_version :: u32
  cr_active_config_sha256 :: string
  cr_last_reload_result :: string
  cr_last_reload_error :: "string option"
  cr_last_reload_unix :: int

record ReloadSuccessResponse =
  sr_ok :: bool
  sr_message :: string
  sr_previous_sha256 :: string
  sr_new_sha256 :: string
  sr_reload_timestamp :: int

record ReloadErrorResponse =
  er_ok :: bool
  er_message :: string
  er_error :: string
  er_reload_timestamp :: int

record XdsStatusResponse =
  xr_enabled :: bool
  xr_connected_envoys :: u64
  xr_peers :: "EnvoyConnectionStatus list"

datatype AdminBody =
  HealthBody HealthResponse
| ReadyBody ReadyResponse
| StatusBody ConfigStatusResponse
| SuccessBody ReloadSuccessResponse
| ErrorBody ReloadErrorResponse
| XdsBody XdsStatusResponse
| MetricsText string
| EmptyBody

type_synonym AdminResponse = "u16 \<times> AdminBody"

subsection \<open>The environment\<close>

record ('t, 's) admin_env =
  fs_read :: "string \<Rightarrow> (string, string) result"
  fs_write :: "string \<Rightarrow> string \<Rightarrow> (string, unit) result"
  yaml_from_str :: "string \<Rightarrow> (string, GatewayConfig) result"
  url_ok :: "string \<Rightarrow> bool"
  yaml_to_value :: "yaml \<Rightarrow> (string, yaml) result"
  yaml_to_string :: "yaml \<Rightarrow> (string, string) result"
  sha256 :: "string \<Rightarrow> string"
  plugins_env :: "('t, 's) plugin_env"
  xds_encoder :: encoder

record ('c, 'k) AdminWorld =
  aw_app :: "('c, 'k) AppState"
  aw_files :: "string \<rightharpoonup> string"

fun ResourceError_to_string :: "ResourceError \<Rightarrow> string" where
  "ResourceError_to_string (Xds.InvalidEndpoint e) = ''invalid endpoint format '' @ quoted e"
| "ResourceError_to_string (Encode e) = ''failed to encode xDS resource: '' @ e"

subsection \<open>Probes and status\<close>

definition healthz :: AdminResponse where
  "healthz = (200, HealthBody \<lparr>hr_ok = True\<rparr>)"

definition readyz ::
  "('e \<Rightarrow> 'e \<times> bool) \<Rightarrow> ('e \<Rightarrow> 'c \<Rightarrow> 'e \<times> bool) \<Rightarrow> nat \<Rightarrow> ('c, 'k) AppState \<Rightarrow> 'e
    \<Rightarrow> ('c, 'k) AppState \<times> 'e \<times> AdminResponse" where
  "readyz ping_conn connect now st e =
     (let (lm, e', redis_ok) = ping ping_conn connect (as_rate_limiter st) e;
          jwks_ok = all_healthy now (as_jwks_registry st);
          ok = (redis_ok \<and> jwks_ok)
      in (st\<lparr>as_rate_limiter := lm\<rparr>, e',
          (if ok then 200 else 503,
           ReadyBody \<lparr>ry_ok = ok, ry_config_loaded = True, ry_redis_ok = redis_ok, ry_jwks_ok = jwks_ok,
             ry_last_config_reload_unix = cs_last_reload_unix (as_config_state st)\<rparr>)))"

definition config_status :: "('c, 'k) AppState \<Rightarrow> AdminResponse" where
  "config_status st =
     (let cs = as_config_state st
      in (200, StatusBody
        \<lparr>cr_active_config_version = gc_version (cs_config cs), cr_active_config_sha256 = cs_sha256 cs,
         cr_last_reload_result = ReloadResult_as_str (cs_last_reload_result cs),
         cr_last_reload_error = cs_last_reload_error cs, cr_last_reload_unix = cs_last_reload_unix cs\<rparr>))"

definition metrics_handler ::
  "(MetricsRegistry \<Rightarrow> (string, string) result) \<Rightarrow> ('c, 'k) AppState \<Rightarrow> AdminResponse" where
  "metrics_handler gather st =
     (case metrics_encode gather (as_metrics st) of
        Inr body \<Rightarrow> (200, MetricsText body)
      | Inl _ \<Rightarrow> (500, EmptyBody))"

definition xds_status :: "('c, 'k) AppState \<Rightarrow> AdminResponse" where
  "xds_status st =
     (200, XdsBody (case as_xds st of
        Some cp \<Rightarrow> \<lparr>xr_enabled = True, xr_connected_envoys = connected_envoys cp, xr_peers = statuses cp\<rparr>
      | None \<Rightarrow> \<lparr>xr_enabled = False, xr_connected_envoys = 0, xr_peers = []\<rparr>))"

subsection \<open>Reload\<close>

definition reload_validation_error ::
  "int \<Rightarrow> string \<Rightarrow> ('c, 'k) AppState \<Rightarrow> ('c, 'k) AppState \<times> AdminResponse" where
  "reload_validation_error now error_msg st =
     (st\<lparr>as_config_state := (as_config_state st)\<lparr>cs_last_reload_unix := now,
           cs_last_reload_result := ValidationError, cs_last_reload_error := Some error_msg\<rparr>,
         as_metrics := record_config_reload ''validation_error'' (as_metrics st)\<rparr>,
      (400, ErrorBody \<lparr>er_ok = False, er_message = ''config validation failed'', er_error = error_msg,
         er_reload_timestamp = now\<rparr>))"

definition reload_plugins ::
  "('t, 's) admin_env \<Rightarrow> GatewayConfig \<Rightarrow> ('c, 'k) AppState \<Rightarrow> ('c, 'k) AppState \<times> (PluginError, unit) result" where
  "reload_plugins A new_config st =
     (case as_plugin_engine st of
        None \<Rightarrow> (st, Inr ())
      | Some engine \<Rightarrow>
          (case reload_from_config (plugins_env A) new_config engine of
             (engine', r) \<Rightarrow> (st\<lparr>as_plugin_engine := Some engine'\<rparr>, r)))"

text \<open>The control plane and the state share one metrics registry.\<close>

definition reload_xds ::
  "('t, 's) admin_env \<Rightarrow> f64 \<Rightarrow> GatewayConfig \<Rightarrow> ('c, 'k) AppState \<Rightarrow> ('c, 'k) AppState \<times> (ResourceError, unit) result" where
  "reload_xds A elapsed new_config st =
     (case as_xds st of
        None \<Rightarrow> (st, Inr ())
      | Some cp \<Rightarrow>
          (case rebuild_from_config (xds_encoder A) elapsed new_config (cp\<lparr>xp_metrics := as_metrics st\<rparr>) of
             (cp', r) \<Rightarrow> (st\<lparr>as_xds := Some cp', as_metrics := xp_metrics cp'\<rparr>, r)))"

text \<open>From the write lock to the end; \<open>None\<close> is a panic in \<open>generate_envoy_config\<close>.\<close>

definition reload_commit ::
  "('t, 's) admin_env \<Rightarrow> string \<Rightarrow> int \<Rightarrow> GatewayConfig \<Rightarrow> ('c, 'k) AdminWorld
    \<Rightarrow> (('c, 'k) AdminWorld \<times> AdminResponse) option" where
  "reload_commit A raw now new_config w =
     (let st = aw_app w;
          new_sha = sha256 A raw;
          previous_sha = cs_sha256 (as_config_state st);
          st' = st\<lparr>as_config_state := \<lparr>cs_config = new_config, cs_sha256 = new_sha, cs_last_reload_unix = now,
                  cs_last_reload_result = Success, cs_last_reload_error = None\<rparr>,
                as_metrics := record_config_reload ''success'' (as_metrics st)\<rparr>;
          response = (200, SuccessBody \<lparr>sr_ok = True, sr_message = ''config reloaded successfully'',
            sr_previous_sha256 = previous_sha, sr_new_sha256 = new_sha, sr_reload_timestamp = now\<rparr>)
      in case as_envoy_config_path st of
           None \<Rightarrow> Some (w\<lparr>aw_app := st'\<rparr>, response)
         | Some envoy_path \<Rightarrow>
             map_option (\<lambda>generated.
               (case generated of
                  Inr envoy_yaml \<Rightarrow>
                    (case fs_write A envoy_path envoy_yaml of
                       Inr _ \<Rightarrow> w\<lparr>aw_app := st', aw_files := (aw_files w)(envoy_path \<mapsto> envoy_yaml)\<rparr>
                     | Inl _ \<Rightarrow> w\<lparr>aw_app := st'\<rparr>)
                | Inl _ \<Rightarrow> w\<lparr>aw_app := st'\<rparr>, response))
               (generate_envoy_config (yaml_to_value A) (yaml_to_string A) new_config))"

definition apply_config_reload ::
  "('t, 's) admin_env \<Rightarrow> f64 \<Rightarrow> string \<Rightarrow> int \<Rightarrow> GatewayConfig \<Rightarrow> ('c, 'k) AdminWorld
    \<Rightarrow> (('c, 'k) AdminWorld \<times> AdminResponse) option" where
  "apply_config_reload A elapsed raw now new_config w =
     (case reload_plugins A new_config (aw_app w) of
        (st1, Inl error) \<Rightarrow>
          Some (map_prod (\<lambda>st. w\<lparr>aw_app := st\<rparr>) (\<lambda>r. r) (reload_validation_error now (PluginError_to_string error) st1))
      | (st1, Inr _) \<Rightarrow>
          (case reload_xds A elapsed new_config st1 of
             (st2, Inl error) \<Rightarrow>
               Some (map_prod (\<lambda>st. w\<lparr>aw_app := st\<rparr>) (\<lambda>r. r) (reload_validation_error now (ResourceError_to_string error) st2))
           | (st2, Inr _) \<Rightarrow> reload_commit A raw now new_config (w\<lparr>aw_app := st2\<rparr>)))"

definition config_reload ::
  "('t, 's) admin_env \<Rightarrow> f64 \<Rightarrow> int \<Rightarrow> ('c, 'k) AdminWorld \<Rightarrow> (('c, 'k) AdminWorld \<times> AdminResponse) option" where
  "config_reload A elapsed now w =
     (let path = as_config_path (aw_app w);
          fail = (\<lambda>msg. Some (map_prod (\<lambda>st. w\<lparr>aw_app := st\<rparr>) (\<lambda>r. r) (reload_validation_error now msg (aw_app w))))
      in case fs_read A path of
           Inl error \<Rightarrow> fail (''failed to read '' @ path @ '': '' @ error)
         | Inr raw \<Rightarrow>
             (case load_config_from_str (yaml_from_str A) (url_ok A) (from_utf8_lossy raw) of
                Inr new_config \<Rightarrow> apply_config_reload A elapsed raw now new_config w
              | Inl errors \<Rightarrow> fail (ConfigErrors_to_string errors)))"

subsection \<open>Routing\<close>

datatype endpoint = Healthz | Readyz | ConfigStatus | ConfigReload | XdsStatus | Metrics

text \<open>\<open>Router\<close>: a known path with another method is 405, any other path 404; \<open>get\<close> also answers
  \<open>HEAD\<close>.\<close>

definition admin_routes :: "(string \<times> string list \<times> endpoint) list" where
  "admin_routes =
     [(''/healthz'', [''GET'', ''HEAD''], Healthz), (''/readyz'', [''GET'', ''HEAD''], Readyz),
      (''/config/status'', [''GET'', ''HEAD''], ConfigStatus), (''/config/reload'', [''POST''], ConfigReload),
      (''/xds/status'', [''GET'', ''HEAD''], XdsStatus), (''/metrics'', [''GET'', ''HEAD''], Metrics)]"

definition admin_router :: "string \<Rightarrow> string \<Rightarrow> (u16, endpoint) result" where
  "admin_router meth path =
     (case map_of admin_routes path of
        None \<Rightarrow> Inl 404
      | Some (methods, ep) \<Rightarrow> if meth \<in> set methods then Inr ep else Inl 405)"

end
