(* ===== verification/Admin_Correct.thy ===== *)
theory Admin_Correct
  imports Admin Gateway_Correct Xds_Correct Config_Correct
begin

text \<open>
  Properties of reloading the configuration: what a reload changes, that a failed one changes
  nothing that serves requests, that a valid configuration is taken, and that the
  configuration in force is a valid one over every interleaving of requests and reload steps.
\<close>

subsection \<open>The steps\<close>

lemma reload_plugins_cases:
  assumes "reload_plugins A cfg st = (st', r)"
  shows "(as_plugin_engine st = None \<and> st' = st \<and> r = Inr ())
    \<or> (\<exists>engine engine'. as_plugin_engine st = Some engine \<and> st' = st\<lparr>as_plugin_engine := Some engine'\<rparr>
        \<and> (case r of Inl e \<Rightarrow> pe_runtime engine' = pe_runtime engine \<and> build_runtime (plugins_env A) cfg (pe_next_generation engine) = Inl e
           | Inr _ \<Rightarrow> build_runtime (plugins_env A) cfg (pe_next_generation engine) = Inr (pe_runtime engine')))"
  using assms
  by (auto simp: reload_plugins_def reload_from_config_def next_generation_def replace_runtime_def Let_def
      split: option.splits prod.splits sum.splits)

lemma reload_xds_cases:
  assumes "reload_xds A el cfg st = (st', r)"
  shows "(as_xds st = None \<and> st' = st \<and> r = Inr ())
    \<or> (\<exists>cp cp' m. as_xds st = Some cp \<and> st' = st\<lparr>as_xds := Some cp', as_metrics := m\<rparr>
        \<and> (case r of Inl e \<Rightarrow> XdsSnapshot_build (xds_encoder A) cfg (vc_next (xp_versions cp) + 1) = Inl e
           | Inr _ \<Rightarrow> XdsSnapshot_build (xds_encoder A) cfg (vc_next (xp_versions cp) + 1) = Inr (xp_snapshot cp')))"
proof (cases "as_xds st")
  case (Some cp)
  obtain cp' r' where c: "rebuild_from_config (xds_encoder A) el cfg (cp\<lparr>xp_metrics := as_metrics st\<rparr>) = (cp', r')" by fastforce
  have "(case r' of Inl e \<Rightarrow> XdsSnapshot_build (xds_encoder A) cfg (vc_next (xp_versions cp) + 1) = Inl e
     | Inr _ \<Rightarrow> XdsSnapshot_build (xds_encoder A) cfg (vc_next (xp_versions cp) + 1) = Inr (xp_snapshot cp'))"
    using c by (auto simp: rebuild_from_config_def increment_def Let_def broadcast_effect split: sum.splits)
  with Some c assms show ?thesis by (auto simp: reload_xds_def)
qed (use assms in \<open>auto simp: reload_xds_def\<close>)

lemma reload_commit_cases:
  assumes "reload_commit A raw now cfg w = Some (w', resp)"
  shows "aw_app w' = (aw_app w)\<lparr>as_config_state := \<lparr>cs_config = cfg, cs_sha256 = sha256 A raw, cs_last_reload_unix = now,
      cs_last_reload_result = Success, cs_last_reload_error = None\<rparr>,
      as_metrics := record_config_reload ''success'' (as_metrics (aw_app w))\<rparr>" "fst resp = 200"
proof -
  let ?st = "(aw_app w)\<lparr>as_config_state := \<lparr>cs_config = cfg, cs_sha256 = sha256 A raw, cs_last_reload_unix = now,
      cs_last_reload_result = Success, cs_last_reload_error = None\<rparr>,
      as_metrics := record_config_reload ''success'' (as_metrics (aw_app w))\<rparr>"
  have "aw_app w' = ?st \<and> fst resp = 200"
  proof (cases "as_envoy_config_path (aw_app w)")
    case None
    with assms show ?thesis by (auto simp: reload_commit_def Let_def)
  next
    case (Some p)
    with assms obtain g where "generate_envoy_config (yaml_to_value A) (yaml_to_string A) cfg = Some g"
      by (auto simp: reload_commit_def Let_def)
    with Some assms show ?thesis
      by (cases g; cases "fs_write A p (projr g)") (auto simp: reload_commit_def Let_def)
  qed
  then show "aw_app w' = ?st" "fst resp = 200" by blast+
qed

lemma reload_commit_total:
  assumes "yaml_to_value A (YMapping []) = Inr (YMapping [])" "accepted_config (url_ok A) cfg"
  shows "\<exists>w' resp. reload_commit A raw now cfg w = Some (w', resp)"
proof (cases "as_envoy_config_path (aw_app w)")
  case (Some p)
  obtain b where "generate_envoy_config (yaml_to_value A) (yaml_to_string A) cfg = Some (map_sum Serialization (\<lambda>s. s) (yaml_to_string A b))"
    using generate_valid [where to_value = "yaml_to_value A" and to_string = "yaml_to_string A", OF assms(2,1)] by blast
  with Some show ?thesis by (simp add: reload_commit_def Let_def)
qed (simp add: reload_commit_def Let_def)

text \<open>The file of which the bytes are \<open>raw\<close> gives the configuration \<open>cfg\<close>.\<close>

definition loads :: "('t, 's) admin_env \<Rightarrow> string \<Rightarrow> GatewayConfig \<Rightarrow> bool" where
  "loads A raw cfg \<longleftrightarrow> yaml_from_str A (from_utf8_lossy raw) = Inr cfg \<and> accepted_config (url_ok A) cfg"

lemma load_config_loads:
  "load_config_from_str (yaml_from_str A) (url_ok A) (from_utf8_lossy raw) = Inr cfg \<longleftrightarrow> loads A raw cfg"
  by (auto simp: load_config_from_str_def loads_def validate_ok_iff [symmetric] and_then_Inr split: sum.splits)

lemma reload_error_simps [simp]:
  "aw_app (fst (map_prod (\<lambda>st. w\<lparr>aw_app := st\<rparr>) (\<lambda>r. r) (reload_validation_error now msg st)))
     = fst (reload_validation_error now msg st)"
  by (simp add: map_prod_def case_prod_beta)

lemma apply_reload_error:
  assumes "w' = w\<lparr>aw_app := fst (reload_validation_error now msg st)\<rparr>"
  shows "as_config_state (aw_app w') = (as_config_state st)\<lparr>cs_last_reload_unix := now,
      cs_last_reload_result := ValidationError, cs_last_reload_error := Some msg\<rparr>"
    "as_plugin_engine (aw_app w') = as_plugin_engine st" "as_xds (aw_app w') = as_xds st"
    "as_jwks_registry (aw_app w') = as_jwks_registry st" "as_rate_limiter (aw_app w') = as_rate_limiter st"
    "as_concurrency_limit (aw_app w') = as_concurrency_limit st" "aw_files w' = aw_files w"
  using assms by (simp_all add: reload_validation_error_def)

text \<open>The three ways in which a reload fails, by the state it fails in, and the one in which it
  succeeds.\<close>

lemma config_reload_cases:
  assumes "config_reload A el now w = Some (w', resp)"
  shows "(\<exists>msg st. w' = w\<lparr>aw_app := fst (reload_validation_error now msg st)\<rparr> \<and> resp = snd (reload_validation_error now msg st)
      \<and> (st = aw_app w \<or> (\<exists>cfg e. reload_plugins A cfg (aw_app w) = (st, Inl e))
         \<or> (\<exists>raw cfg st1 e. loads A raw cfg \<and> reload_plugins A cfg (aw_app w) = (st1, Inr ()) \<and> reload_xds A el cfg st1 = (st, Inl e))))
    \<or> (\<exists>raw cfg st1 st2. fs_read A (as_config_path (aw_app w)) = Inr raw \<and> loads A raw cfg
        \<and> reload_plugins A cfg (aw_app w) = (st1, Inr ()) \<and> reload_xds A el cfg st1 = (st2, Inr ())
        \<and> reload_commit A raw now cfg (w\<lparr>aw_app := st2\<rparr>) = Some (w', resp))"
proof -
  have err: "Some (map_prod (\<lambda>st. w\<lparr>aw_app := st\<rparr>) (\<lambda>r. r) (reload_validation_error now msg st)) = Some (w', resp) \<Longrightarrow>
      w' = w\<lparr>aw_app := fst (reload_validation_error now msg st)\<rparr> \<and> resp = snd (reload_validation_error now msg st)" for msg st
    by (auto simp: reload_validation_error_def)
  show ?thesis
  proof (cases "fs_read A (as_config_path (aw_app w))")
    case (Inl e)
    with assms err show ?thesis by (fastforce simp: config_reload_def Let_def)
  next
    case (Inr raw)
    note read = this
    show ?thesis
    proof (cases "load_config_from_str (yaml_from_str A) (url_ok A) (from_utf8_lossy raw)")
      case (Inl e)
      with read assms err show ?thesis by (fastforce simp: config_reload_def Let_def)
    next
      case (Inr cfg)
      then have l: "loads A raw cfg" by (simp add: load_config_loads)
      have a: "apply_config_reload A el raw now cfg w = Some (w', resp)"
        using assms read Inr by (simp add: config_reload_def Let_def)
      obtain st1 r1 where p: "reload_plugins A cfg (aw_app w) = (st1, r1)" by fastforce
      obtain st2 r2 where x: "reload_xds A el cfg st1 = (st2, r2)" by fastforce
      show ?thesis
      proof (cases r1)
        case (Inl e)
        with a p err show ?thesis by (fastforce simp: apply_config_reload_def)
      next
        case (Inr u)
        note r1 = this
        show ?thesis
        proof (cases r2)
          case (Inl e)
          with a p x r1 err l show ?thesis by (fastforce simp: apply_config_reload_def)
        next
          case (Inr v)
          with a p x r1 l read show ?thesis by (auto simp: apply_config_reload_def)
        qed
      qed
    qed
  qed
qed

lemma reload_steps_frame:
  assumes "reload_plugins A cfg st = (st1, r1)" "reload_xds A el cfg st1 = (st2, r2)"
  shows "as_config_state st1 = as_config_state st" "as_config_state st2 = as_config_state st"
    "as_jwks_registry st2 = as_jwks_registry st" "as_rate_limiter st2 = as_rate_limiter st"
    "as_concurrency_limit st2 = as_concurrency_limit st" "as_jwks_registry st1 = as_jwks_registry st"
    "as_rate_limiter st1 = as_rate_limiter st" "as_concurrency_limit st1 = as_concurrency_limit st" "as_xds st1 = as_xds st"
    "as_plugin_engine st2 = as_plugin_engine st1"
  using reload_plugins_cases [OF assms(1)] reload_xds_cases [OF assms(2)] by auto

lemma reload_xds_ok:
  assumes "encodes_all (xds_encoder A)" "accepted_config (url_ok A) cfg" "reload_xds A el cfg st = (st', r)"
  shows "r = Inr ()"
proof (cases r)
  case (Inl e)
  then obtain v where "XdsSnapshot_build (xds_encoder A) cfg v = Inl e" using reload_xds_cases [OF assms(3)] by auto
  with snapshot_build_ok [OF assms(1,2), of v] show ?thesis by simp
qed simp

subsection \<open>Interleavings\<close>

lemma check_config_state:
  assumes "check V T req w = (w', resp)"
  shows "as_config_state (wd_app w') = as_config_state (wd_app w)"
proof (cases "entered T w")
  case None
  then show ?thesis using assms by (auto simp: check_cases upd_metrics_def)
next
  case (Some w1)
  let ?meta = "request_meta V T req w"
  obtain w2 response where inner: "check_inner V T (req_headers req) (req_method req) (req_path req) (request_id_of T w) w1 = (w2, response)"
    by fastforce
  have "as_config_state (wd_app w2) = as_config_state (wd_app w1)"
  proof (cases "pre_check V T (req_headers req) ?meta w1")
    case (Inl x)
    then have "pre_check V T (req_headers req) ?meta w1 = Inl (w2, response)"
      using inner by (simp add: check_inner_pre request_meta_def Let_def)
    from pre_check_Inl(1) [OF this] show ?thesis by (auto simp: only_metrics_def)
  next
    case (Inr x)
    obtain w3 route pcont hs sub where x: "x = (w3, route, pcont, hs, sub)" by (cases x) auto
    have s: "rate_limit_step V T (config_of w1) ?meta route (req_headers req) pcont hs sub w3 = (w2, response)"
      using inner Inr x by (simp add: check_inner_pre request_meta_def Let_def)
    obtain lm e r where r: "RateLimiter_check (ev_from_json V) (ev_invoke V) (tm_rate T) (as_rate_limiter (wd_app w3)) (wd_redis w3)
      (bucket_key_of V (config_of w1) route (req_headers req) hs) (rl_bucket_capacity (rc_rate_limit route))
      (rl_refill_rate_per_sec (rc_rate_limit route)) = (lm, e, r)" by (rule prod_cases3)
    from rate_limit_step_spec(1) [OF r s] pre_check_Inr_frame(1) [OF Inr [unfolded x]] show ?thesis
      by (auto simp: only_metrics_def)
  qed
  moreover have "as_config_state (wd_app w1) = as_config_state (wd_app w)" "w' = check_end w2"
    using Some assms inner by (auto simp: entered_def check_begin_def upd_metrics_def check_cases split: if_splits)
  ultimately show ?thesis by (simp add: check_end_def upd_metrics_def Let_def)
qed

text \<open>The control plane from its start: requests, and the steps of any number of reloads, in
  any order.\<close>

inductive cp_reach ::
  "('t, 's) admin_env \<Rightarrow> ('k, 'e, 'l, 'd, 'i, 'lk) env \<Rightarrow> ('c, 'k) AdminWorld \<Rightarrow> bool" for A V where
  booted: "loads A raw cfg \<Longrightarrow>
    build_state (sha256 A) now cfg raw path envoy_path jwks limiter metrics engine xds = Some st \<Longrightarrow>
    cp_reach A V \<lparr>aw_app = st, aw_files = files\<rparr>"
| served: "cp_reach A V w \<Longrightarrow> wd_app g = aw_app w \<Longrightarrow> check V T req g = (g', resp) \<Longrightarrow>
    cp_reach A V (w\<lparr>aw_app := wd_app g'\<rparr>)"
| plugins_step: "cp_reach A V w \<Longrightarrow> loads A raw cfg \<Longrightarrow> reload_plugins A cfg (aw_app w) = (st, r) \<Longrightarrow>
    cp_reach A V (w\<lparr>aw_app := st\<rparr>)"
| xds_step: "cp_reach A V w \<Longrightarrow> loads A raw cfg \<Longrightarrow> reload_xds A el cfg (aw_app w) = (st, r) \<Longrightarrow>
    cp_reach A V (w\<lparr>aw_app := st\<rparr>)"
| commit_step: "cp_reach A V w \<Longrightarrow> loads A raw cfg \<Longrightarrow> reload_commit A raw now cfg w = Some (w', r) \<Longrightarrow> cp_reach A V w'"
| error_step: "cp_reach A V w \<Longrightarrow> cp_reach A V (w\<lparr>aw_app := fst (reload_validation_error now msg (aw_app w))\<rparr>)"

lemma cp_reach_loads:
  "cp_reach A V w \<Longrightarrow> \<exists>raw. loads A raw (cs_config (as_config_state (aw_app w)))
     \<and> cs_sha256 (as_config_state (aw_app w)) = sha256 A raw"
proof (induction rule: cp_reach.induct)
  case (booted raw cfg now path envoy_path jwks limiter metrics engine xds st files)
  then show ?case by (auto simp: build_state_def)
next
  case (served w g T req g' resp)
  with check_config_state [OF served.hyps(3)] show ?case by simp
next
  case (plugins_step w raw cfg st r)
  with reload_plugins_cases [OF plugins_step.hyps(3)] show ?case by auto
next
  case (xds_step w raw cfg el st r)
  with reload_xds_cases [OF xds_step.hyps(3)] show ?case by auto
next
  case (commit_step w raw cfg now w' r)
  with reload_commit_cases(1) [OF commit_step.hyps(3)] show ?case by auto
next
  case (error_step w now msg)
  then show ?case by (simp add: reload_validation_error_def)
qed

subsection \<open>A concrete control plane\<close>

definition demo_admin :: "GatewayConfig \<Rightarrow> (unit, unit) admin_env" where
  "demo_admin cfg =
     \<lparr>fs_read = \<lambda>_. Inr ''doc'', fs_write = \<lambda>_ _. Inr (),
      yaml_from_str = \<lambda>s. if s = ''doc'' then Inr cfg else Inr sample_config, url_ok = \<lambda>_. True,
      yaml_to_value = Inr, yaml_to_string = \<lambda>_. Inr ''yaml'', sha256 = \<lambda>s. s, plugins_env = sample_env, xds_encoder = \<lambda>_. Inr []\<rparr>"

text \<open>With the first route only.\<close>

definition demo_other :: GatewayConfig where
  "demo_other = sample_config\<lparr>gc_routes := [sample_route]\<rparr>"

lemma demo_other_valid: "accepted_config (\<lambda>_. True) demo_other"
  using sample_valid by (auto simp: demo_other_def accepted_config_iff sample_config_def valid_addresses_def Let_def)

definition demo_cp :: "XdsControlPlane option \<Rightarrow> (unit, nat) AdminWorld" where
  "demo_cp xds = \<lparr>aw_app = (wd_app (demo_world (sample_limiter False False True) None 1))\<lparr>as_xds := xds\<rparr>, aw_files = Map.empty\<rparr>"

lemma demo_loads: "loads (demo_admin demo_other) ''doc'' demo_other" "loads (demo_admin demo_other) ''old'' sample_config"
  using demo_other_valid sample_valid by (simp_all add: loads_def demo_admin_def)

lemma demo_admin_spec: "encodes_all (xds_encoder (demo_admin cfg))" "yaml_to_value (demo_admin cfg) (YMapping []) = Inr (YMapping [])"
  by (simp_all add: demo_admin_def encodes_all_def)

lemma reload_ok:
  assumes "encodes_all (xds_encoder A)" "yaml_to_value A (YMapping []) = Inr (YMapping [])"
    and "fs_read A (as_config_path (aw_app w)) = Inr raw" "loads A raw cfg"
    and "\<forall>engine. as_plugin_engine (aw_app w) = Some engine \<longrightarrow> is_ok (build_runtime (plugins_env A) cfg (pe_next_generation engine))"
  shows "\<exists>w' body. config_reload A el now w = Some (w', 200, body) \<and> cs_config (as_config_state (aw_app w')) = cfg"
proof -
  have v: "accepted_config (url_ok A) cfg" using assms(4) by (simp add: loads_def)
  obtain st1 r1 where p: "reload_plugins A cfg (aw_app w) = (st1, r1)" by fastforce
  have "r1 = Inr ()" using reload_plugins_cases [OF p] assms(5) by (cases r1) auto
  moreover obtain st2 r2 where x: "reload_xds A el cfg st1 = (st2, r2)" by fastforce
  moreover have "r2 = Inr ()" by (rule reload_xds_ok [OF assms(1) v x])
  moreover obtain w' resp where c: "reload_commit A raw now cfg (w\<lparr>aw_app := st2\<rparr>) = Some (w', resp)"
    using reload_commit_total [OF assms(2) v] by blast
  moreover have "load_config_from_str (yaml_from_str A) (url_ok A) (from_utf8_lossy raw) = Inr cfg"
    using assms(4) by (simp add: load_config_loads)
  ultimately have "config_reload A el now w = Some (w', resp)"
    using p assms(3) by (simp add: config_reload_def apply_config_reload_def Let_def)
  with reload_commit_cases [OF c] show ?thesis by (cases resp) auto
qed

lemma demo_reload:
  "\<exists>w' body. config_reload (demo_admin demo_other) (Fin 0) 7 (demo_cp xds) = Some (w', 200, body)"
  using reload_ok [OF demo_admin_spec _ demo_loads(1), of "demo_cp xds"]
  by (force simp: demo_admin_def demo_cp_def demo_world_def)

subsection \<open>Properties\<close>

text \<open>C10. What a reload does: answered 200, it has installed the valid configuration the file
  holds, with the hash of the file, the plugin chains built from it and the xDS snapshot
  built from it; answered 400, the configuration and its hash are the old ones and the error
  is on record. Either way the token keys, the rate limiter and the number of permits are
  those of the start.\<close>

theorem config_reload_spec:
  assumes "config_reload A el now w = Some (w', status, body)" "st = aw_app w" "st' = aw_app w'"
  shows "(status = 200 \<and> (\<exists>raw cfg. fs_read A (as_config_path st) = Inr raw \<and> loads A raw cfg
        \<and> as_config_state st' = \<lparr>cs_config = cfg, cs_sha256 = sha256 A raw, cs_last_reload_unix = now,
            cs_last_reload_result = Success, cs_last_reload_error = None\<rparr>
        \<and> (\<forall>engine. as_plugin_engine st = Some engine \<longrightarrow> (\<exists>engine'. as_plugin_engine st' = Some engine'
              \<and> build_runtime (plugins_env A) cfg (pe_next_generation engine) = Inr (pe_runtime engine')))
        \<and> (\<forall>cp. as_xds st = Some cp \<longrightarrow> (\<exists>cp'. as_xds st' = Some cp'
              \<and> XdsSnapshot_build (xds_encoder A) cfg (vc_next (xp_versions cp) + 1) = Inr (xp_snapshot cp'))))
      \<or> status = 400 \<and> (\<exists>msg. as_config_state st' = (as_config_state st)\<lparr>cs_last_reload_unix := now,
            cs_last_reload_result := ValidationError, cs_last_reload_error := Some msg\<rparr>) \<and> aw_files w' = aw_files w)
    \<and> as_jwks_registry st' = as_jwks_registry st \<and> as_rate_limiter st' = as_rate_limiter st
    \<and> as_concurrency_limit st' = as_concurrency_limit st"
proof -
  have err: ?thesis if "w' = w\<lparr>aw_app := fst (reload_validation_error now msg s)\<rparr>" "(status, body) = snd (reload_validation_error now msg s)"
    "as_config_state s = as_config_state st" "as_jwks_registry s = as_jwks_registry st" "as_rate_limiter s = as_rate_limiter st"
    "as_concurrency_limit s = as_concurrency_limit st" for msg s
  proof (intro conjI disjI2)
    show "status = 400" using that(2) by (simp add: reload_validation_error_def)
    show "\<exists>msg. as_config_state st' = (as_config_state st)\<lparr>cs_last_reload_unix := now,
        cs_last_reload_result := ValidationError, cs_last_reload_error := Some msg\<rparr>"
      using apply_reload_error(1) [OF that(1)] that(3) assms(3) by (intro exI [of _ msg]) simp
  qed (use apply_reload_error(4-7) [OF that(1)] that(4-6) assms(3) in simp_all)
  from config_reload_cases [OF assms(1)] show ?thesis
  proof (elim disjE exE conjE, goal_cases)
    case (1 msg s)
    then show ?case by (intro err [OF 1(1,2)]) (simp_all add: assms(2))
  next
    case (2 msg s cfg e)
    from reload_plugins_cases [OF 2(3)] show ?case by (intro err [OF 2(1,2)]) (auto simp: assms(2))
  next
    case (3 msg s raw cfg st1 e)
    from reload_steps_frame [OF 3(4,5)] show ?case by (intro err [OF 3(1,2)]) (simp_all add: assms(2))
  next
    case (4 raw cfg st1 st2)
    have c: "st' = st2\<lparr>as_config_state := \<lparr>cs_config = cfg, cs_sha256 = sha256 A raw, cs_last_reload_unix = now,
        cs_last_reload_result = Success, cs_last_reload_error = None\<rparr>,
        as_metrics := record_config_reload ''success'' (as_metrics st2)\<rparr>" "status = 200"
      using reload_commit_cases [OF 4(5)] by (simp_all add: assms(3))
    show ?case
    proof (intro conjI disjI1 exI)
      show "\<forall>engine. as_plugin_engine st = Some engine \<longrightarrow> (\<exists>engine'. as_plugin_engine st' = Some engine'
          \<and> build_runtime (plugins_env A) cfg (pe_next_generation engine) = Inr (pe_runtime engine'))"
        using reload_plugins_cases [OF 4(3)] reload_steps_frame(10) [OF 4(3,4)] c(1) by (auto simp: assms(2))
      show "\<forall>cp. as_xds st = Some cp \<longrightarrow> (\<exists>cp'. as_xds st' = Some cp'
          \<and> XdsSnapshot_build (xds_encoder A) cfg (vc_next (xp_versions cp) + 1) = Inr (xp_snapshot cp'))"
        using reload_xds_cases [OF 4(4)] reload_steps_frame(9) [OF 4(3,4)] c(1) by (auto simp: assms(2))
    qed (use 4(1,2) c reload_steps_frame(3-5) [OF 4(3,4)] assms(2) in simp_all)
  qed
qed

theorem config_reload_spec_witness:
  "\<exists>w' body. config_reload (demo_admin demo_other) (Fin 0) 7 (demo_cp None) = Some (w', 200, body)
    \<and> cs_config (as_config_state (aw_app w')) = demo_other"
proof -
  obtain w' status body where c: "config_reload (demo_admin demo_other) (Fin 0) 7 (demo_cp None) = Some (w', status, body)"
    and s: "status = 200" using demo_reload [of None] by auto
  from config_reload_spec [OF c refl refl] s have "\<exists>raw cfg. fs_read (demo_admin demo_other) (as_config_path (aw_app (demo_cp None))) = Inr raw
      \<and> loads (demo_admin demo_other) raw cfg \<and> cs_config (as_config_state (aw_app w')) = cfg" by auto
  with c s show ?thesis by (auto simp: demo_admin_def loads_def)
qed

text \<open>A failed reload leaves the gateway as it was: the configuration, the plugin chains and
  the whole xDS control plane are untouched. The code replaces the plugin chains before it
  rebuilds the snapshot, but a configuration that was validated never fails there.\<close>

theorem failed_reload_changes_nothing:
  assumes "encodes_all (xds_encoder A)" "config_reload A el now w = Some (w', 400, body)"
  shows "cs_config (as_config_state (aw_app w')) = cs_config (as_config_state (aw_app w))
    \<and> cs_sha256 (as_config_state (aw_app w')) = cs_sha256 (as_config_state (aw_app w))
    \<and> map_option pe_runtime (as_plugin_engine (aw_app w')) = map_option pe_runtime (as_plugin_engine (aw_app w))
    \<and> as_xds (aw_app w') = as_xds (aw_app w) \<and> aw_files w' = aw_files w"
  using config_reload_cases [OF assms(2)]
proof (elim disjE exE conjE, goal_cases)
  case (1 msg s)
  then show ?case using apply_reload_error [OF 1(1)] by simp
next
  case (2 msg s cfg e)
  with reload_plugins_cases [OF 2(3)] apply_reload_error [OF 2(1)] show ?case by auto
next
  case (3 msg s raw cfg st1 e)
  with reload_xds_ok [OF assms(1) _ 3(5)] show ?case by (simp add: loads_def)
next
  case (4 raw cfg st1 st2)
  with reload_commit_cases(2) [OF 4(5)] show ?case by simp
qed

theorem failed_reload_changes_nothing_witness:
  "\<exists>w' body. config_reload (demo_admin (demo_other\<lparr>gc_version := 2\<rparr>)) (Fin 0) 7 (demo_cp None) = Some (w', 400, body)
    \<and> cs_config (as_config_state (aw_app w')) = sample_config"
proof -
  let ?A = "demo_admin (demo_other\<lparr>gc_version := 2\<rparr>)"
  have "\<not> loads ?A ''doc'' cfg" for cfg by (auto simp: loads_def demo_admin_def accepted_config_iff)
  then obtain e where "load_config_from_str (yaml_from_str ?A) (url_ok ?A) (from_utf8_lossy ''doc'') = Inl e"
    using load_config_loads [of ?A "''doc''"] by (metis sum.exhaust)
  then obtain w' body where c: "config_reload ?A (Fin 0) 7 (demo_cp None) = Some (w', 400, body)"
    by (simp add: config_reload_def demo_admin_def reload_validation_error_def Let_def)
  from failed_reload_changes_nothing [OF demo_admin_spec(1) c] c show ?thesis by (auto simp: demo_cp_def demo_world_def)
qed

text \<open>A valid configuration is taken: if the file holds one, its plugins can be built and the
  xDS messages can be encoded, the reload ends, with 200, and the configuration is in force.\<close>

theorem reload_succeeds:
  assumes "encodes_all (xds_encoder A)" "yaml_to_value A (YMapping []) = Inr (YMapping [])"
    and "fs_read A (as_config_path (aw_app w)) = Inr raw" "loads A raw cfg"
    and "\<forall>engine. as_plugin_engine (aw_app w) = Some engine \<longrightarrow> is_ok (build_runtime (plugins_env A) cfg (pe_next_generation engine))"
  shows "\<exists>w' body. config_reload A el now w = Some (w', 200, body) \<and> cs_config (as_config_state (aw_app w')) = cfg"
  using reload_ok [OF assms] .

theorem reload_succeeds_witness:
  "\<exists>w' body. config_reload (demo_admin demo_other) (Fin 0) 7 (demo_cp None) = Some (w', 200, body)
    \<and> cs_config (as_config_state (aw_app w')) = demo_other"
  by (rule reload_succeeds [OF demo_admin_spec _ demo_loads(1)]) (simp_all add: demo_admin_def demo_cp_def demo_world_def)

text \<open>The configuration in force is always a valid one: over every interleaving of requests
  and steps of reloads, from the start of the control plane on, it is what some file content
  gives that passed validation, and the hash shown by \<open>/config/status\<close> is that content's.\<close>

theorem active_config_valid:
  assumes "cp_reach A V w"
  shows "\<exists>raw body. loads A raw (cs_config (as_config_state (aw_app w)))
    \<and> validate (url_ok A) (cs_config (as_config_state (aw_app w))) = Inr ()
    \<and> config_status (aw_app w) = (200, StatusBody body) \<and> cr_active_config_sha256 body = sha256 A raw
    \<and> cr_active_config_version body = 1"
proof -
  obtain raw where r: "loads A raw (cs_config (as_config_state (aw_app w)))" "cs_sha256 (as_config_state (aw_app w)) = sha256 A raw"
    using cp_reach_loads [OF assms] by blast
  then have "gc_version (cs_config (as_config_state (aw_app w))) = 1" by (simp add: loads_def accepted_config_iff)
  with r show ?thesis by (auto simp: config_status_def loads_def validate_ok_iff Let_def)
qed

theorem active_config_valid_witness:
  "\<exists>(w :: (unit, nat) AdminWorld) raw. cp_reach (demo_admin demo_other) demo_env w \<and> loads (demo_admin demo_other) raw (cs_config (as_config_state (aw_app w)))"
proof -
  have "gs_max_concurrent_requests (gc_gateway sample_config) = None" by (simp add: sample_config_def)
  then obtain st :: "(unit, nat) AppState" where
    "build_state (sha256 (demo_admin demo_other)) 0 sample_config ''old'' [] None \<lparr>jr_caches = []\<rparr> (sample_limiter False False True) \<lparr>mr_calls = []\<rparr> None None = Some st"
    by (simp add: build_state_def Semaphore_new_def)
  from booted [OF demo_loads(2) this] have "cp_reach (demo_admin demo_other) demo_env \<lparr>aw_app = st, aw_files = Map.empty\<rparr>" .
  with active_config_valid [OF this] show ?thesis by blast
qed

text \<open>Two reloads at the same time can leave the gateway with the configuration of one and the
  xDS snapshot of the other: nothing holds a lock over a whole reload. Here the reload of
  \<open>a\<close> has rebuilt the snapshot when that of \<open>b\<close> runs to its end, and commits last.\<close>

theorem concurrent_reloads_mix:
  assumes "as_xds (aw_app w) = Some cp" "encodes_all (xds_encoder A)" "loads A raw_a a" "loads A raw_b b"
    and "reload_xds A el a (aw_app w) = (st1, r1)" "reload_xds A el' b st1 = (st2, r2)"
    and "reload_commit A raw_b now b (w\<lparr>aw_app := st2\<rparr>) = Some (w3, status_b, body_b)"
    and "reload_commit A raw_a now' a w3 = Some (w4, status_a, body_a)"
  shows "status_a = 200 \<and> status_b = 200 \<and> cs_config (as_config_state (aw_app w4)) = a
    \<and> (\<exists>cp' v. as_xds (aw_app w4) = Some cp' \<and> XdsSnapshot_build (xds_encoder A) b v = Inr (xp_snapshot cp'))"
proof -
  have b: "accepted_config (url_ok A) b" using assms(4) by (simp add: loads_def)
  have r: "r2 = Inr ()" by (rule reload_xds_ok [OF assms(2) b assms(6)])
  obtain cp1 where "as_xds st1 = Some cp1" using reload_xds_cases [OF assms(5)] assms(1) by auto
  with reload_xds_cases [OF assms(6)] r obtain cp' v where
    "as_xds st2 = Some cp'" "XdsSnapshot_build (xds_encoder A) b v = Inr (xp_snapshot cp')" by auto
  with reload_commit_cases [OF assms(7)] reload_commit_cases [OF assms(8)] show ?thesis by auto
qed

theorem concurrent_reloads_mix_witness:
  "\<exists>(w4 :: (unit, nat) AdminWorld) cp' v. cs_config (as_config_state (aw_app w4)) = demo_other \<and> as_xds (aw_app w4) = Some cp'
    \<and> XdsSnapshot_build (xds_encoder (demo_admin demo_other)) sample_config v = Inr (xp_snapshot cp') \<and> demo_other \<noteq> sample_config"
proof -
  let ?A = "demo_admin demo_other"
  obtain cp where "XdsControlPlane_new (xds_encoder ?A) sample_config \<lparr>mr_calls = []\<rparr> = Inr cp"
    using fresh_control_plane [OF demo_admin_spec(1) sample_valid] by blast
  let ?w = "demo_cp (Some cp)"
  obtain st1 r1 where 1: "reload_xds ?A (Fin 0) demo_other (aw_app ?w) = (st1, r1)" by fastforce
  obtain st2 r2 where 2: "reload_xds ?A (Fin 0) sample_config st1 = (st2, r2)" by fastforce
  have v: "accepted_config (url_ok ?A) sample_config" "accepted_config (url_ok ?A) demo_other" using demo_loads by (simp_all add: loads_def)
  obtain w3 x y where 3: "reload_commit ?A ''old'' 1 sample_config (?w\<lparr>aw_app := st2\<rparr>) = Some (w3, x, y)"
    using reload_commit_total [OF demo_admin_spec(2) v(1)] by (metis prod.exhaust)
  obtain w4 x' y' where 4: "reload_commit ?A ''doc'' 2 demo_other w3 = Some (w4, x', y')"
    using reload_commit_total [OF demo_admin_spec(2) v(2)] by (metis prod.exhaust)
  have "as_xds (aw_app ?w) = Some cp" by (simp add: demo_cp_def)
  moreover have "demo_other \<noteq> sample_config" by (simp add: demo_other_def sample_config_def)
  ultimately show ?thesis
    using concurrent_reloads_mix [OF _ demo_admin_spec(1) demo_loads 1 2 3 4] by blast
qed

end
