(* ===== verification/Jwks_Refresh.thy ===== *)
theory Jwks_Refresh
  imports Auth_Correct
begin

text \<open>
  The background refresh of a JWKS cache and the requests that wait for it
  (\<open>controlplane/src/auth/jwks_cache.rs\<close>, \<open>mod.rs\<close>, \<open>registry.rs\<close>). The loop of a cache and
  the requests of \<open>validate_with_refresh\<close> are tasks that meet at the \<open>Notify\<close> of the cache.
  Each task is a program counter, and \<open>refresh_step\<close> interleaves their steps at every read of
  the cache, every operation on the \<open>Notify\<close> and every \<open>await\<close>. Parameters: \<open>N\<close> is
  \<open>tokio::sync::Notify\<close>, whose documented behaviour is \<open>notify_spec\<close>; the answer of each HTTP
  fetch is an argument of the step that stores it; \<open>J\<close> is the JWT library, which reads the system
  clock, as a function of the moment.
\<close>

subsection \<open>Notify\<close>

datatype task = LoopTask | ReqTask nat

text \<open>\<open>nt_notified\<close> is the first poll of a future of \<open>notified()\<close> by a task, with whether it
  completes at once; \<open>nt_notify_one\<close> and \<open>nt_notify_waiters\<close> give the tasks they wake;
  \<open>nt_drop\<close> drops the future of a task that still waits.\<close>

record 'n notify =
  nt_new :: 'n
  nt_notified :: "task \<Rightarrow> 'n \<Rightarrow> 'n \<times> bool"
  nt_notify_one :: "'n \<Rightarrow> 'n \<times> task option"
  nt_notify_waiters :: "'n \<Rightarrow> 'n \<times> task list"
  nt_drop :: "task \<Rightarrow> 'n \<Rightarrow> 'n"

text \<open>The documentation: \<open>notify_one\<close> wakes the first waiting task, or else stores one permit,
  which the next \<open>notified()\<close> consumes; \<open>notify_waiters\<close> wakes all that wait and stores
  nothing.\<close>

definition notify_spec :: "'n notify \<Rightarrow> ('n \<Rightarrow> task list) \<Rightarrow> ('n \<Rightarrow> bool) \<Rightarrow> bool" where
  "notify_spec N waiters permit \<longleftrightarrow>
     waiters (nt_new N) = [] \<and> \<not> permit (nt_new N)
   \<and> (\<forall>t n. let (n', ready) = nt_notified N t n in
        ready = permit n \<and> \<not> permit n' \<and> waiters n' = (if permit n then waiters n else waiters n @ [t]))
   \<and> (\<forall>n. let (n', woken) = nt_notify_one N n in
        case waiters n of
          [] \<Rightarrow> woken = None \<and> permit n' \<and> waiters n' = []
        | t # ts \<Rightarrow> woken = Some t \<and> permit n' = permit n \<and> waiters n' = ts)
   \<and> (\<forall>n. let (n', woken) = nt_notify_waiters N n in
        woken = waiters n \<and> waiters n' = [] \<and> permit n' = permit n)
   \<and> (\<forall>t n. waiters (nt_drop N t n) = removeAll t (waiters n) \<and> permit (nt_drop N t n) = permit n)"

subsection \<open>Tasks\<close>

text \<open>The loop: at the top, registered in \<open>select!\<close>, woken there, fetching, and between the
  write of the cache and \<open>notify_waiters\<close>.\<close>

datatype LoopPc = LoopTop | LoopSelect | LoopWoken | LoopFetch | LoopStored

record ReqArgs =
  ra_token :: string
  ra_provider :: AuthProvider
  ra_scopes :: "string list"

text \<open>How a waiting request is woken. A future that \<open>notify_one\<close> woke and that is dropped before
  it runs passes the notification on.\<close>

datatype Wake = ByOne | ByAll | Elapsed_or_ready

datatype ReqPc =
  ReqStart | ReqFresh | ReqUnknown | ReqTriggered | ReqWaiting nat | ReqWoken Wake
| ReqDone "(AuthError, ValidatedIdentity) result"

record ('k, 'n) RefreshSys =
  sy_cache :: "'k JwksCache"
  sy_notify :: 'n
  sy_loop :: LoopPc
  sy_tick :: nat
  sy_reqs :: "nat \<rightharpoonup> ReqArgs \<times> ReqPc"
  sy_now :: nat
  sy_fetches :: nat

text \<open>\<open>sy_tick\<close> is the next deadline of the interval, \<open>sy_fetches\<close> counts the fetches that the
  loop has stored or given up.\<close>

definition ttl_of :: "'k JwksCache \<Rightarrow> nat" where
  "ttl_of cache = unat (ap_cache_ttl_seconds (jc_provider cache)) * 10 ^ 9"

definition WAIT_LIMIT :: nat where "WAIT_LIMIT = 5 * 10 ^ 9"

text \<open>\<open>tokio::time::interval\<close> panics on a period of zero, and \<open>None\<close> is that panic. The first tick
  fires at once and is skipped.\<close>

definition spawn_refresh_loop :: "'n notify \<Rightarrow> nat \<Rightarrow> 'k JwksCache \<Rightarrow> ('k, 'n) RefreshSys option" where
  "spawn_refresh_loop N now cache =
     (if ttl_of cache = 0 then None
      else Some \<lparr>sy_cache = cache, sy_notify = nt_new N, sy_loop = LoopTop, sy_tick = now + ttl_of cache,
             sy_reqs = Map.empty, sy_now = now, sy_fetches = 0\<rparr>)"

definition spawn_all_refresh_loops ::
  "'n notify \<Rightarrow> nat \<Rightarrow> 'k JwksCacheRegistry \<Rightarrow> (string \<times> ('k, 'n) RefreshSys option) list" where
  "spawn_all_refresh_loops N now reg = map (\<lambda>(name, cache). (name, spawn_refresh_loop N now cache)) (jr_caches reg)"

definition set_req :: "nat \<Rightarrow> ReqArgs \<Rightarrow> ReqPc \<Rightarrow> ('k, 'n) RefreshSys \<Rightarrow> ('k, 'n) RefreshSys" where
  "set_req i a pc s = s\<lparr>sy_reqs := (sy_reqs s)(i \<mapsto> (a, pc))\<rparr>"

fun wake :: "Wake \<Rightarrow> task \<Rightarrow> ('k, 'n) RefreshSys \<Rightarrow> ('k, 'n) RefreshSys" where
  "wake k LoopTask s = (if sy_loop s = LoopSelect then s\<lparr>sy_loop := LoopWoken\<rparr> else s)"
| "wake k (ReqTask i) s =
     (case sy_reqs s i of
        Some (a, ReqWaiting d) \<Rightarrow> set_req i a (ReqWoken k) s
      | _ \<Rightarrow> s)"

definition trigger_refresh :: "'n notify \<Rightarrow> ('k, 'n) RefreshSys \<Rightarrow> ('k, 'n) RefreshSys" where
  "trigger_refresh N s =
     (let (n, woken) = nt_notify_one N (sy_notify s);
          s' = s\<lparr>sy_notify := n\<rparr>
      in case woken of None \<Rightarrow> s' | Some t \<Rightarrow> wake ByOne t s')"

definition notify_all :: "'n notify \<Rightarrow> ('k, 'n) RefreshSys \<Rightarrow> ('k, 'n) RefreshSys" where
  "notify_all N s =
     (let (n, woken) = nt_notify_waiters N (sy_notify s)
      in fold (wake ByAll) woken (s\<lparr>sy_notify := n\<rparr>))"

subsection \<open>Steps of the loop\<close>

definition start_fetch_on_tick :: "('k, 'n) RefreshSys \<Rightarrow> ('k, 'n) RefreshSys" where
  "start_fetch_on_tick s = s\<lparr>sy_loop := LoopFetch, sy_tick := sy_tick s + ttl_of (sy_cache s)\<rparr>"

definition loop_select :: "'n notify \<Rightarrow> ('k, 'n) RefreshSys \<Rightarrow> ('k, 'n) RefreshSys" where
  "loop_select N s =
     (let (n, ready) = nt_notified N LoopTask (sy_notify s)
      in s\<lparr>sy_notify := n, sy_loop := if ready then LoopFetch else LoopSelect\<rparr>)"

definition loop_store ::
  "(nat \<Rightarrow> 'k jwt) \<Rightarrow> (string \<Rightarrow> (string, JwksDocument) result) \<Rightarrow> ('k, 'n) RefreshSys \<Rightarrow> ('k, 'n) RefreshSys" where
  "loop_store J fetch s =
     s\<lparr>sy_cache := refresh_round (J (sy_now s)) fetch (sy_now s) (sy_cache s), sy_loop := LoopStored, sy_fetches := Suc (sy_fetches s)\<rparr>"

inductive loop_step :: "(nat \<Rightarrow> 'k jwt) \<Rightarrow> 'n notify \<Rightarrow> ('k, 'n) RefreshSys \<Rightarrow> ('k, 'n) RefreshSys \<Rightarrow> bool" for J N where
  select: "sy_loop s = LoopTop \<Longrightarrow> loop_step J N s (loop_select N s)"
| tick_first: "sy_loop s = LoopTop \<Longrightarrow> sy_tick s \<le> sy_now s \<Longrightarrow> loop_step J N s (start_fetch_on_tick s)"
| tick: "sy_loop s = LoopSelect \<Longrightarrow> sy_tick s \<le> sy_now s \<Longrightarrow>
    loop_step J N s (start_fetch_on_tick (s\<lparr>sy_notify := nt_drop N LoopTask (sy_notify s)\<rparr>))"
| tick_forwards: "sy_loop s = LoopWoken \<Longrightarrow> sy_tick s \<le> sy_now s \<Longrightarrow>
    loop_step J N s (trigger_refresh N (start_fetch_on_tick s))"
| notified: "sy_loop s = LoopWoken \<Longrightarrow> loop_step J N s (s\<lparr>sy_loop := LoopFetch\<rparr>)"
| store: "sy_loop s = LoopFetch \<Longrightarrow> loop_step J N s (loop_store J fetch s)"
| announce: "sy_loop s = LoopStored \<Longrightarrow> loop_step J N s (notify_all N (s\<lparr>sy_loop := LoopTop\<rparr>))"

subsection \<open>Steps of a request\<close>

text \<open>From the start of \<open>validate_with_refresh\<close> to its answer.\<close>

definition check_stale :: "nat \<Rightarrow> ReqArgs \<Rightarrow> ('k, 'n) RefreshSys \<Rightarrow> ('k, 'n) RefreshSys" where
  "check_stale i a s =
     set_req i a (if is_stale (sy_now s) (sy_cache s) then ReqDone (Inl AuthProviderUnavailable) else ReqFresh) s"

definition validate_now :: "'k jwt \<Rightarrow> ReqArgs \<Rightarrow> 'k JwksCache \<Rightarrow> (AuthError, ValidatedIdentity) result" where
  "validate_now J a cache = validate_token J (ra_token a) (ra_provider a) (get_keys cache) (ra_scopes a)"

definition first_validation :: "(nat \<Rightarrow> 'k jwt) \<Rightarrow> nat \<Rightarrow> ReqArgs \<Rightarrow> ('k, 'n) RefreshSys \<Rightarrow> ('k, 'n) RefreshSys" where
  "first_validation J i a s =
     set_req i a (case validate_now (J (sy_now s)) a (sy_cache s) of Inl UnknownKeyId \<Rightarrow> ReqUnknown | other \<Rightarrow> ReqDone other) s"

text \<open>The first poll of \<open>timeout(5 s, wait_for_refresh())\<close>.\<close>

definition wait_for_refresh :: "'n notify \<Rightarrow> nat \<Rightarrow> ReqArgs \<Rightarrow> ('k, 'n) RefreshSys \<Rightarrow> ('k, 'n) RefreshSys" where
  "wait_for_refresh N i a s =
     (let (n, ready) = nt_notified N (ReqTask i) (sy_notify s)
      in set_req i a (if ready then ReqWoken Elapsed_or_ready else ReqWaiting (sy_now s + WAIT_LIMIT)) (s\<lparr>sy_notify := n\<rparr>))"

definition stop_waiting :: "'n notify \<Rightarrow> nat \<Rightarrow> ('k, 'n) RefreshSys \<Rightarrow> ('k, 'n) RefreshSys" where
  "stop_waiting N i s = s\<lparr>sy_notify := nt_drop N (ReqTask i) (sy_notify s)\<rparr>"

inductive req_step :: "(nat \<Rightarrow> 'k jwt) \<Rightarrow> 'n notify \<Rightarrow> nat \<Rightarrow> ('k, 'n) RefreshSys \<Rightarrow> ('k, 'n) RefreshSys \<Rightarrow> bool" for J N i where
  stale: "sy_reqs s i = Some (a, ReqStart) \<Longrightarrow> req_step J N i s (check_stale i a s)"
| first: "sy_reqs s i = Some (a, ReqFresh) \<Longrightarrow> req_step J N i s (first_validation J i a s)"
| trigger: "sy_reqs s i = Some (a, ReqUnknown) \<Longrightarrow> req_step J N i s (trigger_refresh N (set_req i a ReqTriggered s))"
| wait: "sy_reqs s i = Some (a, ReqTriggered) \<Longrightarrow> req_step J N i s (wait_for_refresh N i a s)"
| elapsed: "sy_reqs s i = Some (a, ReqWaiting d) \<Longrightarrow> d \<le> sy_now s \<Longrightarrow>
    req_step J N i s (stop_waiting N i (set_req i a (ReqWoken Elapsed_or_ready) s))"
| retry: "sy_reqs s i = Some (a, ReqWoken k) \<Longrightarrow> req_step J N i s (set_req i a (ReqDone (validate_now (J (sy_now s)) a (sy_cache s))) s)"

text \<open>The client goes away and the task of the request is dropped.\<close>

definition drop_request :: "'n notify \<Rightarrow> nat \<Rightarrow> ('k, 'n) RefreshSys \<Rightarrow> ('k, 'n) RefreshSys" where
  "drop_request N i s =
     (let s' = s\<lparr>sy_reqs := (sy_reqs s)(i := None)\<rparr>
      in case sy_reqs s i of
           Some (_, ReqWaiting _) \<Rightarrow> stop_waiting N i s'
         | Some (_, ReqWoken ByOne) \<Rightarrow> trigger_refresh N s'
         | _ \<Rightarrow> s')"

inductive refresh_step :: "(nat \<Rightarrow> 'k jwt) \<Rightarrow> 'n notify \<Rightarrow> ('k, 'n) RefreshSys \<Rightarrow> ('k, 'n) RefreshSys \<Rightarrow> bool" for J N where
  by_loop: "loop_step J N s s' \<Longrightarrow> refresh_step J N s s'"
| by_request: "req_step J N i s s' \<Longrightarrow> refresh_step J N s s'"
| arrives: "sy_reqs s i = None \<Longrightarrow> refresh_step J N s (set_req i a ReqStart s)"
| dropped: "refresh_step J N s (drop_request N i s)"
| time: "sy_now s \<le> t \<Longrightarrow> refresh_step J N s (s\<lparr>sy_now := t\<rparr>)"

inductive refresh_reach :: "(nat \<Rightarrow> 'k jwt) \<Rightarrow> 'n notify \<Rightarrow> ('k, 'n) RefreshSys \<Rightarrow> bool" for J N where
  spawned: "spawn_refresh_loop N now cache = Some s \<Longrightarrow> jc_fetched_at cache \<le> now \<Longrightarrow> refresh_reach J N s"
| stepped: "refresh_reach J N s \<Longrightarrow> refresh_step J N s s' \<Longrightarrow> refresh_reach J N s'"

end
