(* ===== verification/Tracing_Init.thy ===== *)
theory Tracing_Init
  imports Validation
begin

text \<open>
  Tracing setup (\<open>controlplane/src/observability/tracing_init.rs\<close>). The globals that it sets
  (the text map propagator, the tracer provider, the subscriber and the \<open>OnceLock\<close> of the
  module) are the record \<open>Tracing\<close>; the exporter and the provider of the OpenTelemetry crates
  are parameters.
\<close>

datatype TracingInitError = OtlpInit string | SetGlobal string

fun TracingInitError_to_string :: "TracingInitError \<Rightarrow> string" where
  "TracingInitError_to_string (OtlpInit e) = ''failed to initialize OTLP exporter: '' @ e"
| "TracingInitError_to_string (SetGlobal e) = ''failed to set global subscriber: '' @ e"

text \<open>\<open>rust_log\<close> is the filter of the environment, when it is set and can be parsed;
  \<open>try_init_error\<close> the text of the error of a second \<open>try_init\<close>.\<close>

record ('x, 'v) otel_env =
  rust_log :: "string option"
  build_exporter :: "string \<Rightarrow> (string, 'x) result"
  build_provider :: "f64 \<Rightarrow> 'x \<Rightarrow> 'v"
  try_init_error :: string

datatype 'v Layer = FmtLayer | OtelLayer 'v string

record 'v Subscriber =
  sb_filter :: string
  sb_layers :: "'v Layer list"

record 'v Tracing =
  tg_propagator :: bool
  tg_TRACER_PROVIDER :: "'v option"
  tg_global_provider :: "'v option"
  tg_subscriber :: "'v Subscriber option"
  tg_shut_down :: "'v list"

definition Tracing_fresh :: "'v Tracing" where
  "Tracing_fresh = \<lparr>tg_propagator = False, tg_TRACER_PROVIDER = None, tg_global_provider = None, tg_subscriber = None, tg_shut_down = []\<rparr>"

definition fclamp :: "f64 \<Rightarrow> f64 \<Rightarrow> f64 \<Rightarrow> f64" where
  "fclamp x lo hi = (let x = (if flt x lo then lo else x) in if flt hi x then hi else x)"

text \<open>\<open>OnceLock::set\<close>, whose failure the code ignores.\<close>

definition once_set :: "'v \<Rightarrow> 'v option \<Rightarrow> 'v option" where
  "once_set v slot = (case slot of None \<Rightarrow> Some v | Some u \<Rightarrow> Some u)"

definition try_init :: "('x, 'v) otel_env \<Rightarrow> 'v Subscriber \<Rightarrow> 'v Tracing \<Rightarrow> 'v Tracing \<times> (TracingInitError, unit) result" where
  "try_init otel sub tg =
     (case tg_subscriber tg of
        Some _ \<Rightarrow> (tg, Inl (SetGlobal (try_init_error otel)))
      | None \<Rightarrow> (tg\<lparr>tg_subscriber := Some sub\<rparr>, Inr ()))"

definition env_filter :: "('x, 'v) otel_env \<Rightarrow> string" where
  "env_filter otel = (case rust_log otel of Some f \<Rightarrow> f | None \<Rightarrow> ''info'')"

definition init_tracing ::
  "('x, 'v) otel_env \<Rightarrow> TracingConfig \<Rightarrow> 'v Tracing \<Rightarrow> 'v Tracing \<times> (TracingInitError, unit) result" where
  "init_tracing otel tracing_config tg =
     (if tc_enabled tracing_config then
        let tg1 = tg\<lparr>tg_propagator := True\<rparr>;
            sampler = fclamp (tc_sample_rate tracing_config) (Fin 0) (Fin 1)
        in case build_exporter otel (tc_otlp_endpoint tracing_config) of
             Inl e \<Rightarrow> (tg1, Inl (OtlpInit e))
           | Inr exporter \<Rightarrow>
               let tracer_provider = build_provider otel sampler exporter;
                   tg2 = tg1\<lparr>tg_TRACER_PROVIDER := once_set tracer_provider (tg_TRACER_PROVIDER tg1),
                             tg_global_provider := Some tracer_provider\<rparr>
               in try_init otel \<lparr>sb_filter = env_filter otel, sb_layers = [FmtLayer, OtelLayer tracer_provider ''api-gateway'']\<rparr> tg2
      else try_init otel \<lparr>sb_filter = env_filter otel, sb_layers = [FmtLayer]\<rparr> tg)"

definition shutdown_tracing :: "'v Tracing \<Rightarrow> 'v Tracing" where
  "shutdown_tracing tg =
     (case tg_TRACER_PROVIDER tg of
        Some provider \<Rightarrow> tg\<lparr>tg_shut_down := tg_shut_down tg @ [provider]\<rparr>
      | None \<Rightarrow> tg)"

subsection \<open>Properties\<close>

text \<open>A sample rate that validation lets pass is not changed by the clamp.\<close>

lemma clamp_valid: "accepted_tracing t \<Longrightarrow> fclamp (tc_sample_rate t) (Fin 0) (Fin 1) = tc_sample_rate t"
  by (simp add: fclamp_def accepted_tracing_def)

lemma clamp_range: "r \<noteq> NaN \<Longrightarrow> fle (Fin 0) (fclamp r (Fin 0) (Fin 1)) \<and> fle (fclamp r (Fin 0) (Fin 1)) (Fin 1)"
  by (cases r) (auto simp: fclamp_def Let_def)

text \<open>C16. Tracing setup at the start of a process. It fails only if the exporter cannot be built,
  and then no subscriber is installed. Otherwise there is one subscriber with the filter of
  the environment or \<open>info\<close>; if tracing is enabled it has the layer of a provider that samples at
  the rate of the configuration, spans go to that provider, and it is the one that
  \<open>shutdown_tracing\<close> shuts down; if it is disabled there is no provider and the shutdown does
  nothing.\<close>

theorem init_tracing_spec:
  assumes "accepted_tracing t" "init_tracing otel t Tracing_fresh = (tg, r)"
  shows "(r \<noteq> Inr () \<longleftrightarrow> tc_enabled t \<and> \<not> is_ok (build_exporter otel (tc_otlp_endpoint t)))
    \<and> (r \<noteq> Inr () \<longrightarrow> tg_subscriber tg = None \<and> tg_shut_down (shutdown_tracing tg) = [])
    \<and> (r = Inr () \<longrightarrow> (\<exists>layers. tg_subscriber tg = Some \<lparr>sb_filter = (case rust_log otel of Some f \<Rightarrow> f | None \<Rightarrow> ''info''), sb_layers = layers\<rparr>
        \<and> (if tc_enabled t
           then \<exists>x p. build_exporter otel (tc_otlp_endpoint t) = Inr x \<and> p = build_provider otel (tc_sample_rate t) x
             \<and> layers = [FmtLayer, OtelLayer p ''api-gateway''] \<and> tg_global_provider tg = Some p \<and> tg_propagator tg
             \<and> tg_shut_down (shutdown_tracing tg) = [p]
           else layers = [FmtLayer] \<and> tg_global_provider tg = None \<and> shutdown_tracing tg = tg)))"
  using assms(2)
  by (auto simp: init_tracing_def Tracing_fresh_def try_init_def once_set_def env_filter_def shutdown_tracing_def Let_def
      clamp_valid [OF assms(1)] split: if_splits sum.splits)

text \<open>A second call always fails, as the comment of \<open>init_tracing\<close> has it, but not without effect:
  the spans go to the new provider, which no shutdown reaches.\<close>

lemma init_tracing_twice:
  assumes "tg_subscriber tg = Some s" "tg_TRACER_PROVIDER tg = Some p" "tc_enabled t" "build_exporter otel (tc_otlp_endpoint t) = Inr x"
    and "init_tracing otel t tg = (tg', r)"
  shows "r = Inl (SetGlobal (try_init_error otel)) \<and> tg_global_provider tg' = Some (build_provider otel (fclamp (tc_sample_rate t) (Fin 0) (Fin 1)) x)
    \<and> tg_shut_down (shutdown_tracing tg') = tg_shut_down tg @ [p]"
  using assms by (auto simp: init_tracing_def try_init_def once_set_def shutdown_tracing_def Let_def)

definition demo_otel :: "(string, f64 \<times> string) otel_env" where
  "demo_otel = \<lparr>rust_log = None, build_exporter = Inr, build_provider = Pair, try_init_error = ''taken''\<rparr>"

theorem init_tracing_spec_witness:
  "\<exists>tg. init_tracing demo_otel \<lparr>tc_enabled = True, tc_otlp_endpoint = ''http://otel:4317'', tc_sample_rate = Fin (1 / 2)\<rparr> Tracing_fresh = (tg, Inr ())
    \<and> tg_shut_down (shutdown_tracing tg) = [(Fin (1 / 2), ''http://otel:4317'')]"
proof -
  let ?t = "\<lparr>tc_enabled = True, tc_otlp_endpoint = ''http://otel:4317'', tc_sample_rate = Fin (1 / 2)\<rparr>"
  obtain tg r where r: "init_tracing demo_otel ?t Tracing_fresh = (tg, r)" by fastforce
  have "accepted_tracing ?t" by (simp add: accepted_tracing_def)
  from init_tracing_spec [OF this r] show ?thesis using r by (intro exI [of _ tg]) (auto simp: demo_otel_def)
qed

end
