(* ===== verification/Socket_Addr.thy ===== *)
theory Socket_Addr
  imports Prelude
begin

text \<open>
  \<open>str::parse::<SocketAddr>\<close> of the standard library, through which the addresses of the xDS
  and the external processing servers go: an IPv4 or a bracketed IPv6 address with a port.
  Each reader takes the rest of the text and gives what it read with the new rest; a reader
  that fails leaves the text as it was.
\<close>

datatype SocketAddr = V4 "nat list" nat | V6 "nat list" nat nat

definition to_digit :: "nat \<Rightarrow> char \<Rightarrow> nat option" where
  "to_digit radix c =
     (let n = of_char c :: nat;
          d = (if 48 \<le> n \<and> n \<le> 57 then n - 48 else if 97 \<le> n \<and> n \<le> 122 then n - 87
               else if 65 \<le> n \<and> n \<le> 90 then n - 55 else radix)
      in if d < radix then Some d else None)"

definition read_given_char :: "char \<Rightarrow> string \<Rightarrow> string option" where
  "read_given_char c s = (case s of x # xs \<Rightarrow> if x = c then Some xs else None | [] \<Rightarrow> None)"

text \<open>At least one and at most \<open>max_digits\<close> digits, with a value below \<open>B\<close>.\<close>

definition read_number :: "nat \<Rightarrow> nat option \<Rightarrow> bool \<Rightarrow> nat \<Rightarrow> string \<Rightarrow> (nat \<times> string) option" where
  "read_number radix max_digits allow_zero_prefix B s =
     (let digits = takeWhile (\<lambda>c. to_digit radix c \<noteq> None) s;
          v = foldl (\<lambda>a c. radix * a + the (to_digit radix c)) 0 digits
      in if digits = [] then None
         else if (case max_digits of Some m \<Rightarrow> m < length digits | None \<Rightarrow> False) then None
         else if \<not> allow_zero_prefix \<and> hd digits = CHR ''0'' \<and> 1 < length digits then None
         else if B \<le> v then None
         else Some (v, drop (length digits) s))"

definition read_separator :: "char \<Rightarrow> nat \<Rightarrow> (string \<Rightarrow> ('a \<times> string) option) \<Rightarrow> string \<Rightarrow> ('a \<times> string) option" where
  "read_separator sep index inner s =
     (if 0 < index then Option.bind (read_given_char sep s) inner else inner s)"

fun read_octets :: "nat \<Rightarrow> nat \<Rightarrow> string \<Rightarrow> (nat list \<times> string) option" where
  "read_octets 0 i s = Some ([], s)"
| "read_octets (Suc k) i s =
     Option.bind (read_separator CHR ''.'' i (read_number 10 (Some 3) False 256) s) (\<lambda>(v, rest).
     Option.bind (read_octets k (i + 1) rest) (\<lambda>(vs, rest'). Some (v # vs, rest')))"

definition read_ipv4_addr :: "string \<Rightarrow> (nat list \<times> string) option" where
  "read_ipv4_addr s = read_octets 4 0 s"

text \<open>Up to \<open>k\<close> groups, the last two of which may be an IPv4 address, which the second result tells.\<close>

fun read_groups :: "nat \<Rightarrow> nat \<Rightarrow> string \<Rightarrow> nat list \<times> bool \<times> string" where
  "read_groups 0 i s = ([], False, s)"
| "read_groups (Suc k) i s =
     (case (if 0 < k then read_separator CHR '':'' i read_ipv4_addr s else None) of
        Some (v, rest) \<Rightarrow> ([256 * v ! 0 + v ! 1, 256 * v ! 2 + v ! 3], True, rest)
      | None \<Rightarrow>
          (case read_separator CHR '':'' i (read_number 16 (Some 4) True 65536) s of
             Some (g, rest) \<Rightarrow> (let (gs, ipv4, rest') = read_groups k (i + 1) rest in (g # gs, ipv4, rest'))
           | None \<Rightarrow> ([], False, s)))"

definition read_ipv6_addr :: "string \<Rightarrow> (nat list \<times> string) option" where
  "read_ipv6_addr s =
     (let (head, head_ipv4, rest) = read_groups 8 0 s
      in if length head = 8 then Some (head, rest)
         else if head_ipv4 then None
         else Option.bind (read_given_char CHR '':'' rest) (\<lambda>rest.
              Option.bind (read_given_char CHR '':'' rest) (\<lambda>rest.
              let (tail, _, rest) = read_groups (8 - (length head + 1)) 0 rest
              in Some (head @ replicate (8 - length head - length tail) 0 @ tail, rest))))"

definition read_port :: "string \<Rightarrow> (nat \<times> string) option" where
  "read_port s = Option.bind (read_given_char CHR '':'' s) (read_number 10 None True 65536)"

definition read_scope_id :: "string \<Rightarrow> (nat \<times> string) option" where
  "read_scope_id s = Option.bind (read_given_char CHR ''%'' s) (read_number 10 None True (2 ^ 32))"

definition read_socket_addr_v4 :: "string \<Rightarrow> (SocketAddr \<times> string) option" where
  "read_socket_addr_v4 s =
     Option.bind (read_ipv4_addr s) (\<lambda>(ip, rest). Option.bind (read_port rest) (\<lambda>(port, rest'). Some (V4 ip port, rest')))"

definition read_socket_addr_v6 :: "string \<Rightarrow> (SocketAddr \<times> string) option" where
  "read_socket_addr_v6 s =
     Option.bind (read_given_char CHR ''['' s) (\<lambda>s.
     Option.bind (read_ipv6_addr s) (\<lambda>(ip, s).
     let (scope_id, s) = (case read_scope_id s of Some r \<Rightarrow> r | None \<Rightarrow> (0, s))
     in Option.bind (read_given_char CHR '']'' s) (\<lambda>s.
        Option.bind (read_port s) (\<lambda>(port, s). Some (V6 ip scope_id port, s)))))"

definition SocketAddr_from_str :: "string \<Rightarrow> (string, SocketAddr) result" where
  "SocketAddr_from_str s =
     (case (case read_socket_addr_v4 s of Some r \<Rightarrow> Some r | None \<Rightarrow> read_socket_addr_v6 s) of
        Some (addr, []) \<Rightarrow> Inr addr
      | _ \<Rightarrow> Inl ''invalid socket address syntax'')"

subsection \<open>Properties\<close>

lemma to_digit_10: "to_digit 10 c = (if is_digit c then Some (digit_value c) else None)"
  by (auto simp: to_digit_def is_digit_def digit_value_def Let_def)

lemma show_nat_no_zero: "0 < n \<Longrightarrow> hd (show_nat n) \<noteq> CHR ''0''"
proof (induction n rule: show_nat.induct)
  case (1 n)
  have "digit_char n \<noteq> CHR ''0''" if "n < 10"
    using that "1.prems" digit_char_props(2) [of n] by (auto simp: digit_value_def)
  with 1 show ?case by (cases "n < 10") (simp_all add: show_nat.simps [of n])
qed

lemma show_nat_short: "n < 10 ^ k \<Longrightarrow> 0 < k \<Longrightarrow> length (show_nat n) \<le> k"
proof (induction n arbitrary: k rule: show_nat.induct)
  case (1 n)
  show ?case
  proof (cases "n < 10")
    case False
    obtain j where j: "k = Suc j" using "1.prems"(2) by (cases k) auto
    with False "1.prems"(1) have "0 < j" by (cases j) auto
    note j = j this
    with "1.prems" have "n div 10 < 10 ^ j" by (simp add: less_mult_imp_div_less mult.commute)
    with "1.IH" [OF False this j(2)] False j(1) show ?thesis by (simp add: show_nat.simps [of n])
  qed (use "1.prems" in \<open>simp add: show_nat.simps [of n]\<close>)
qed

lemma read_shown:
  assumes "n < B" "rest = [] \<or> \<not> is_digit (hd rest)" "\<forall>m. max_digits = Some m \<longrightarrow> n < 10 ^ m \<and> 0 < m"
  shows "read_number 10 max_digits z B (show_nat n @ rest) = Some (n, rest)"
proof -
  have d: "list_all is_digit (show_nat n)" by (rule show_nat_digits)
  have t: "takeWhile (\<lambda>c. to_digit 10 c \<noteq> None) (show_nat n @ rest) = show_nat n"
    using d assms(2) by (cases rest) (auto simp: to_digit_10 list_all_iff takeWhile_append)
  have "foldl (\<lambda>a c. 10 * a + the (to_digit 10 c)) 0 (show_nat n) = decimal_value (show_nat n)"
    unfolding decimal_value_def by (rule foldl_cong) (use d in \<open>auto simp: to_digit_10 list_all_iff\<close>)
  moreover have "\<not> (hd (show_nat n) = CHR ''0'' \<and> 1 < length (show_nat n))"
    using show_nat_no_zero [of n] by (cases "n = 0") (auto simp: show_nat.simps [of 0])
  moreover have "\<forall>m. max_digits = Some m \<longrightarrow> length (show_nat n) \<le> m" using assms(3) show_nat_short by blast
  ultimately show ?thesis using assms(1) unfolding read_number_def Let_def t by (auto simp: not_less split: option.splits)
qed

lemma read_ipv4_octets: "read_ipv4_addr s = read_octets (Suc (Suc (Suc (Suc 0)))) 0 s"
  by (simp add: read_ipv4_addr_def numeral_eq_Suc del: read_octets.simps)

text \<open>Printing and reading an IPv4 socket address gives the address back.\<close>

lemma socket_addr_v4_roundtrip:
  assumes "a < 256" "b < 256" "c < 256" "d < 256" "port < 65536"
  shows "SocketAddr_from_str (show_nat a @ ''.'' @ show_nat b @ ''.'' @ show_nat c @ ''.'' @ show_nat d @ '':'' @ show_nat port)
    = Inr (V4 [a, b, c, d] port)"
proof -
  have r: "read_number 10 (Some 3) False 256 (show_nat n @ x # rest) = Some (n, x # rest)" if "n < 256" "\<not> is_digit x" for n x rest
    by (rule read_shown) (use that in auto)
  have p: "read_number 10 None True 65536 (show_nat port) = Some (port, [])" using read_shown [of port 65536 "[]" None True] assms(5) by simp
  have x: "\<not> is_digit CHR ''.''" "\<not> is_digit CHR '':''" by (simp_all add: is_digit_def)
  show ?thesis using assms x
    by (simp add: SocketAddr_from_str_def read_socket_addr_v4_def read_ipv4_octets read_separator_def
        read_given_char_def read_port_def r p)
qed

text \<open>A host name is no socket address.\<close>

lemma socket_addr_not_name:
  assumes "\<not> is_digit c" "c \<noteq> CHR ''[''"
  shows "SocketAddr_from_str (c # cs) = Inl ''invalid socket address syntax''"
  using assms
  by (simp add: SocketAddr_from_str_def read_socket_addr_v4_def read_socket_addr_v6_def read_ipv4_octets
      read_separator_def read_number_def to_digit_10 read_given_char_def)

end
