(* ===== verification/Startup.thy ===== *)
theory Startup
  imports Admin Jwks_Refresh Tracing_Init Socket_Addr
begin

text \<open>
  The start of the control plane (\<open>controlplane/src/startup.rs\<close>): the configuration is
  loaded, every component is built in turn, and the servers are set up; then the process
  runs until the first of its servers ends. Ending the process is a value: \<open>fatal_stderr\<close>,
  \<open>fatal_log\<close> or a panic.
\<close>

datatype exit = FatalStderr string | FatalLog string string | Panic

record ('t, 's, 'k, 'c, 'e, 'p, 'x, 'v, 'n) startup_env =
  su_admin :: "('t, 's) admin_env"
  env_var :: "string \<Rightarrow> string option"
  su_otel :: "('x, 'v) otel_env"
  info_enabled :: "string \<Rightarrow> bool"
  su_jwt :: "'k jwt"
  su_fetch :: "string \<Rightarrow> (string, JwksDocument) result"
  su_notify :: "'n notify"
  su_clock :: nat
  su_open_client :: "string \<Rightarrow> (string, 'c) result"
  su_connect :: "'e \<Rightarrow> 'c \<Rightarrow> 'e \<times> bool"
  su_ping_conn :: "'e \<Rightarrow> 'e \<times> bool"
  su_prometheus :: "'p prometheus"
  su_now :: int
  tcp_bind :: "string \<Rightarrow> (string, unit) result"

fun AuthError_to_string :: "AuthError \<Rightarrow> string" where
  "AuthError_to_string (JwksFetch e) = ''jwks fetch error: '' @ e"
| "AuthError_to_string e = error_code e"

fun MetricsError_to_string :: "MetricsError \<Rightarrow> string" where
  "MetricsError_to_string (Registration e) = ''prometheus registration error: '' @ e"
| "MetricsError_to_string (Encoding e) = ''metrics encoding error: '' @ e"

fun EnvoyGenError_to_string :: "EnvoyGenError \<Rightarrow> string" where
  "EnvoyGenError_to_string (Envoy_Gen.InvalidEndpoint e) = ''invalid endpoint format '' @ quoted e @ '': expected host:port''"
| "EnvoyGenError_to_string (Serialization e) = ''YAML serialization error: '' @ e"

definition fatal_log :: "string \<Rightarrow> ('x \<Rightarrow> string) \<Rightarrow> ('x, 'a) result \<Rightarrow> (exit, 'a) result" where
  "fatal_log message to_text r = (case r of Inl e \<Rightarrow> Inl (FatalLog message (to_text e)) | Inr a \<Rightarrow> Inr a)"

text \<open>The registry, and its refresh loops as they are spawned.\<close>

definition init_jwks ::
  "('t, 's, 'k, 'c, 'e, 'p, 'x, 'v, 'n) startup_env \<Rightarrow> GatewayConfig
    \<Rightarrow> (exit, 'k JwksCacheRegistry \<times> (string \<times> ('k, 'n) RefreshSys option) list) result" where
  "init_jwks S config =
     and_then (fatal_log ''JWKS initial fetch failed'' AuthError_to_string
       (JwksCacheRegistry_from_config (su_jwt S) (su_fetch S) (su_clock S) (gc_auth config))) (\<lambda>registry.
     Inr (registry, spawn_all_refresh_loops (su_notify S) (su_clock S) registry))"

text \<open>The argument of the log line, a \<open>ping\<close>, is evaluated when the line is enabled.\<close>

definition init_rate_limiter ::
  "('t, 's, 'k, 'c, 'e, 'p, 'x, 'v, 'n) startup_env \<Rightarrow> GatewayConfig \<Rightarrow> 'e \<Rightarrow> (exit, 'e \<times> 'c RateLimiter) result" where
  "init_rate_limiter S config e =
     (case RateLimiter_from_config (su_open_client S) (su_connect S) (gc_rate_limits config) e of
        None \<Rightarrow> Inl Panic
      | Some (e1, limiter) \<Rightarrow>
          if info_enabled S (env_filter (su_otel S))
          then (case ping (su_ping_conn S) (su_connect S) limiter e1 of (limiter', e2, _) \<Rightarrow> Inr (e2, limiter'))
          else Inr (e1, limiter))"

definition init_metrics :: "('t, 's, 'k, 'c, 'e, 'p, 'x, 'v, 'n) startup_env \<Rightarrow> (exit, MetricsRegistry) result" where
  "init_metrics S =
     map_sum (\<lambda>x. x) snd
       (fatal_log ''failed to create metrics registry'' MetricsError_to_string (MetricsRegistry_new (su_prometheus S)))"

definition init_plugins :: "('t, 's, 'k, 'c, 'e, 'p, 'x, 'v, 'n) startup_env \<Rightarrow> GatewayConfig \<Rightarrow> (exit, PluginEngine option) result" where
  "init_plugins S config =
     map_sum (\<lambda>x. x) Some
       (fatal_log ''failed to initialize plugin engine'' PluginError_to_string
         (PluginEngine_from_config (plugins_env (su_admin S)) config))"

text \<open>The second result is the shared metrics registry afterwards.\<close>

definition init_xds ::
  "('t, 's, 'k, 'c, 'e, 'p, 'x, 'v, 'n) startup_env \<Rightarrow> GatewayConfig \<Rightarrow> MetricsRegistry
    \<Rightarrow> (exit, XdsControlPlane option \<times> MetricsRegistry) result" where
  "init_xds S config metrics =
     (if xc_enabled (gc_xds config)
      then map_sum (\<lambda>x. x) (\<lambda>cp. (Some cp, xp_metrics cp))
        (fatal_log ''failed to initialize xDS control plane'' ResourceError_to_string
          (XdsControlPlane_new (xds_encoder (su_admin S)) config metrics))
      else Inr (None, metrics))"

definition write_envoy_config ::
  "('t, 's, 'k, 'c, 'e, 'p, 'x, 'v, 'n) startup_env \<Rightarrow> GatewayConfig \<Rightarrow> string \<Rightarrow> (string \<rightharpoonup> string)
    \<Rightarrow> (exit, string \<rightharpoonup> string) result" where
  "write_envoy_config S config envoy_path files =
     (case generate_envoy_config (yaml_to_value (su_admin S)) (yaml_to_string (su_admin S)) config of
        None \<Rightarrow> Inl Panic
      | Some generated \<Rightarrow>
          and_then (fatal_log ''failed to generate envoy config'' EnvoyGenError_to_string generated) (\<lambda>envoy_yaml.
          and_then (fatal_log (''failed to write envoy config to '' @ envoy_path) (\<lambda>e. e)
              (fs_write (su_admin S) envoy_path envoy_yaml)) (\<lambda>_.
          Inr (files(envoy_path \<mapsto> envoy_yaml)))))"

definition read_config :: "('t, 's, 'k, 'c, 'e, 'p, 'x, 'v, 'n) startup_env \<Rightarrow> string \<Rightarrow> (exit, string \<times> GatewayConfig) result" where
  "read_config S config_path =
     (case fs_read (su_admin S) config_path of
        Inl error \<Rightarrow> Inl (FatalStderr (''failed to read '' @ config_path @ '': '' @ error))
      | Inr raw_yaml \<Rightarrow>
          (case load_config_from_str (yaml_from_str (su_admin S)) (url_ok (su_admin S)) (from_utf8_lossy raw_yaml) of
             Inl errors \<Rightarrow> Inl (FatalStderr (''config validation failed: '' @ ConfigErrors_to_string errors))
           | Inr config \<Rightarrow> Inr (raw_yaml, config)))"

text \<open>The components, between tracing and \<open>serve\<close>.\<close>

record ('c, 'k, 'e, 'n) Started =
  sd_world :: "('c, 'k) AdminWorld"
  sd_redis :: 'e
  sd_loops :: "(string \<times> ('k, 'n) RefreshSys option) list"

definition build_components ::
  "('t, 's, 'k, 'c, 'e, 'p, 'x, 'v, 'n) startup_env \<Rightarrow> string \<Rightarrow> string \<Rightarrow> GatewayConfig \<Rightarrow> (string \<rightharpoonup> string) \<Rightarrow> 'e
    \<Rightarrow> (exit, ('c, 'k, 'e, 'n) Started) result" where
  "build_components S config_path raw_yaml cfg files e =
     (let envoy_config_path = env_var S ''ENVOY_CONFIG_PATH''
      in and_then (case envoy_config_path of
             Some envoy_path \<Rightarrow> write_envoy_config S cfg envoy_path files | None \<Rightarrow> Inr files) (\<lambda>files'.
         and_then (init_jwks S cfg) (\<lambda>(jwks_registry, loops).
         and_then (init_rate_limiter S cfg e) (\<lambda>(e', rate_limiter).
         and_then (init_metrics S) (\<lambda>metrics0.
         and_then (init_plugins S cfg) (\<lambda>plugin_engine.
         and_then (init_xds S cfg metrics0) (\<lambda>(xds, metrics).
         case build_state (sha256 (su_admin S)) (su_now S) cfg raw_yaml config_path envoy_config_path
                jwks_registry rate_limiter metrics plugin_engine xds of
           None \<Rightarrow> Inl Panic
         | Some st \<Rightarrow> Inr \<lparr>sd_world = \<lparr>aw_app = st, aw_files = files'\<rparr>, sd_redis = e', sd_loops = loops\<rparr>)))))))"

subsection \<open>Servers\<close>

datatype Server = AdminApi | ExtAuthzService | XdsService | ExtProcService

definition parse_socket_addr :: "string \<Rightarrow> string \<Rightarrow> (exit, SocketAddr) result" where
  "parse_socket_addr v label = fatal_log (''invalid '' @ label @ '' listen address'') (\<lambda>e. e) (SocketAddr_from_str v)"

text \<open>The servers that \<open>serve\<close> spawns, in order, or the exit on the way.\<close>

definition serve ::
  "('t, 's, 'k, 'c, 'e, 'p, 'x, 'v, 'n) startup_env \<Rightarrow> ('c, 'k) AppState \<Rightarrow> (exit, (Server \<times> string) list) result" where
  "serve S st =
     (let cfg = cs_config (as_config_state st);
          admin_addr = gs_admin_address (gc_gateway cfg);
          xds_addr = xc_listen_address (gc_xds cfg);
          ext_proc_addr = ep_listen_address (gc_ext_proc cfg)
      in and_then (fatal_log ''failed to bind admin API'' (\<lambda>e. e) (tcp_bind S admin_addr)) (\<lambda>_.
         and_then (case gs_extauthz_address (gc_gateway cfg) of
             Some addr \<Rightarrow> and_then (fatal_log ''failed to bind ext_authz service'' (\<lambda>e. e) (tcp_bind S addr)) (\<lambda>_.
               Inr [(ExtAuthzService, addr)])
           | None \<Rightarrow> Inr []) (\<lambda>authz.
         and_then (case as_xds st of
             Some _ \<Rightarrow> and_then (parse_socket_addr xds_addr ''xDS'') (\<lambda>_. Inr [(XdsService, xds_addr)])
           | None \<Rightarrow> Inr []) (\<lambda>xds.
         and_then (if ep_enabled (gc_ext_proc cfg)
             then and_then (parse_socket_addr ext_proc_addr ''ext_proc'') (\<lambda>_. Inr [(ExtProcService, ext_proc_addr)])
             else Inr []) (\<lambda>ext_proc.
         Inr ((AdminApi, admin_addr) # authz @ xds @ ext_proc))))))"

text \<open>\<open>run\<close> up to the wait for the servers, from the tracing globals \<open>tg\<close>.\<close>

definition boot ::
  "('t, 's, 'k, 'c, 'e, 'p, 'x, 'v, 'n) startup_env \<Rightarrow> 'v Tracing \<Rightarrow> (string \<rightharpoonup> string) \<Rightarrow> 'e
    \<Rightarrow> 'v Tracing \<times> (exit, ('c, 'k, 'e, 'n) Started \<times> (Server \<times> string) list) result" where
  "boot S tg files e =
     (let config_path = (case env_var S ''GATEWAY_CONFIG'' of Some p \<Rightarrow> p | None \<Rightarrow> ''configs/gateway.yaml'')
      in case read_config S config_path of
           Inl x \<Rightarrow> (tg, Inl x)
         | Inr (raw_yaml, cfg) \<Rightarrow>
             (case init_tracing (su_otel S) (oc_tracing (gc_observability cfg)) tg of
                (tg', Inl error) \<Rightarrow> (tg', Inl (FatalStderr (''failed to initialize tracing: '' @ TracingInitError_to_string error)))
              | (tg', Inr _) \<Rightarrow>
                  (tg', and_then (build_components S config_path raw_yaml cfg files e) (\<lambda>sd.
                        and_then (serve S (aw_app (sd_world sd))) (\<lambda>servers. Inr (sd, servers))))))"

text \<open>How the task of a server ends: its future returns, with or without an error, or panics.\<close>

datatype ServerEnd = ServerOk | ServerErr string | ServerPanic string

fun server_error :: "Server \<Rightarrow> string" where
  "server_error AdminApi = ''admin API server error: ''"
| "server_error ExtAuthzService = ''ext_authz server error: ''"
| "server_error XdsService = ''xDS server error: ''"
| "server_error ExtProcService = ''ext_proc server error: ''"

fun join_next :: "Server \<times> ServerEnd \<Rightarrow> (exit, unit) result" where
  "join_next (server, ServerErr error) = Inl (FatalLog ''server exited with error'' (server_error server @ error))"
| "join_next (server, ServerPanic error) = Inl (FatalLog ''server task panicked'' error)"
| "join_next (server, ServerOk) = Inr ()"

datatype Outcome = Serving "(Server \<times> string) list" | Exited exit | Returned

text \<open>\<open>first_end\<close> tells which of the servers ends first and how, and is \<open>None\<close> as long as all run.
  The main function is \<open>run\<close>.\<close>

definition run ::
  "('t, 's, 'k, 'c, 'e, 'p, 'x, 'v, 'n) startup_env \<Rightarrow> ((Server \<times> string) list \<Rightarrow> (Server \<times> ServerEnd) option)
    \<Rightarrow> 'v Tracing \<Rightarrow> (string \<rightharpoonup> string) \<Rightarrow> 'e \<Rightarrow> 'v Tracing \<times> Outcome" where
  "run S first_end tg files e =
     (case boot S tg files e of
        (tg', Inl x) \<Rightarrow> (tg', Exited x)
      | (tg', Inr (sd, servers)) \<Rightarrow>
          (case first_end servers of
             None \<Rightarrow> (tg', Serving servers)
           | Some ended \<Rightarrow>
               (case join_next ended of
                  Inl x \<Rightarrow> (tg', Exited x)
                | Inr _ \<Rightarrow> (shutdown_tracing tg', Returned))))"

end
