(* ===== verification/Jwks_Refresh_Correct.thy ===== *)
theory Jwks_Refresh_Correct
  imports Jwks_Refresh
begin

text \<open>
  The refresh protocol: what an answer of \<open>validate_with_refresh\<close> is, that no request waits
  for ever, when a retry sees the refresh it asked for, and when it does not.
\<close>

subsection \<open>Notify\<close>

lemma notified_spec:
  assumes "notify_spec N waiters permit" "nt_notified N t n = (n', ready)"
  shows "ready \<longleftrightarrow> permit n" "\<not> permit n'" "waiters n' = (if permit n then waiters n else waiters n @ [t])"
  using assms by (auto simp: notify_spec_def Let_def split: prod.splits)

lemma notify_one_spec:
  assumes "notify_spec N waiters permit" "nt_notify_one N n = (n', woken)"
  shows "waiters n = [] \<Longrightarrow> woken = None \<and> permit n' \<and> waiters n' = []"
    "waiters n = t # ts \<Longrightarrow> woken = Some t \<and> permit n' = permit n \<and> waiters n' = ts"
proof -
  have "\<forall>n. let (n', woken) = nt_notify_one N n in case waiters n of
      [] \<Rightarrow> woken = None \<and> permit n' \<and> waiters n' = []
    | t # ts \<Rightarrow> woken = Some t \<and> permit n' = permit n \<and> waiters n' = ts"
    using assms(1) by (simp add: notify_spec_def)
  from this [rule_format, of n] assms(2) show
    "waiters n = [] \<Longrightarrow> woken = None \<and> permit n' \<and> waiters n' = []"
    "waiters n = t # ts \<Longrightarrow> woken = Some t \<and> permit n' = permit n \<and> waiters n' = ts" by simp_all
qed

lemma notify_waiters_spec:
  assumes "notify_spec N waiters permit" "nt_notify_waiters N n = (n', woken)"
  shows "woken = waiters n" "waiters n' = []" "permit n' = permit n"
  using assms by (auto simp: notify_spec_def Let_def split: prod.splits)

lemma notify_drop_spec:
  assumes "notify_spec N waiters permit"
  shows "waiters (nt_drop N t n) = removeAll t (waiters n)" "permit (nt_drop N t n) = permit n"
  using assms by (auto simp: notify_spec_def)

text \<open>A queue with a permit behaves as documented.\<close>

definition queue_notify :: "(task list \<times> bool) notify" where
  "queue_notify =
     \<lparr>nt_new = ([], False),
      nt_notified = \<lambda>t (ws, p). if p then ((ws, False), True) else ((ws @ [t], False), False),
      nt_notify_one = \<lambda>(ws, p). case ws of [] \<Rightarrow> (([], True), None) | t # ts \<Rightarrow> ((ts, p), Some t),
      nt_notify_waiters = \<lambda>(ws, p). (([], p), ws),
      nt_drop = \<lambda>t (ws, p). (removeAll t ws, p)\<rparr>"

lemma queue_notify_spec: "notify_spec queue_notify fst snd"
  by (auto simp: notify_spec_def queue_notify_def split: list.splits)

subsection \<open>What waking changes\<close>

lemma set_req_fields [simp]:
  "sy_reqs (set_req i a pc s) = (sy_reqs s)(i \<mapsto> (a, pc))" "sy_cache (set_req i a pc s) = sy_cache s"
  "sy_notify (set_req i a pc s) = sy_notify s" "sy_loop (set_req i a pc s) = sy_loop s" "sy_tick (set_req i a pc s) = sy_tick s"
  "sy_now (set_req i a pc s) = sy_now s" "sy_fetches (set_req i a pc s) = sy_fetches s"
  by (simp_all add: set_req_def)

text \<open>Waking turns waiting requests into woken ones and changes no other request.\<close>

definition rewoken :: "('k, 'n) RefreshSys \<Rightarrow> ('k, 'n) RefreshSys \<Rightarrow> bool" where
  "rewoken s s' \<longleftrightarrow> sy_cache s' = sy_cache s \<and> sy_now s' = sy_now s \<and> sy_fetches s' = sy_fetches s \<and> sy_tick s' = sy_tick s
     \<and> (\<forall>i. sy_reqs s' i = sy_reqs s i
          \<or> (\<exists>a d k. sy_reqs s i = Some (a, ReqWaiting d) \<and> sy_reqs s' i = Some (a, ReqWoken k)))"

lemma rewoken_refl [simp]: "rewoken s s"
  by (simp add: rewoken_def)

lemma rewoken_trans: "rewoken s s' \<Longrightarrow> rewoken s' s'' \<Longrightarrow> rewoken s s''"
  unfolding rewoken_def
proof (intro conjI allI; (elim conjE)?)
  fix i
  assume a: "\<forall>i. sy_reqs s' i = sy_reqs s i \<or> (\<exists>a d k. sy_reqs s i = Some (a, ReqWaiting d) \<and> sy_reqs s' i = Some (a, ReqWoken k))"
    and b: "\<forall>i. sy_reqs s'' i = sy_reqs s' i \<or> (\<exists>a d k. sy_reqs s' i = Some (a, ReqWaiting d) \<and> sy_reqs s'' i = Some (a, ReqWoken k))"
  from a [rule_format, of i] b [rule_format, of i]
  show "sy_reqs s'' i = sy_reqs s i \<or> (\<exists>a d k. sy_reqs s i = Some (a, ReqWaiting d) \<and> sy_reqs s'' i = Some (a, ReqWoken k))"
    by (metis ReqPc.distinct option.inject prod.inject)
qed simp_all

lemma rewoken_wake: "rewoken s (wake k t s)"
  by (cases t) (auto simp: rewoken_def set_req_def split: option.splits ReqPc.splits)

lemma rewoken_fold_wake: "rewoken s (fold (wake k) ts s)"
proof (induction ts arbitrary: s)
  case (Cons t ts)
  show ?case using rewoken_trans [OF rewoken_wake Cons.IH] by simp
qed simp

lemma rewoken_notify [simp]: "rewoken s (s\<lparr>sy_notify := n\<rparr>)" "rewoken s (s\<lparr>sy_loop := l\<rparr>)"
  by (simp_all add: rewoken_def)

lemma rewoken_trigger: "rewoken s (trigger_refresh N s)"
proof -
  have "rewoken s (wake ByOne t (s\<lparr>sy_notify := n\<rparr>))" for t n
    by (rule rewoken_trans [OF rewoken_notify(1) rewoken_wake])
  then show ?thesis by (simp add: trigger_refresh_def Let_def split: prod.splits option.splits)
qed

lemma rewoken_notify_all: "rewoken s (notify_all N s)"
proof -
  have "rewoken s (fold (wake ByAll) ts (s\<lparr>sy_notify := n\<rparr>))" for ts n
    by (rule rewoken_trans [OF rewoken_notify(1) rewoken_fold_wake])
  then show ?thesis by (simp add: notify_all_def split: prod.splits)
qed

lemma rewokenD:
  assumes "rewoken s s'"
  shows "sy_cache s' = sy_cache s" "sy_now s' = sy_now s" "sy_fetches s' = sy_fetches s" "sy_tick s' = sy_tick s"
    "sy_reqs s' i = sy_reqs s i \<or> (\<exists>a d k. sy_reqs s i = Some (a, ReqWaiting d) \<and> sy_reqs s' i = Some (a, ReqWoken k))"
  using assms by (auto simp: rewoken_def)

lemmas waking_fields = rewokenD(1-4) [OF rewoken_trigger] rewokenD(1-4) [OF rewoken_notify_all]

subsection \<open>Deadlines\<close>

definition refresh_inv :: "('k, 'n) RefreshSys \<Rightarrow> bool" where
  "refresh_inv s \<longleftrightarrow> (\<forall>i a d. sy_reqs s i = Some (a, ReqWaiting d) \<longrightarrow> d \<le> sy_now s + WAIT_LIMIT)"

lemma refresh_inv_rewoken: "refresh_inv s \<Longrightarrow> rewoken s s' \<Longrightarrow> refresh_inv s'"
  unfolding refresh_inv_def
proof (intro allI impI)
  fix i a d
  assume r: "rewoken s s'" and s: "sy_reqs s' i = Some (a, ReqWaiting d)"
    and b: "\<forall>i a d. sy_reqs s i = Some (a, ReqWaiting d) \<longrightarrow> d \<le> sy_now s + WAIT_LIMIT"
  from rewokenD(5) [OF r, of i] s have "sy_reqs s i = Some (a, ReqWaiting d)" by auto
  with b rewokenD(2) [OF r] show "d \<le> sy_now s' + WAIT_LIMIT" by simp
qed

lemma refresh_inv_set:
  "refresh_inv s \<Longrightarrow> (\<And>d. pc = ReqWaiting d \<Longrightarrow> d \<le> sy_now s + WAIT_LIMIT) \<Longrightarrow> refresh_inv (set_req i a pc s)"
  by (auto simp: refresh_inv_def set_req_def)

lemma refresh_inv_frame:
  "refresh_inv s \<Longrightarrow> refresh_inv (s\<lparr>sy_notify := n\<rparr>)" "refresh_inv s \<Longrightarrow> refresh_inv (s\<lparr>sy_loop := l\<rparr>)"
  "refresh_inv s \<Longrightarrow> refresh_inv (start_fetch_on_tick s)" "refresh_inv s \<Longrightarrow> refresh_inv (stop_waiting N i s)"
  "refresh_inv s \<Longrightarrow> refresh_inv (loop_store J fetch s)" "refresh_inv s \<Longrightarrow> refresh_inv (loop_select N s)"
  by (simp_all add: refresh_inv_def start_fetch_on_tick_def stop_waiting_def loop_store_def loop_select_def split: prod.splits)

lemmas refresh_inv_wake = refresh_inv_rewoken [OF _ rewoken_trigger] refresh_inv_rewoken [OF _ rewoken_notify_all]

lemma refresh_inv_loop_step: "loop_step J N s s' \<Longrightarrow> refresh_inv s \<Longrightarrow> refresh_inv s'"
  by (induction rule: loop_step.induct) (auto intro!: refresh_inv_frame refresh_inv_wake)

lemma refresh_inv_req_step: "req_step J N i s s' \<Longrightarrow> refresh_inv s \<Longrightarrow> refresh_inv s'"
proof (induction rule: req_step.induct)
  case (trigger s a)
  then show ?case by (intro refresh_inv_wake refresh_inv_set) simp_all
qed (auto simp: check_stale_def first_validation_def wait_for_refresh_def intro!: refresh_inv_frame refresh_inv_set
    split: prod.splits sum.splits AuthError.splits if_splits)

lemma refresh_inv_forget: "refresh_inv s \<Longrightarrow> refresh_inv (s\<lparr>sy_reqs := (sy_reqs s)(i := None)\<rparr>)"
  by (auto simp: refresh_inv_def)

lemma refresh_inv_drop: "refresh_inv s \<Longrightarrow> refresh_inv (drop_request N i s)"
  using refresh_inv_forget [of s i]
  by (auto simp: drop_request_def Let_def intro!: refresh_inv_frame refresh_inv_wake
      split: option.splits ReqPc.splits Wake.splits)

lemma refresh_reach_inv: "refresh_reach J N s \<Longrightarrow> refresh_inv s"
proof (induction rule: refresh_reach.induct)
  case (spawned now cache s)
  then show ?case by (auto simp: spawn_refresh_loop_def refresh_inv_def split: if_splits)
next
  case (stepped s s')
  from stepped.hyps(2) stepped.IH show ?case
  proof (cases rule: refresh_step.cases)
    case (time t)
    with stepped.IH show ?thesis by (force simp: refresh_inv_def)
  qed (auto intro: refresh_inv_loop_step refresh_inv_req_step refresh_inv_set refresh_inv_drop)
qed

subsection \<open>Progress\<close>

fun req_rank :: "ReqPc \<Rightarrow> nat" where
  "req_rank ReqStart = 6"
| "req_rank ReqFresh = 5"
| "req_rank ReqUnknown = 4"
| "req_rank ReqTriggered = 3"
| "req_rank (ReqWaiting _) = 2"
| "req_rank (ReqWoken _) = 1"
| "req_rank (ReqDone _) = 0"

text \<open>Steps that request \<open>i\<close> still has to make; none when it is answered or gone.\<close>

definition steps_left :: "nat \<Rightarrow> ('k, 'n) RefreshSys \<Rightarrow> nat" where
  "steps_left i s = (case sy_reqs s i of Some (_, pc) \<Rightarrow> req_rank pc | None \<Rightarrow> 0)"

lemma steps_left_rewoken: "rewoken s s' \<Longrightarrow> steps_left i s' \<le> steps_left i s"
  using rewokenD(5) [of s s' i] by (auto simp: steps_left_def)

lemma steps_left_set: "steps_left i (set_req i a pc s) = req_rank pc" "i \<noteq> j \<Longrightarrow> steps_left i (set_req j a pc s) = steps_left i s"
  by (simp_all add: steps_left_def set_req_def)

lemma steps_left_frame [simp]:
  "steps_left i (s\<lparr>sy_notify := n\<rparr>) = steps_left i s" "steps_left i (s\<lparr>sy_loop := l\<rparr>) = steps_left i s"
  "steps_left i (start_fetch_on_tick s) = steps_left i s" "steps_left i (stop_waiting N j s) = steps_left i s"
  "steps_left i (loop_store J fetch s) = steps_left i s" "steps_left i (s\<lparr>sy_now := t\<rparr>) = steps_left i s"
  "steps_left i (loop_select N s) = steps_left i s"
  by (simp_all add: steps_left_def start_fetch_on_tick_def stop_waiting_def loop_store_def loop_select_def split: prod.splits)

lemma steps_left_trigger: "steps_left i (trigger_refresh N s) \<le> steps_left i s"
  by (rule steps_left_rewoken [OF rewoken_trigger])

lemma steps_left_notify_all: "steps_left i (notify_all N s) \<le> steps_left i s"
  by (rule steps_left_rewoken [OF rewoken_notify_all])

lemma steps_left_loop: "loop_step J N s s' \<Longrightarrow> steps_left i s' \<le> steps_left i s"
proof (induction rule: loop_step.induct)
  case (tick_forwards s)
  show ?case using steps_left_trigger [of i N "start_fetch_on_tick s"] by simp
next
  case (announce s)
  show ?case using steps_left_notify_all [of i N "s\<lparr>sy_loop := LoopTop\<rparr>"] by simp
qed simp_all

lemma steps_left_own: "req_step J N i s s' \<Longrightarrow> steps_left i s' < steps_left i s"
proof (induction rule: req_step.induct)
  case (trigger s a)
  have "steps_left i (trigger_refresh N (set_req i a ReqTriggered s)) \<le> 3"
    using steps_left_trigger [of i N "set_req i a ReqTriggered s"] by (simp add: steps_left_set)
  with trigger show ?case by (simp add: steps_left_def)
qed (auto simp: check_stale_def first_validation_def wait_for_refresh_def steps_left_def set_req_def stop_waiting_def
    split: sum.splits AuthError.splits prod.splits)

lemma steps_left_other: "req_step J N j s s' \<Longrightarrow> i \<noteq> j \<Longrightarrow> steps_left i s' \<le> steps_left i s"
proof (induction rule: req_step.induct)
  case (trigger s a)
  with steps_left_trigger [of i N "set_req j a ReqTriggered s"] show ?case by (simp add: steps_left_set)
qed (auto simp: check_stale_def first_validation_def wait_for_refresh_def steps_left_set split: prod.splits)

lemma steps_left_drop: "steps_left i (drop_request N j s) \<le> steps_left i s"
proof -
  let ?s = "s\<lparr>sy_reqs := (sy_reqs s)(j := None)\<rparr>"
  have "steps_left i ?s \<le> steps_left i s" by (simp add: steps_left_def)
  moreover from this have "steps_left i (trigger_refresh N ?s) \<le> steps_left i s"
    using steps_left_trigger [of i N ?s] by linarith
  ultimately show ?thesis
    by (auto simp: drop_request_def Let_def split: option.splits ReqPc.splits Wake.splits)
qed

lemma steps_left_step:
  assumes "refresh_step J N s s'" "sy_reqs s i \<noteq> None"
  shows "steps_left i s' \<le> steps_left i s"
  using assms
proof (cases rule: refresh_step.cases)
  case (by_request j)
  then show ?thesis using steps_left_own [of J N j s s'] steps_left_other [of J N j s s' i] by (cases "i = j") auto
next
  case (arrives j a)
  with assms(2) show ?thesis by (cases "i = j") (auto simp: steps_left_set)
qed (auto simp: steps_left_loop steps_left_drop)

text \<open>C20. No request waits for ever on a refresh. In every state that the loop, the requests and
  the clock can reach, a request that is not answered can make its next step, except while it
  waits, and then its deadline is at most five seconds away; each of its own steps brings it
  closer to its answer, and no step of another task ever takes it further away, whatever the
  loop and the JWKS endpoint do.\<close>

theorem refresh_wait_terminates:
  assumes "refresh_reach J N s" "sy_reqs s i = Some (a, pc)" "\<forall>r. pc \<noteq> ReqDone r"
  shows "((\<exists>s'. req_step J N i s s') \<or> (\<exists>d. pc = ReqWaiting d \<and> sy_now s < d \<and> d \<le> sy_now s + WAIT_LIMIT))
    \<and> (\<forall>s'. req_step J N i s s' \<longrightarrow> steps_left i s' < steps_left i s)
    \<and> (\<forall>s'. refresh_step J N s s' \<longrightarrow> steps_left i s' \<le> steps_left i s)"
proof (intro conjI allI impI)
  have b: "pc = ReqWaiting d \<Longrightarrow> d \<le> sy_now s + WAIT_LIMIT" for d
    using refresh_reach_inv [OF assms(1)] assms(2) by (auto simp: refresh_inv_def)
  show "(\<exists>s'. req_step J N i s s') \<or> (\<exists>d. pc = ReqWaiting d \<and> sy_now s < d \<and> d \<le> sy_now s + WAIT_LIMIT)"
  proof (cases pc)
    case (ReqWaiting d)
    with assms(2) b show ?thesis using req_step.elapsed [of s i a d J N] by (cases "d \<le> sy_now s") auto
  qed (use assms(2,3) in \<open>auto intro: req_step.intros\<close>)
qed (use assms(2) in \<open>simp_all add: steps_left_own steps_left_step\<close>)

subsection \<open>Waiting for the refresh\<close>

text \<open>Runs of the loop and of one request, with no tick of the interval due.\<close>

inductive lone_run :: "(nat \<Rightarrow> 'k jwt) \<Rightarrow> 'n notify \<Rightarrow> nat \<Rightarrow> ('k, 'n) RefreshSys \<Rightarrow> ('k, 'n) RefreshSys \<Rightarrow> bool" for J N i s where
  here: "lone_run J N i s s"
| loop: "lone_run J N i s s' \<Longrightarrow> loop_step J N s' s'' \<Longrightarrow> sy_now s' < sy_tick s' \<Longrightarrow> lone_run J N i s s''"
| req: "lone_run J N i s s' \<Longrightarrow> req_step J N i s' s'' \<Longrightarrow> lone_run J N i s s''"
| time: "lone_run J N i s s' \<Longrightarrow> sy_now s' \<le> t \<Longrightarrow> lone_run J N i s (s'\<lparr>sy_now := t\<rparr>)"

text \<open>Until the fetch that was asked for has ended, the request is registered or about to be,
  the loop is on its way to the end of that fetch, and no permit is stored.\<close>

definition fetch_pending ::
  "('n \<Rightarrow> task list) \<Rightarrow> ('n \<Rightarrow> bool) \<Rightarrow> nat \<Rightarrow> ReqArgs \<Rightarrow> nat \<Rightarrow> nat \<Rightarrow> ('k, 'n) RefreshSys \<Rightarrow> bool" where
  "fetch_pending waiters permit i a f t0 s \<longleftrightarrow> sy_fetches s = f \<and> \<not> permit (sy_notify s) \<and> sy_loop s \<in> {LoopWoken, LoopFetch}
     \<and> t0 \<le> sy_now s
     \<and> (sy_reqs s i = Some (a, ReqTriggered) \<and> waiters (sy_notify s) = []
      \<or> (\<exists>d. sy_reqs s i = Some (a, ReqWaiting d) \<and> t0 + WAIT_LIMIT \<le> d \<and> waiters (sy_notify s) = [ReqTask i])
      \<or> t0 + WAIT_LIMIT \<le> sy_now s)"

definition fetched_or_late ::
  "('n \<Rightarrow> task list) \<Rightarrow> ('n \<Rightarrow> bool) \<Rightarrow> nat \<Rightarrow> ReqArgs \<Rightarrow> nat \<Rightarrow> nat \<Rightarrow> ('k, 'n) RefreshSys \<Rightarrow> bool" where
  "fetched_or_late waiters permit i a f t0 s \<longleftrightarrow>
     f < sy_fetches s \<or> t0 + WAIT_LIMIT \<le> sy_now s \<or> fetch_pending waiters permit i a f t0 s"

lemma step_grows:
  "loop_step J N s s' \<Longrightarrow> sy_fetches s \<le> sy_fetches s' \<and> sy_now s' = sy_now s"
  "req_step J N i s s' \<Longrightarrow> sy_fetches s' = sy_fetches s \<and> sy_now s' = sy_now s"
  by (auto elim!: loop_step.cases req_step.cases simp: waking_fields loop_select_def start_fetch_on_tick_def loop_store_def check_stale_def
      first_validation_def wait_for_refresh_def set_req_def stop_waiting_def split: prod.splits)

lemma lone_loop:
  assumes "fetched_or_late waiters permit i a f t0 s" "loop_step J N s s'" "sy_now s < sy_tick s"
  shows "fetched_or_late waiters permit i a f t0 s'"
proof (cases "f < sy_fetches s \<or> t0 + WAIT_LIMIT \<le> sy_now s")
  case True
  with step_grows(1) [OF assms(2)] show ?thesis by (auto simp: fetched_or_late_def)
next
  case False
  with assms(1) have "fetch_pending waiters permit i a f t0 s" by (simp add: fetched_or_late_def)
  with assms(2,3) show ?thesis
    by (cases rule: loop_step.cases) (auto simp: fetched_or_late_def fetch_pending_def loop_store_def)
qed

lemma lone_req:
  assumes spec: "notify_spec N waiters permit" and "fetched_or_late waiters permit i a f t0 s" "req_step J N i s s'"
  shows "fetched_or_late waiters permit i a f t0 s'"
proof (cases "f < sy_fetches s \<or> t0 + WAIT_LIMIT \<le> sy_now s")
  case True
  with step_grows(2) [OF assms(3)] show ?thesis by (auto simp: fetched_or_late_def)
next
  case False
  with assms(2) have p: "fetch_pending waiters permit i a f t0 s" by (simp add: fetched_or_late_def)
  from assms(3) show ?thesis
  proof (cases rule: req_step.cases)
    case (wait b)
    with p False have "b = a" "waiters (sy_notify s) = []" "\<not> permit (sy_notify s)" by (auto simp: fetch_pending_def)
    with wait p False notified_spec [OF spec, of "ReqTask i" "sy_notify s"] show ?thesis
      by (auto simp: fetched_or_late_def fetch_pending_def wait_for_refresh_def set_req_def split: prod.splits)
  qed (use p False in \<open>auto simp: fetch_pending_def\<close>)
qed

lemma lone_run_keeps:
  assumes "notify_spec N waiters permit" "fetched_or_late waiters permit i a f t0 s"
  shows "lone_run J N i s s' \<Longrightarrow> fetched_or_late waiters permit i a f t0 s'"
proof (induction rule: lone_run.induct)
  case (time s' t)
  then show ?case by (auto simp: fetched_or_late_def fetch_pending_def)
qed (use assms in \<open>auto intro: lone_loop lone_req\<close>)

text \<open>A retry sees the refresh that it asked for, when no other request interferes: let the loop
  wait, alone, when a request with an unknown key triggers a refresh. However the loop and the
  request then interleave, while no tick is due, the request does not get past its wait within
  five seconds unless a fetch that began after the trigger has ended.\<close>

theorem lone_request_sees_refresh:
  assumes "notify_spec N waiters permit"
    and "sy_loop s = LoopSelect" "waiters (sy_notify s) = [LoopTask]" "\<not> permit (sy_notify s)"
    and "sy_reqs s i = Some (a, ReqUnknown)"
    and "lone_run J N i (trigger_refresh N (set_req i a ReqTriggered s)) s'"
    and "sy_reqs s' i = Some (b, pc)" "pc = ReqWoken k \<or> pc = ReqDone r" "sy_now s' < sy_now s + WAIT_LIMIT"
  shows "sy_fetches s < sy_fetches s'"
proof -
  obtain n woken where n: "nt_notify_one N (sy_notify s) = (n, woken)" by fastforce
  from notify_one_spec(2) [OF assms(1) n assms(3)] have "woken = Some LoopTask" "\<not> permit n" "waiters n = []"
    using assms(4) by auto
  with assms(2) n have "fetched_or_late waiters permit i a (sy_fetches s) (sy_now s) (trigger_refresh N (set_req i a ReqTriggered s))"
    by (simp add: fetched_or_late_def fetch_pending_def trigger_refresh_def set_req_def)
  from lone_run_keeps [OF assms(1) this assms(6)] assms(7-9) show ?thesis
    by (auto simp: fetched_or_late_def fetch_pending_def)
qed

subsection \<open>Refreshes that are not waited for\<close>

lemma trigger_wakes_waiter:
  assumes "notify_spec N waiters permit"
    and "sy_loop s = LoopFetch" "waiters (sy_notify s) = ReqTask j # ws"
    and "sy_reqs s j = Some (a, ReqWaiting d)" "sy_reqs s i = Some (b, ReqUnknown)"
    and "validate_now (J (sy_now s)) a (sy_cache s) = Inl UnknownKeyId"
  shows "\<exists>s1 s2. req_step J N i s s1 \<and> req_step J N j s1 s2 \<and> sy_reqs s2 j = Some (a, ReqDone (Inl UnknownKeyId))
    \<and> sy_loop s2 = LoopFetch \<and> sy_fetches s2 = sy_fetches s"
proof -
  let ?s1 = "trigger_refresh N (set_req i b ReqTriggered s)"
  obtain n woken where n: "nt_notify_one N (sy_notify s) = (n, woken)" by fastforce
  have "i \<noteq> j" using assms(4,5) by auto
  with notify_one_spec(2) [OF assms(1) n assms(3)] n assms(4)
  have s1: "sy_reqs ?s1 j = Some (a, ReqWoken ByOne)" "sy_loop ?s1 = LoopFetch" "sy_cache ?s1 = sy_cache s" "sy_now ?s1 = sy_now s" "sy_fetches ?s1 = sy_fetches s"
    using assms(2) by (auto simp: trigger_refresh_def)
  have "req_step J N i s ?s1" by (rule req_step.trigger [OF assms(5)])
  moreover have "req_step J N j ?s1 (set_req j a (ReqDone (validate_now (J (sy_now ?s1)) a (sy_cache ?s1))) ?s1)" by (rule req_step.retry [OF s1(1)])
  ultimately show ?thesis using s1 assms(6) by (intro exI [of _ ?s1] exI [of _ "set_req j a (ReqDone (validate_now (J (sy_now ?s1)) a (sy_cache ?s1))) ?s1"] conjI) simp_all
qed

text \<open>C33. Requests that meet an unknown key at the same time turn each other away. While the loop
  fetches and request \<open>j\<close> waits for that fetch, the trigger of another request wakes \<open>j\<close>, not the
  loop: \<open>j\<close> retries on the old keys and is refused, with the fetch still under way.\<close>

theorem refresh_burst_refused:
  assumes "notify_spec N waiters permit" "refresh_reach J N s"
    and "sy_loop s = LoopFetch" "waiters (sy_notify s) = ReqTask j # ws"
    and "sy_reqs s j = Some (a, ReqWaiting d)" "sy_reqs s i = Some (b, ReqUnknown)"
    and "validate_now (J (sy_now s)) a (sy_cache s) = Inl UnknownKeyId"
  shows "\<exists>s1 s2. req_step J N i s s1 \<and> req_step J N j s1 s2 \<and> sy_reqs s2 j = Some (a, ReqDone (Inl UnknownKeyId))
    \<and> sy_loop s2 = LoopFetch \<and> sy_fetches s2 = sy_fetches s"
  using trigger_wakes_waiter [where J = J, OF assms(1,3-7)] .

text \<open>A request that triggers a refresh while the loop is fetching, with nobody waiting, stores a
  permit and takes it back with its own wait: it retries at once on the old keys, and no later
  fetch is asked for.\<close>

theorem refresh_permit_taken_back:
  assumes "notify_spec N waiters permit" "waiters (sy_notify s) = []" "sy_reqs s i = Some (a, ReqUnknown)"
  shows "\<exists>s1 s2 s3. req_step J N i s s1 \<and> req_step J N i s1 s2 \<and> req_step J N i s2 s3
    \<and> sy_reqs s3 i = Some (a, ReqDone (validate_now (J (sy_now s)) a (sy_cache s))) \<and> sy_fetches s3 = sy_fetches s \<and> sy_loop s3 = sy_loop s
    \<and> waiters (sy_notify s3) = [] \<and> \<not> permit (sy_notify s3)"
proof -
  let ?s1 = "trigger_refresh N (set_req i a ReqTriggered s)" and ?s2 = "wait_for_refresh N i a (trigger_refresh N (set_req i a ReqTriggered s))"
  obtain n woken where n: "nt_notify_one N (sy_notify s) = (n, woken)" by fastforce
  note one = notify_one_spec(1) [OF assms(1) n assms(2)]
  obtain n' ready where n': "nt_notified N (ReqTask i) n = (n', ready)" by fastforce
  from notified_spec [OF assms(1) n'] one have two: "ready" "\<not> permit n'" "waiters n' = []" by auto
  have s1: "?s1 = (set_req i a ReqTriggered s)\<lparr>sy_notify := n\<rparr>" using n one by (simp add: trigger_refresh_def set_req_def)
  have s2: "?s2 = set_req i a (ReqWoken Elapsed_or_ready) (?s1\<lparr>sy_notify := n'\<rparr>)"
    using n' two by (simp add: wait_for_refresh_def s1)
  have "req_step J N i s ?s1" by (rule req_step.trigger [OF assms(3)])
  moreover have "req_step J N i ?s1 ?s2" by (rule req_step.wait) (subst s1, simp)
  moreover have "req_step J N i ?s2 (set_req i a (ReqDone (validate_now (J (sy_now ?s2)) a (sy_cache ?s2))) ?s2)"
    by (rule req_step.retry) (subst s2, simp)
  moreover have "sy_cache ?s2 = sy_cache s" "sy_now ?s2 = sy_now s" "sy_fetches ?s2 = sy_fetches s" "sy_loop ?s2 = sy_loop s" "sy_notify ?s2 = n'"
    unfolding s2 by (simp_all add: s1)
  ultimately show ?thesis using two
    by (intro exI [of _ ?s1] exI [of _ ?s2] exI [of _ "set_req i a (ReqDone (validate_now (J (sy_now ?s2)) a (sy_cache ?s2))) ?s2"] conjI) simp_all
qed

subsection \<open>The answers\<close>

text \<open>A request between its first validation and its retry.\<close>

fun pending :: "ReqPc \<Rightarrow> bool" where
  "pending ReqUnknown = True"
| "pending ReqTriggered = True"
| "pending (ReqWaiting _) = True"
| "pending (ReqWoken _) = True"
| "pending _ = False"

text \<open>The ways a step can move request \<open>i\<close>.\<close>

definition moves :: "(nat \<Rightarrow> 'k jwt) \<Rightarrow> ReqArgs \<Rightarrow> ('k, 'n) RefreshSys \<Rightarrow> ReqPc \<Rightarrow> ReqPc \<Rightarrow> bool" where
  "moves J a s pc pc' \<longleftrightarrow> pc' = pc
     \<or> (pc = ReqStart \<and> pc' = (if is_stale (sy_now s) (sy_cache s) then ReqDone (Inl AuthProviderUnavailable) else ReqFresh))
     \<or> (pc = ReqFresh \<and> pc' = (case validate_now (J (sy_now s)) a (sy_cache s) of Inl UnknownKeyId \<Rightarrow> ReqUnknown | other \<Rightarrow> ReqDone other))
     \<or> (pending pc \<and> pending pc')
     \<or> (\<exists>k. pc = ReqWoken k \<and> pc' = ReqDone (validate_now (J (sy_now s)) a (sy_cache s)))"

lemma moves_rewoken:
  assumes "rewoken s s'" "sy_reqs s i = Some (a, pc)"
  shows "\<exists>pc'. sy_reqs s' i = Some (a, pc') \<and> (pc' = pc \<or> pending pc \<and> pending pc')"
  using rewokenD(5) [OF assms(1), of i] assms(2) by auto

lemma moves_own:
  assumes "req_step J N i s s'" "sy_reqs s i = Some (a, pc)"
  shows "\<exists>pc'. sy_reqs s' i = Some (a, pc') \<and> moves J a s pc pc'"
  using assms
proof (cases rule: req_step.cases)
  case (trigger b)
  from moves_rewoken [OF rewoken_trigger, of "set_req i b ReqTriggered s" i b ReqTriggered N] trigger assms(2)
  show ?thesis by (auto simp: moves_def)
qed (use assms(2) in \<open>auto simp: moves_def check_stale_def first_validation_def wait_for_refresh_def stop_waiting_def
    split: prod.splits\<close>)

lemma moves_other:
  assumes "req_step J N j s s'" "i \<noteq> j" "sy_reqs s i = Some (a, pc)"
  shows "\<exists>pc'. sy_reqs s' i = Some (a, pc') \<and> (pc' = pc \<or> pending pc \<and> pending pc')"
  using assms(1)
proof (cases rule: req_step.cases)
  case (trigger b)
  with moves_rewoken [OF rewoken_trigger, of "set_req j b ReqTriggered s" i a pc N] assms(2,3) show ?thesis by auto
qed (use assms(2,3) in \<open>auto simp: check_stale_def first_validation_def wait_for_refresh_def stop_waiting_def split: prod.splits\<close>)

lemma moves_loop:
  assumes "loop_step J N s s'" "sy_reqs s i = Some (a, pc)"
  shows "\<exists>pc'. sy_reqs s' i = Some (a, pc') \<and> (pc' = pc \<or> pending pc \<and> pending pc')"
  using assms(1)
proof (cases rule: loop_step.cases)
  case tick_forwards
  with moves_rewoken [OF rewoken_trigger, of "start_fetch_on_tick s" i a pc N] assms(2) show ?thesis
    by (simp add: start_fetch_on_tick_def)
next
  case announce
  with moves_rewoken [OF rewoken_notify_all, of "s\<lparr>sy_loop := LoopTop\<rparr>" i a pc N] assms(2) show ?thesis by simp
qed (use assms(2) in \<open>auto simp: loop_select_def start_fetch_on_tick_def loop_store_def split: prod.splits\<close>)

lemma moves_drop:
  assumes "sy_reqs (drop_request N j s) i \<noteq> None" "sy_reqs s i = Some (a, pc)"
  shows "\<exists>pc'. sy_reqs (drop_request N j s) i = Some (a, pc') \<and> (pc' = pc \<or> pending pc \<and> pending pc')"
proof (cases "i = j")
  case True
  have "sy_reqs (drop_request N i s) i = None"
    using rewokenD(5) [OF rewoken_trigger, of N "s\<lparr>sy_reqs := (sy_reqs s)(i := None)\<rparr>" i]
    by (auto simp: drop_request_def Let_def stop_waiting_def split: option.splits ReqPc.splits Wake.splits)
  with True assms(1) show ?thesis by simp
next
  case False
  with moves_rewoken [OF rewoken_trigger, of "s\<lparr>sy_reqs := (sy_reqs s)(j := None)\<rparr>" i a pc N] assms(2) show ?thesis
    by (auto simp: drop_request_def Let_def stop_waiting_def split: option.splits ReqPc.splits Wake.splits)
qed

lemma moves_step:
  assumes "refresh_step J N s s'" "sy_reqs s i = Some (a, pc)" "sy_reqs s' i \<noteq> None"
  shows "\<exists>pc'. sy_reqs s' i = Some (a, pc') \<and> moves J a s pc pc'"
proof -
  have m: "pc' = pc \<or> pending pc \<and> pending pc' \<Longrightarrow> moves J a s pc pc'" for pc' by (auto simp: moves_def)
  from assms(1) show ?thesis
  proof (cases rule: refresh_step.cases)
    case by_loop
    then show ?thesis using moves_loop [OF _ assms(2)] m by blast
  next
    case (by_request j)
    then show ?thesis using moves_own [OF _ assms(2)] moves_other [OF _ _ assms(2)] m by (cases "i = j") blast+
  next
    case (arrives j b)
    then show ?thesis using assms(2) by (auto simp: moves_def set_req_def)
  next
    case (dropped j)
    then show ?thesis using moves_drop [OF _ assms(2)] assms(3) m by blast
  next
    case (time t)
    then show ?thesis using assms(2) by (auto simp: moves_def)
  qed
qed

text \<open>Request \<open>i\<close> leaves the point \<open>pc\<close> at position \<open>j\<close> of the run.\<close>

definition leaves :: "('k, 'n) RefreshSys list \<Rightarrow> nat \<Rightarrow> ReqArgs \<Rightarrow> (ReqPc \<Rightarrow> bool) \<Rightarrow> nat \<Rightarrow> bool" where
  "leaves ss i a P j \<longleftrightarrow> Suc j < length ss \<and> (\<exists>pc pc'. sy_reqs (ss ! j) i = Some (a, pc) \<and> P pc
     \<and> sy_reqs (ss ! Suc j) i = Some (a, pc') \<and> pc' \<noteq> pc)"

text \<open>What has happened to a request of the run at each point of \<open>validate_with_refresh\<close>.\<close>

definition checked_fresh :: "('k, 'n) RefreshSys list \<Rightarrow> nat \<Rightarrow> ReqArgs \<Rightarrow> nat \<Rightarrow> bool" where
  "checked_fresh ss i a j \<longleftrightarrow> leaves ss i a (\<lambda>pc. pc = ReqStart) j \<and> \<not> is_stale (sy_now (ss ! j)) (sy_cache (ss ! j))"

definition checked_unknown :: "(nat \<Rightarrow> 'k jwt) \<Rightarrow> ('k, 'n) RefreshSys list \<Rightarrow> nat \<Rightarrow> ReqArgs \<Rightarrow> nat \<Rightarrow> bool" where
  "checked_unknown J ss i a j \<longleftrightarrow> leaves ss i a (\<lambda>pc. pc = ReqFresh) j
     \<and> validate_now (J (sy_now (ss ! j))) a (sy_cache (ss ! j)) = Inl UnknownKeyId"

definition answered ::
  "(nat \<Rightarrow> 'k jwt) \<Rightarrow> ('k, 'n) RefreshSys list \<Rightarrow> nat \<Rightarrow> ReqArgs \<Rightarrow> (AuthError, ValidatedIdentity) result \<Rightarrow> bool" where
  "answered J ss i a r \<longleftrightarrow>
     (\<exists>j1. leaves ss i a (\<lambda>pc. pc = ReqStart) j1 \<and> is_stale (sy_now (ss ! j1)) (sy_cache (ss ! j1)) \<and> r = Inl AuthProviderUnavailable)
   \<or> (\<exists>j1 j2. j1 < j2 \<and> checked_fresh ss i a j1 \<and> leaves ss i a (\<lambda>pc. pc = ReqFresh) j2
        \<and> r = validate_now (J (sy_now (ss ! j2))) a (sy_cache (ss ! j2)) \<and> r \<noteq> Inl UnknownKeyId)
   \<or> (\<exists>j1 j2 j3. j1 < j2 \<and> j2 < j3 \<and> checked_fresh ss i a j1 \<and> checked_unknown J ss i a j2
        \<and> leaves ss i a (\<lambda>pc. \<exists>k. pc = ReqWoken k) j3 \<and> r = validate_now (J (sy_now (ss ! j3))) a (sy_cache (ss ! j3)))"

fun so_far ::
  "(nat \<Rightarrow> 'k jwt) \<Rightarrow> ('k, 'n) RefreshSys list \<Rightarrow> nat \<Rightarrow> ReqArgs \<Rightarrow> nat \<Rightarrow> ReqPc \<Rightarrow> bool" where
  "so_far J ss i a n ReqStart \<longleftrightarrow> True"
| "so_far J ss i a n ReqFresh \<longleftrightarrow> (\<exists>j1 < n. checked_fresh ss i a j1)"
| "so_far J ss i a n (ReqDone r) \<longleftrightarrow> answered J ss i a r"
| "so_far J ss i a n _ \<longleftrightarrow> (\<exists>j1 j2. j1 < j2 \<and> j2 < n \<and> checked_fresh ss i a j1 \<and> checked_unknown J ss i a j2)"

lemma so_far_pending:
  "pending pc \<Longrightarrow> so_far J ss i a n pc \<longleftrightarrow> (\<exists>j1 j2. j1 < j2 \<and> j2 < n \<and> checked_fresh ss i a j1 \<and> checked_unknown J ss i a j2)"
  by (cases pc) simp_all

lemma so_far_mono: "so_far J ss i a n pc \<Longrightarrow> so_far J ss i a (Suc n) pc"
  by (cases pc) (auto intro: less_SucI)

lemma so_far_moves:
  assumes "so_far J ss i a n pc" "Suc n < length ss" "sy_reqs (ss ! n) i = Some (a, pc)" "sy_reqs (ss ! Suc n) i = Some (a, pc')"
    and "moves J a (ss ! n) pc pc'"
  shows "so_far J ss i a (Suc n) pc'"
proof -
  have lv: "pc' \<noteq> pc \<Longrightarrow> P pc \<Longrightarrow> leaves ss i a P n" for P using assms(2-4) by (auto simp: leaves_def)
  from assms(5) [unfolded moves_def] show ?thesis
  proof (elim disjE conjE exE)
    assume "pc' = pc"
    with assms(1) show ?thesis by (simp add: so_far_mono)
  next
    assume p: "pc = ReqStart" "pc' = (if is_stale (sy_now (ss ! n)) (sy_cache (ss ! n)) then ReqDone (Inl AuthProviderUnavailable) else ReqFresh)"
    then have "leaves ss i a (\<lambda>pc. pc = ReqStart) n" using lv by (auto split: if_splits)
    with p show ?thesis by (auto simp: answered_def checked_fresh_def)
  next
    assume p: "pc = ReqFresh" "pc' = (case validate_now (J (sy_now (ss ! n))) a (sy_cache (ss ! n)) of Inl UnknownKeyId \<Rightarrow> ReqUnknown | other \<Rightarrow> ReqDone other)"
    then have l: "leaves ss i a (\<lambda>pc. pc = ReqFresh) n" using lv by (auto split: sum.splits AuthError.splits)
    from assms(1) p(1) obtain j1 where j1: "j1 < n" "checked_fresh ss i a j1" by auto
    show ?thesis
    proof (cases "validate_now (J (sy_now (ss ! n))) a (sy_cache (ss ! n)) = Inl UnknownKeyId")
      case True
      with l have "checked_unknown J ss i a n" by (simp add: checked_unknown_def)
      with j1 p True show ?thesis by auto
    next
      case False
      then have "pc' = ReqDone (validate_now (J (sy_now (ss ! n))) a (sy_cache (ss ! n)))"
        using p by (auto split: sum.splits AuthError.splits)
      with j1 l False show ?thesis by (auto simp: answered_def)
    qed
  next
    assume "pending pc" "pending pc'"
    with assms(1) show ?thesis by (auto simp: so_far_pending intro: less_SucI)
  next
    fix k
    assume p: "pc = ReqWoken k" "pc' = ReqDone (validate_now (J (sy_now (ss ! n))) a (sy_cache (ss ! n)))"
    then have "leaves ss i a (\<lambda>pc. \<exists>k. pc = ReqWoken k) n" using lv by auto
    with assms(1) p show ?thesis unfolding p(2) so_far.simps answered_def by (intro disjI2) auto
  qed
qed

lemma run_so_far:
  assumes "successively (refresh_step J N) ss" "sy_reqs (ss ! 0) i = Some (a, ReqStart)"
    and "\<forall>s \<in> set ss. sy_reqs s i \<noteq> None" "n < length ss"
  shows "\<exists>pc. sy_reqs (ss ! n) i = Some (a, pc) \<and> so_far J ss i a n pc"
  using assms(4)
proof (induction n)
  case 0
  then show ?case using assms(2) by auto
next
  case (Suc n)
  then obtain pc where pc: "sy_reqs (ss ! n) i = Some (a, pc)" "so_far J ss i a n pc" by auto
  have "refresh_step J N (ss ! n) (ss ! Suc n)" using assms(1) Suc.prems by (simp add: successively_conv_nth)
  moreover have "sy_reqs (ss ! Suc n) i \<noteq> None" using assms(3) Suc.prems by simp
  ultimately obtain pc' where "sy_reqs (ss ! Suc n) i = Some (a, pc')" "moves J a (ss ! n) pc pc'"
    using moves_step [OF _ pc(1)] by blast
  with so_far_moves [OF pc(2) Suc.prems pc(1)] show ?case by blast
qed

text \<open>C19. What an answer is. Take any run of the loop, the requests and the clock, from the moment a
  request starts to its answer, whatever the other tasks do meanwhile. If the cache is stale at
  the moment the request checks it, the answer is \<open>auth_provider_unavailable\<close>. Otherwise it is the
  outcome of validating the token against the keys that the cache has at the moment of the first
  validation, unless these do not have the key of the token: then the request waits, and the
  answer is the outcome of validating against the keys that the cache has at the moment the
  request goes on after its wait.\<close>

theorem refresh_answer_refines:
  assumes "successively (refresh_step J N) ss" "sy_reqs (ss ! 0) i = Some (a, ReqStart)"
    and "\<forall>s \<in> set ss. sy_reqs s i \<noteq> None" "ss \<noteq> []" "sy_reqs (last ss) i = Some (b, ReqDone r)"
  shows "b = a
    \<and> (\<exists>j1. leaves ss i a (\<lambda>pc. pc = ReqStart) j1
         \<and> (if is_stale (sy_now (ss ! j1)) (sy_cache (ss ! j1)) then r = Inl AuthProviderUnavailable
            else \<exists>j2 > j1. leaves ss i a (\<lambda>pc. pc = ReqFresh) j2
              \<and> (if validate_now (J (sy_now (ss ! j2))) a (sy_cache (ss ! j2)) \<noteq> Inl UnknownKeyId
                 then r = validate_now (J (sy_now (ss ! j2))) a (sy_cache (ss ! j2))
                 else \<exists>j3 > j2. leaves ss i a (\<lambda>pc. \<exists>k. pc = ReqWoken k) j3
                   \<and> r = validate_now (J (sy_now (ss ! j3))) a (sy_cache (ss ! j3)))))"
proof -
  from run_so_far [OF assms(1-3), of "length ss - 1"] assms(4,5) have "b = a" "answered J ss i a r"
    by (auto simp: last_conv_nth)
  from this(2) [unfolded answered_def] show ?thesis
  proof (elim disjE exE conjE)
    fix j1 j2
    assume "j1 < j2" "checked_fresh ss i a j1" "leaves ss i a (\<lambda>pc. pc = ReqFresh) j2"
      "r = validate_now (J (sy_now (ss ! j2))) a (sy_cache (ss ! j2))" "r \<noteq> Inl UnknownKeyId"
    with \<open>b = a\<close> show ?thesis
      unfolding checked_fresh_def by (intro conjI exI [of _ j1]) (simp_all, metis)
  next
    fix j1 j2 j3
    assume "j1 < j2" "j2 < j3" "checked_fresh ss i a j1" "checked_unknown J ss i a j2"
      "leaves ss i a (\<lambda>pc. \<exists>k. pc = ReqWoken k) j3" "r = validate_now (J (sy_now (ss ! j3))) a (sy_cache (ss ! j3))"
    with \<open>b = a\<close> show ?thesis
      unfolding checked_fresh_def checked_unknown_def
      by (intro conjI exI [of _ j1]) (simp_all, metis)
  qed (use \<open>b = a\<close> in auto)
qed

subsection \<open>A concrete cache\<close>

definition demo_args :: ReqArgs where
  "demo_args = \<lparr>ra_token = ''tok'', ra_provider = sample_provider, ra_scopes = [''read'']\<rparr>"

text \<open>The loop of a cache without keys, waiting; then with a request that met an unknown key.\<close>

definition demo_idle :: "(nat, task list \<times> bool) RefreshSys" where
  "demo_idle = \<lparr>sy_cache = sample_cache, sy_notify = ([LoopTask], False), sy_loop = LoopSelect, sy_tick = 5 + ttl_of sample_cache,
     sy_reqs = Map.empty, sy_now = 5, sy_fetches = 0\<rparr>"

lemma demo_unknown: "validate_now sample_jwt demo_args sample_cache = Inl UnknownKeyId"
  by (simp add: validate_now_def demo_args_def validate_token_def sample_jwt_def get_keys_def sample_cache_def)

lemma demo_idle_reach: "refresh_reach (\<lambda>_. sample_jwt) queue_notify demo_idle"
proof -
  let ?s = "\<lparr>sy_cache = sample_cache, sy_notify = ([], False), sy_loop = LoopTop, sy_tick = 5 + ttl_of sample_cache,
     sy_reqs = Map.empty, sy_now = 5, sy_fetches = 0\<rparr>"
  have "spawn_refresh_loop queue_notify 5 sample_cache = Some ?s"
    by (simp add: spawn_refresh_loop_def ttl_of_def sample_cache_def sample_provider_def queue_notify_def)
  then have "refresh_reach (\<lambda>_. sample_jwt) queue_notify ?s" by (rule refresh_reach.spawned) (simp add: sample_cache_def)
  moreover have "loop_select queue_notify ?s = demo_idle" by (simp add: loop_select_def queue_notify_def demo_idle_def)
  ultimately show ?thesis using loop_step.select [of ?s "\<lambda>_. sample_jwt" queue_notify]
    by (auto intro: refresh_reach.stepped refresh_step.by_loop)
qed

text \<open>A request arrives and finds its key unknown.\<close>

lemma reach_unknown:
  assumes "refresh_reach J N s" "sy_reqs s i = None" "\<not> is_stale (sy_now s) (sy_cache s)" "validate_now (J (sy_now s)) a (sy_cache s) = Inl UnknownKeyId"
  shows "refresh_reach J N (set_req i a ReqUnknown s)"
proof -
  have "refresh_reach J N (set_req i a ReqStart s)"
    using assms(1,2) by (rule refresh_reach.stepped [OF _ refresh_step.arrives])
  moreover have "req_step J N i (set_req i a ReqStart s) (set_req i a ReqFresh s)"
    using req_step.stale [of "set_req i a ReqStart s" i a J N] assms(3) by (simp add: set_req_def check_stale_def)
  moreover have "req_step J N i (set_req i a ReqFresh s) (set_req i a ReqUnknown s)"
    using req_step.first [of "set_req i a ReqFresh s" i a J N] assms(4) by (simp add: set_req_def first_validation_def)
  ultimately show ?thesis by (blast intro: refresh_reach.stepped refresh_step.by_request)
qed

text \<open>One request waits for the fetch that it triggered, a second one has met the unknown key.\<close>

definition demo_burst :: "(nat, task list \<times> bool) RefreshSys" where
  "demo_burst = demo_idle\<lparr>sy_notify := ([ReqTask 0], False), sy_loop := LoopFetch,
     sy_reqs := [0 \<mapsto> (demo_args, ReqWaiting (5 + WAIT_LIMIT)), 1 \<mapsto> (demo_args, ReqUnknown)]\<rparr>"

lemma demo_burst_reach: "refresh_reach (\<lambda>_. sample_jwt) queue_notify demo_burst"
proof -
  let ?N = queue_notify and ?J = "\<lambda>_ :: nat. sample_jwt"
  let ?s1 = "set_req 0 demo_args ReqUnknown demo_idle"
  let ?s2 = "trigger_refresh ?N (set_req 0 demo_args ReqTriggered ?s1)"
  let ?s3 = "wait_for_refresh ?N 0 demo_args ?s2"
  let ?s4 = "?s3\<lparr>sy_loop := LoopFetch\<rparr>"
  have "refresh_reach ?J ?N ?s1"
    using demo_idle_reach by (rule reach_unknown) (simp_all add: demo_idle_def demo_unknown sample_cache_fresh)
  moreover have "req_step ?J ?N 0 ?s1 ?s2" by (rule req_step.trigger) (simp add: set_req_def)
  moreover have s2: "?s2 = demo_idle\<lparr>sy_notify := ([], False), sy_loop := LoopWoken, sy_reqs := [0 \<mapsto> (demo_args, ReqTriggered)]\<rparr>"
    by (simp add: trigger_refresh_def set_req_def demo_idle_def queue_notify_def)
  moreover have "req_step ?J ?N 0 ?s2 ?s3" by (rule req_step.wait) (simp add: s2)
  moreover have s3: "?s3 = demo_idle\<lparr>sy_notify := ([ReqTask 0], False), sy_loop := LoopWoken,
      sy_reqs := [0 \<mapsto> (demo_args, ReqWaiting (5 + WAIT_LIMIT))]\<rparr>"
    unfolding s2 by (simp add: wait_for_refresh_def set_req_def queue_notify_def demo_idle_def)
  moreover have "loop_step ?J ?N ?s3 ?s4" by (rule loop_step.notified) (simp add: s3)
  ultimately have "refresh_reach ?J ?N ?s4" by (metis refresh_reach.stepped refresh_step.by_loop refresh_step.by_request)
  then have "refresh_reach ?J ?N (set_req 1 demo_args ReqUnknown ?s4)"
    by (rule reach_unknown) (unfold s3, simp_all add: demo_idle_def demo_unknown sample_cache_fresh)
  moreover have "set_req 1 demo_args ReqUnknown ?s4 = demo_burst" unfolding s3 by (simp add: demo_burst_def set_req_def)
  ultimately show ?thesis by simp
qed

theorem refresh_burst_refused_witness:
  "\<exists>s1 s2. req_step (\<lambda>_. sample_jwt) queue_notify 1 demo_burst s1 \<and> req_step (\<lambda>_. sample_jwt) queue_notify 0 s1 s2
    \<and> sy_reqs s2 0 = Some (demo_args, ReqDone (Inl UnknownKeyId)) \<and> sy_loop s2 = LoopFetch \<and> sy_fetches s2 = sy_fetches demo_burst"
  by (rule refresh_burst_refused [OF queue_notify_spec demo_burst_reach])
    (simp_all add: demo_burst_def demo_idle_def demo_unknown)

theorem refresh_permit_taken_back_witness:
  "\<exists>s3 :: (nat, task list \<times> bool) RefreshSys. sy_reqs s3 1 = Some (demo_args, ReqDone (Inl UnknownKeyId)) \<and> fst (sy_notify s3) = [] \<and> \<not> snd (sy_notify s3)"
proof -
  let ?s = "demo_burst\<lparr>sy_notify := ([], False)\<rparr>"
  have "sy_reqs ?s 1 = Some (demo_args, ReqUnknown)" "fst (sy_notify ?s) = []" "sy_cache ?s = sample_cache"
    by (simp_all add: demo_burst_def demo_idle_def)
  from refresh_permit_taken_back [OF queue_notify_spec this(2,1), of "\<lambda>_. sample_jwt"] this(3) demo_unknown show ?thesis by auto
qed

theorem refresh_wait_terminates_witness:
  "(\<exists>s'. req_step (\<lambda>_. sample_jwt) queue_notify 0 demo_burst s')
    \<or> (\<exists>d. ReqWaiting (5 + WAIT_LIMIT) = ReqWaiting d \<and> sy_now demo_burst < d \<and> d \<le> sy_now demo_burst + WAIT_LIMIT)"
  using refresh_wait_terminates [OF demo_burst_reach, of 0 demo_args "ReqWaiting (5 + WAIT_LIMIT)"]
  by (simp add: demo_burst_def)

text \<open>The request of \<open>demo_idle\<close> waits, the loop fetches and announces, and the retry is made.\<close>

lemma demo_lone_run:
  assumes "s1 = trigger_refresh queue_notify (set_req 0 demo_args ReqTriggered (set_req 0 demo_args ReqUnknown demo_idle))"
  shows "\<exists>s'. lone_run J queue_notify 0 s1 s' \<and> sy_reqs s' 0 = Some (demo_args, ReqWoken ByAll) \<and> sy_now s' = 5"
proof -
  let ?N = queue_notify
  let ?s2 = "wait_for_refresh ?N 0 demo_args s1"
  let ?s3 = "?s2\<lparr>sy_loop := LoopFetch\<rparr>"
  let ?s4 = "loop_store J (\<lambda>_. Inl []) ?s3"
  have s1: "s1 = demo_idle\<lparr>sy_notify := ([], False), sy_loop := LoopWoken, sy_reqs := [0 \<mapsto> (demo_args, ReqTriggered)]\<rparr>"
    by (simp add: assms trigger_refresh_def set_req_def demo_idle_def queue_notify_def)
  have s2: "?s2 = demo_idle\<lparr>sy_notify := ([ReqTask 0], False), sy_loop := LoopWoken,
      sy_reqs := [0 \<mapsto> (demo_args, ReqWaiting (5 + WAIT_LIMIT))]\<rparr>"
    by (simp add: s1 wait_for_refresh_def set_req_def queue_notify_def demo_idle_def)
  have s4: "?s4 = demo_idle\<lparr>sy_notify := ([ReqTask 0], False), sy_loop := LoopStored, sy_fetches := 1,
      sy_reqs := [0 \<mapsto> (demo_args, ReqWaiting (5 + WAIT_LIMIT))]\<rparr>"
    by (simp add: s2 loop_store_def demo_idle_def refresh_round_def fetch_and_store_def)
  have t: "sy_now demo_idle < sy_tick demo_idle"
    by (simp add: demo_idle_def ttl_of_def sample_cache_def sample_provider_def)
  have "lone_run J ?N 0 s1 ?s2" by (rule lone_run.req [OF lone_run.here req_step.wait]) (simp add: s1)
  then have "lone_run J ?N 0 s1 ?s3" by (rule lone_run.loop [OF _ loop_step.notified]) (use t in \<open>simp_all add: s2\<close>)
  then have "lone_run J ?N 0 s1 ?s4" by (rule lone_run.loop [OF _ loop_step.store]) (use t in \<open>simp_all add: s2\<close>)
  then have "lone_run J ?N 0 s1 (notify_all ?N (?s4\<lparr>sy_loop := LoopTop\<rparr>))"
    by (rule lone_run.loop [OF _ loop_step.announce]) (use t in \<open>simp_all add: s4\<close>)
  moreover have "sy_reqs (notify_all ?N (?s4\<lparr>sy_loop := LoopTop\<rparr>)) 0 = Some (demo_args, ReqWoken ByAll)"
    "sy_now (notify_all ?N (?s4\<lparr>sy_loop := LoopTop\<rparr>)) = 5"
    unfolding s4 by (simp_all add: notify_all_def queue_notify_def demo_idle_def)
  ultimately show ?thesis by blast
qed

theorem lone_request_sees_refresh_witness:
  "\<exists>s'. lone_run (\<lambda>_. sample_jwt) queue_notify 0 (trigger_refresh queue_notify
      (set_req 0 demo_args ReqTriggered (set_req 0 demo_args ReqUnknown demo_idle))) s' \<and> 0 < sy_fetches s'"
proof -
  obtain s' where s': "lone_run (\<lambda>_. sample_jwt) queue_notify 0 (trigger_refresh queue_notify
      (set_req 0 demo_args ReqTriggered (set_req 0 demo_args ReqUnknown demo_idle))) s'"
    "sy_reqs s' 0 = Some (demo_args, ReqWoken ByAll)" "sy_now s' = 5"
    using demo_lone_run [OF refl] by blast
  with lone_request_sees_refresh [OF queue_notify_spec _ _ _ _ s'(1,2)] show ?thesis
    by (auto simp: set_req_def demo_idle_def WAIT_LIMIT_def)
qed

text \<open>A request with an unknown key that waits in vain: from its start to its answer, with no fetch
  in between.\<close>

definition demo_point :: "ReqPc \<Rightarrow> bool \<Rightarrow> (nat, task list \<times> bool) RefreshSys" where
  "demo_point pc p = demo_idle\<lparr>sy_reqs := [0 \<mapsto> (demo_args, pc)], sy_loop := LoopTop, sy_notify := ([], p)\<rparr>"

definition demo_vain :: "(nat, task list \<times> bool) RefreshSys list" where
  "demo_vain = [demo_point ReqStart False, demo_point ReqFresh False, demo_point ReqUnknown False, demo_point ReqTriggered True,
     demo_point (ReqWoken Elapsed_or_ready) False, demo_point (ReqDone (Inl UnknownKeyId)) False]"

lemma demo_point_fields: "sy_cache (demo_point pc p) = sample_cache" "sy_now (demo_point pc p) = 5" "sy_reqs (demo_point pc p) = [0 \<mapsto> (demo_args, pc)]"
  by (simp_all add: demo_point_def demo_idle_def)

lemma demo_vain_run: "successively (refresh_step (\<lambda>_. sample_jwt) queue_notify) demo_vain"
proof -
  let ?N = queue_notify and ?J = "\<lambda>_ :: nat. sample_jwt"
  have "req_step ?J ?N 0 (demo_point ReqStart False) (demo_point ReqFresh False)"
    using req_step.stale [of "demo_point ReqStart False" 0 demo_args ?J ?N] sample_cache_fresh
    by (simp add: check_stale_def demo_point_fields) (simp add: set_req_def demo_point_def demo_idle_def)
  moreover have "req_step ?J ?N 0 (demo_point ReqFresh False) (demo_point ReqUnknown False)"
    using req_step.first [of "demo_point ReqFresh False" 0 demo_args ?J ?N] demo_unknown
    by (simp add: first_validation_def demo_point_fields) (simp add: set_req_def demo_point_def demo_idle_def)
  moreover have "req_step ?J ?N 0 (demo_point ReqUnknown False) (demo_point ReqTriggered True)"
    using req_step.trigger [of "demo_point ReqUnknown False" 0 demo_args ?J ?N]
    by (simp add: demo_point_fields) (simp add: trigger_refresh_def set_req_def demo_point_def demo_idle_def queue_notify_def)
  moreover have "req_step ?J ?N 0 (demo_point ReqTriggered True) (demo_point (ReqWoken Elapsed_or_ready) False)"
    using req_step.wait [of "demo_point ReqTriggered True" 0 demo_args ?J ?N]
    by (simp add: demo_point_fields) (simp add: wait_for_refresh_def set_req_def demo_point_def demo_idle_def queue_notify_def)
  moreover have "req_step ?J ?N 0 (demo_point (ReqWoken Elapsed_or_ready) False) (demo_point (ReqDone (Inl UnknownKeyId)) False)"
    using req_step.retry [of "demo_point (ReqWoken Elapsed_or_ready) False" 0 demo_args Elapsed_or_ready ?J ?N] demo_unknown
    by (simp add: demo_point_fields) (simp add: set_req_def demo_point_def demo_idle_def)
  ultimately show ?thesis unfolding demo_vain_def by (simp add: refresh_step.by_request)
qed

lemma demo_vain_states: "s \<in> set demo_vain \<Longrightarrow> sy_cache s = sample_cache \<and> sy_now s = 5 \<and> sy_reqs s 0 \<noteq> None"
  unfolding demo_vain_def by (auto simp: demo_point_fields)

lemma demo_vain_left:
  assumes "leaves demo_vain 0 demo_args P j"
  shows "sy_cache (demo_vain ! j) = sample_cache" "sy_now (demo_vain ! j) = 5"
  using demo_vain_states [OF nth_mem, of j] assms by (auto simp: leaves_def)

theorem refresh_answer_refines_witness:
  "successively (refresh_step (\<lambda>_. sample_jwt) queue_notify) demo_vain
    \<and> sy_reqs (last demo_vain) 0 = Some (demo_args, ReqDone (Inl UnknownKeyId))
    \<and> (\<exists>j3. leaves demo_vain 0 demo_args (\<lambda>pc. \<exists>k. pc = ReqWoken k) j3
         \<and> Inl UnknownKeyId = validate_now sample_jwt demo_args (sy_cache (demo_vain ! j3)))"
proof -
  have v: "sy_reqs (demo_vain ! 0) 0 = Some (demo_args, ReqStart)" "demo_vain \<noteq> []"
    "sy_reqs (last demo_vain) 0 = Some (demo_args, ReqDone (Inl UnknownKeyId))"
    by (simp_all add: demo_vain_def demo_point_fields)
  have "\<forall>s \<in> set demo_vain. sy_reqs s 0 \<noteq> None" using demo_vain_states by blast
  note a = refresh_answer_refines [OF demo_vain_run v(1) this v(2,3)]
  have "\<not> is_stale (sy_now (demo_vain ! j)) (sy_cache (demo_vain ! j))" "validate_now sample_jwt demo_args (sy_cache (demo_vain ! j)) = Inl UnknownKeyId"
    if "leaves demo_vain 0 demo_args P j" for P j
    using demo_vain_left [OF that] sample_cache_fresh demo_unknown by simp_all
  with a have "\<exists>j3. leaves demo_vain 0 demo_args (\<lambda>pc. \<exists>k. pc = ReqWoken k) j3
      \<and> Inl UnknownKeyId = validate_now sample_jwt demo_args (sy_cache (demo_vain ! j3))"
    by (metis (no_types, lifting))
  with demo_vain_run v(3) show ?thesis by blast
qed

end
