(* ===== verification/Interleaving.thy ===== *)
theory Interleaving
  imports Admin_Correct
begin

text \<open>
  Requests and reloads as tasks that interleave at their \<open>await\<close>s (\<open>extauthz/handler.rs\<close>,
  \<open>admin/handlers.rs\<close>). A request is a program counter that runs \<open>check_inner\<close> piece by piece,
  a reload one that runs \<open>config_reload\<close> piece by piece. The lock around the configuration is
  explicit: \<open>tokio::sync::RwLock\<close> serves its waiters in the order in which they came, readers
  together and a writer alone. A request takes it for reading before it looks up its route and
  keeps it to the end of \<open>check_inner\<close>; a reload takes it for writing at its end, in a section
  without an \<open>await\<close>. Each step of a request may run on another thread, which has its own Lua
  machine.
\<close>

subsection \<open>The pieces of a request\<close>

record InFlight =
  fl_req :: Request
  fl_id :: string
  fl_times :: Times

datatype CheckPc =
  Queued
| Routed GatewayConfig RouteConfig
| PluginsRan GatewayConfig RouteConfig PluginContinue HeaderMap
| Authenticated GatewayConfig RouteConfig PluginContinue HeaderMap "string option"
| Decided Response
| Answered Response

definition fl_headers :: "InFlight \<Rightarrow> HeaderMap" where
  "fl_headers fl = req_headers (fl_req fl)"

definition fl_meta :: "('k, 'e, 'l, 'c, 'i, 'lk) env \<Rightarrow> InFlight \<Rightarrow> Meta" where
  "fl_meta V fl = meta_of V (fl_headers fl) (req_method (fl_req fl)) (req_path (fl_req fl)) (fl_id fl)"

text \<open>From the read lock to the call of the plugins.\<close>

definition route_piece ::
  "('k, 'e, 'l, 'c, 'i, 'lk) env \<Rightarrow> InFlight \<Rightarrow> ('r, 'k, 'e, 'l, 'lk) World \<Rightarrow> ('r, 'k, 'e, 'l, 'lk) World \<times> CheckPc" where
  "route_piece V fl w =
     (let meta = fl_meta V fl; T = fl_times fl; cfg = cs_config (as_config_state (wd_app w))
      in case match_route (gc_routes cfg) (mt_host meta) (mt_path meta) of
           None \<Rightarrow> (request_metric T meta [] 200 (emit_log V T meta [] 200 None ''none'' [] w), Decided (allow_response V [] (fl_id fl)))
         | Some route \<Rightarrow>
             if \<not> list_ex (\<lambda>m. eq_ignore_ascii_case m (mt_method meta)) (rc_methods route)
             then map_prod (\<lambda>w. w) Decided (method_denied V T meta route w)
             else (w, Routed cfg route))"

definition plugins_piece ::
  "('k, 'e, 'l, 'c, 'i, 'lk) env \<Rightarrow> InFlight \<Rightarrow> GatewayConfig \<Rightarrow> RouteConfig \<Rightarrow> ('r, 'k, 'e, 'l, 'lk) World
    \<Rightarrow> ('r, 'k, 'e, 'l, 'lk) World \<times> CheckPc" where
  "plugins_piece V fl cfg route w =
     (case execute_access_plugins V (fl_times fl) (fl_meta V fl) route (fl_headers fl) [] w of
        (w1, Inl response) \<Rightarrow> (w1, Decided response)
      | (w1, Inr (pcont, hs)) \<Rightarrow> (w1, PluginsRan cfg route pcont hs))"

definition auth_piece ::
  "('k, 'e, 'l, 'c, 'i, 'lk) env \<Rightarrow> InFlight \<Rightarrow> GatewayConfig \<Rightarrow> RouteConfig \<Rightarrow> PluginContinue \<Rightarrow> HeaderMap
    \<Rightarrow> ('r, 'k, 'e, 'l, 'lk) World \<Rightarrow> ('r, 'k, 'e, 'l, 'lk) World \<times> CheckPc" where
  "auth_piece V fl cfg route pcont hs w =
     (case apply_auth V (fl_times fl) cfg route (fl_headers fl) hs w of
        (w1, Inl deny) \<Rightarrow> map_prod (\<lambda>w. w) Decided
          (early_deny V (fl_times fl) (fl_meta V fl) route (dn_status deny) (dn_error_code deny)
            (run_plugin_log V (pn_request pcont) (dn_status deny) w1))
      | (w1, Inr (hs', sub)) \<Rightarrow> (w1, Authenticated cfg route pcont hs' sub))"

fun check_piece ::
  "('k, 'e, 'l, 'c, 'i, 'lk) env \<Rightarrow> InFlight \<Rightarrow> CheckPc \<Rightarrow> ('r, 'k, 'e, 'l, 'lk) World
    \<Rightarrow> ('r, 'k, 'e, 'l, 'lk) World \<times> CheckPc" where
  "check_piece V fl Queued w = route_piece V fl w"
| "check_piece V fl (Routed cfg route) w = plugins_piece V fl cfg route w"
| "check_piece V fl (PluginsRan cfg route pcont hs) w = auth_piece V fl cfg route pcont hs w"
| "check_piece V fl (Authenticated cfg route pcont hs sub) w =
     map_prod (\<lambda>w. w) Decided (rate_limit_step V (fl_times fl) cfg (fl_meta V fl) route (fl_headers fl) pcont hs sub w)"
| "check_piece V fl (Decided response) w =
     (check_end w, Answered (if as_tracing_enabled (wd_app w) then inject_otel_context V (fl_headers fl) response else response))"
| "check_piece V fl (Answered response) w = (w, Answered response)"

text \<open>The configuration that a request holds the lock on, and its route.\<close>

fun held :: "CheckPc \<Rightarrow> (GatewayConfig \<times> RouteConfig) option" where
  "held (Routed cfg route) = Some (cfg, route)"
| "held (PluginsRan cfg route _ _) = Some (cfg, route)"
| "held (Authenticated cfg route _ _ _) = Some (cfg, route)"
| "held _ = None"

fun is_answered :: "CheckPc \<Rightarrow> bool" where
  "is_answered (Answered _) = True"
| "is_answered _ = False"

subsection \<open>The pieces of a reload\<close>

datatype ReloadPc =
  Requested
| Loaded string int GatewayConfig
| PluginsSwapped string int GatewayConfig
| AwaitCommit string int GatewayConfig
| AwaitRefusal int string
| Replied AdminResponse

fun awaits_lock :: "ReloadPc \<Rightarrow> bool" where
  "awaits_lock (AwaitCommit _ _ _) = True"
| "awaits_lock (AwaitRefusal _ _) = True"
| "awaits_lock _ = False"

text \<open>\<open>content\<close> is what reading the configuration file gives.\<close>

definition load_piece :: "('t, 's) admin_env \<Rightarrow> int \<Rightarrow> (string, string) result \<Rightarrow> ('c, 'k) AppState \<Rightarrow> ReloadPc" where
  "load_piece A now content st =
     (case content of
        Inl error \<Rightarrow> AwaitRefusal now (''failed to read '' @ as_config_path st @ '': '' @ error)
      | Inr raw \<Rightarrow>
          (case load_config_from_str (yaml_from_str A) (url_ok A) (from_utf8_lossy raw) of
             Inr cfg \<Rightarrow> Loaded raw now cfg
           | Inl errors \<Rightarrow> AwaitRefusal now (ConfigErrors_to_string errors)))"

definition swap_piece :: "('t, 's) admin_env \<Rightarrow> string \<Rightarrow> int \<Rightarrow> GatewayConfig \<Rightarrow> ('c, 'k) AppState \<Rightarrow> ('c, 'k) AppState \<times> ReloadPc" where
  "swap_piece A raw now cfg st =
     (case reload_plugins A cfg st of
        (st', Inl error) \<Rightarrow> (st', AwaitRefusal now (PluginError_to_string error))
      | (st', Inr _) \<Rightarrow> (st', PluginsSwapped raw now cfg))"

definition rebuild_piece ::
  "('t, 's) admin_env \<Rightarrow> f64 \<Rightarrow> string \<Rightarrow> int \<Rightarrow> GatewayConfig \<Rightarrow> ('c, 'k) AppState \<Rightarrow> ('c, 'k) AppState \<times> ReloadPc" where
  "rebuild_piece A elapsed raw now cfg st =
     (case reload_xds A elapsed cfg st of
        (st', Inl error) \<Rightarrow> (st', AwaitRefusal now (ResourceError_to_string error))
      | (st', Inr _) \<Rightarrow> (st', AwaitCommit raw now cfg))"

subsection \<open>The system\<close>

datatype LockWaiter = Reader nat | Writer nat

record ('r, 'k, 'e, 'l, 'lk) Gateway =
  cc_world :: "('r, 'k, 'e, 'l, 'lk) World"
  cc_files :: "string \<rightharpoonup> string"
  cc_reqs :: "nat \<rightharpoonup> InFlight \<times> CheckPc"
  cc_reloads :: "nat \<rightharpoonup> ReloadPc"
  cc_queue :: "LockWaiter list"

definition readers :: "('r, 'k, 'e, 'l, 'lk) Gateway \<Rightarrow> nat set" where
  "readers s = {i. \<exists>fl pc. cc_reqs s i = Some (fl, pc) \<and> held pc \<noteq> None}"

definition set_app :: "('r, 'k) AppState \<Rightarrow> ('r, 'k, 'e, 'l, 'lk) Gateway \<Rightarrow> ('r, 'k, 'e, 'l, 'lk) Gateway" where
  "set_app st s = s\<lparr>cc_world := (cc_world s)\<lparr>wd_app := st\<rparr>\<rparr>"

abbreviation app_of :: "('r, 'k, 'e, 'l, 'lk) Gateway \<Rightarrow> ('r, 'k) AppState" where
  "app_of s \<equiv> wd_app (cc_world s)"

text \<open>A reload goes on; when it comes to the lock, it queues up.\<close>

definition set_reload :: "nat \<Rightarrow> ReloadPc \<Rightarrow> ('r, 'k, 'e, 'l, 'lk) Gateway \<Rightarrow> ('r, 'k, 'e, 'l, 'lk) Gateway" where
  "set_reload j pc s = s\<lparr>cc_reloads := (cc_reloads s)(j \<mapsto> pc),
     cc_queue := cc_queue s @ (if awaits_lock pc then [Writer j] else [])\<rparr>"

definition run_piece ::
  "('k, 'e, 'l, 'c, 'i, 'lk) env \<Rightarrow> nat \<Rightarrow> InFlight \<Rightarrow> CheckPc \<Rightarrow> ('l, 'lk) vm_slot
    \<Rightarrow> ('r, 'k, 'e, 'l, 'lk) Gateway \<Rightarrow> ('r, 'k, 'e, 'l, 'lk) Gateway" where
  "run_piece V i fl pc slot s =
     (let (w, pc') = check_piece V fl pc ((cc_world s)\<lparr>wd_slot := slot\<rparr>)
      in s\<lparr>cc_world := w, cc_reqs := (cc_reqs s)(i \<mapsto> (fl, pc'))\<rparr>)"

text \<open>The steps of the tasks that are there.\<close>

inductive task_step ::
  "('k, 'e, 'l, 'c, 'i, 'lk) env \<Rightarrow> ('t, 's) admin_env \<Rightarrow> ('r, 'k, 'e, 'l, 'lk) Gateway \<Rightarrow> ('r, 'k, 'e, 'l, 'lk) Gateway \<Rightarrow> bool"
  for V A where
  read_locked: "cc_queue s = Reader i # q \<Longrightarrow> cc_reqs s i = Some (fl, Queued) \<Longrightarrow>
    task_step V A s (run_piece V i fl Queued slot (s\<lparr>cc_queue := q\<rparr>))"
| proceeds: "cc_reqs s i = Some (fl, pc) \<Longrightarrow> pc \<noteq> Queued \<Longrightarrow> \<not> is_answered pc \<Longrightarrow>
    task_step V A s (run_piece V i fl pc slot s)"
| loads_config: "cc_reloads s j = Some Requested \<Longrightarrow>
    task_step V A s (set_reload j (load_piece A now content (app_of s)) s)"
| swaps: "cc_reloads s j = Some (Loaded raw now cfg) \<Longrightarrow> swap_piece A raw now cfg (app_of s) = (st, pc) \<Longrightarrow>
    task_step V A s (set_reload j pc (set_app st s))"
| rebuilds: "cc_reloads s j = Some (PluginsSwapped raw now cfg) \<Longrightarrow> rebuild_piece A elapsed raw now cfg (app_of s) = (st, pc) \<Longrightarrow>
    task_step V A s (set_reload j pc (set_app st s))"
| commits: "cc_queue s = Writer j # q \<Longrightarrow> readers s = {} \<Longrightarrow> cc_reloads s j = Some (AwaitCommit raw now cfg) \<Longrightarrow>
    reload_commit A raw now cfg \<lparr>aw_app = app_of s, aw_files = cc_files s\<rparr> = Some (aw, response) \<Longrightarrow>
    task_step V A s (set_reload j (Replied response) (set_app (aw_app aw) (s\<lparr>cc_files := aw_files aw, cc_queue := q\<rparr>)))"
| refuses: "cc_queue s = Writer j # q \<Longrightarrow> readers s = {} \<Longrightarrow> cc_reloads s j = Some (AwaitRefusal now msg) \<Longrightarrow>
    reload_validation_error now msg (app_of s) = (st, response) \<Longrightarrow>
    task_step V A s (set_reload j (Replied response) (set_app st (s\<lparr>cc_queue := q\<rparr>)))"

text \<open>What comes from outside: requests and reloads, clients that go away, and the tasks that
  refresh key sets and serve xDS streams.\<close>

inductive outside_step ::
  "('r, 'k, 'e, 'l, 'lk) Gateway \<Rightarrow> ('r, 'k, 'e, 'l, 'lk) Gateway \<Rightarrow> bool" where
  arrives: "cc_reqs s i = None \<Longrightarrow> generate_request_id (tm_nanos T) (wd_counter (cc_world s)) = (counter, rid) \<Longrightarrow>
    check_begin ((cc_world s)\<lparr>wd_counter := counter\<rparr>) = Some w \<Longrightarrow>
    outside_step s (s\<lparr>cc_world := w, cc_reqs := (cc_reqs s)(i \<mapsto> (\<lparr>fl_req = req, fl_id = rid, fl_times = T\<rparr>, Queued)),
      cc_queue := cc_queue s @ [Reader i]\<rparr>)"
| turned_away: "generate_request_id nanos (wd_counter (cc_world s)) = (counter, rid) \<Longrightarrow>
    check_begin ((cc_world s)\<lparr>wd_counter := counter\<rparr>) = None \<Longrightarrow>
    outside_step s (s\<lparr>cc_world := upd_metrics record_overload ((cc_world s)\<lparr>wd_counter := counter\<rparr>)\<rparr>)"
| client_gone: "cc_reqs s i = Some (fl, pc) \<Longrightarrow> \<not> is_answered pc \<Longrightarrow>
    outside_step s (set_app ((app_of s)\<lparr>as_concurrency_limit := as_concurrency_limit (app_of s) + 1\<rparr>)
      (s\<lparr>cc_reqs := (cc_reqs s)(i := None), cc_queue := removeAll (Reader i) (cc_queue s)\<rparr>))"
| reload_asked: "cc_reloads s j = None \<Longrightarrow> outside_step s (set_reload j Requested s)"
| admin_gone: "outside_step s (s\<lparr>cc_reloads := (cc_reloads s)(j := None), cc_queue := removeAll (Writer j) (cc_queue s)\<rparr>)"
| others: "outside_step s (set_app ((app_of s)\<lparr>as_jwks_registry := reg, as_xds := xds\<rparr>) s)"

inductive cc_reach ::
  "('k, 'e, 'l, 'c, 'i, 'lk) env \<Rightarrow> ('t, 's) admin_env \<Rightarrow> nat \<Rightarrow> ('r, 'k, 'e, 'l, 'lk) Gateway \<Rightarrow> bool" for V A permits where
  booted: "loads A raw cfg \<Longrightarrow>
    build_state (sha256 A) now cfg raw path envoy_path jwks limiter metrics engine xds = Some (wd_app w) \<Longrightarrow>
    as_concurrency_limit (wd_app w) = permits \<Longrightarrow>
    cc_reach V A permits \<lparr>cc_world = w, cc_files = files, cc_reqs = Map.empty, cc_reloads = Map.empty, cc_queue = []\<rparr>"
| task: "cc_reach V A permits s \<Longrightarrow> task_step V A s s' \<Longrightarrow> cc_reach V A permits s'"
| outside: "cc_reach V A permits s \<Longrightarrow> outside_step s s' \<Longrightarrow> cc_reach V A permits s'"

end
