(* ===== verification/Xds_Tasks.thy ===== *)
theory Xds_Tasks
  imports Xds_Correct
begin

text \<open>
  The xDS control plane at the level of its \<open>await\<close>s (\<open>xds/server.rs\<close>, \<open>registry.rs\<close>): rebuilds
  overlap, and the channel to a client holds at most sixteen responses, so that a send waits
  until the client takes one. \<open>rebuild_from_config\<close> is cut at the write lock of the snapshot and
  at each send of the broadcast. A \<open>DashMap\<close> iteration visits every entry that is there all the
  time once, in no particular order, and may or may not visit one that was inserted meanwhile.
\<close>

subsection \<open>Tasks\<close>

text \<open>The capacity that \<open>mpsc::channel\<close> is created with.\<close>

definition CHANNEL_CAPACITY :: nat where "CHANNEL_CAPACITY = 16"

text \<open>A broadcast has the responses, the entries that were there at its start, the nodes that it has
  visited, the node it is at with the responses still to send, and those that are gone.\<close>

datatype RebuildPc =
  Built XdsSnapshot
| Broadcasting "DiscoveryResponse list" "string list" "string set" "(string \<times> nat \<times> DiscoveryResponse list) option" "string list"
| Finished "(ResourceError, unit) result"

text \<open>\<open>xc_taken\<close> is the number of responses that the client of a stream has taken.\<close>

record XdsSystem =
  xc_cp :: XdsControlPlane
  xc_taken :: "nat \<Rightarrow> nat"
  xc_streams :: "nat \<rightharpoonup> string \<times> DiscoveryResponse list"
  xc_next :: nat
  xc_rebuilds :: "nat \<rightharpoonup> RebuildPc"

definition queued :: "nat \<Rightarrow> XdsSystem \<Rightarrow> nat" where
  "queued sid x = length (chn_sent (xp_channels (xc_cp x) sid)) - xc_taken x sid"

definition can_send :: "nat \<Rightarrow> XdsSystem \<Rightarrow> bool" where
  "can_send sid x \<longleftrightarrow> chn_open (xp_channels (xc_cp x) sid) \<and> queued sid x < CHANNEL_CAPACITY"

definition set_rebuild :: "nat \<Rightarrow> RebuildPc \<Rightarrow> XdsSystem \<Rightarrow> XdsSystem" where
  "set_rebuild i pc x = x\<lparr>xc_rebuilds := (xc_rebuilds x)(i \<mapsto> pc)\<rparr>"

text \<open>From the call to the write lock.\<close>

definition rebuild_begin :: "encoder \<Rightarrow> GatewayConfig \<Rightarrow> XdsControlPlane \<Rightarrow> XdsControlPlane \<times> RebuildPc" where
  "rebuild_begin enc config cp =
     (let (versions, version) = increment (xp_versions cp);
          cp1 = cp\<lparr>xp_versions := versions\<rparr>
      in case XdsSnapshot_build enc config version of
           Inl e \<Rightarrow> (cp1, Finished (Inl e))
         | Inr snapshot \<Rightarrow> (cp1\<lparr>xp_metrics := set_xds_snapshot_version version (xp_metrics cp1)\<rparr>, Built snapshot))"

definition rebuild_store :: "XdsSnapshot \<Rightarrow> XdsControlPlane \<Rightarrow> XdsControlPlane \<times> RebuildPc" where
  "rebuild_store snapshot cp =
     (cp\<lparr>xp_snapshot := snapshot\<rparr>, Broadcasting (ordered_responses snapshot) (map fst (xp_connections cp)) {} None [])"

definition rebuild_end :: "f64 \<Rightarrow> string list \<Rightarrow> XdsControlPlane \<Rightarrow> XdsControlPlane" where
  "rebuild_end elapsed disconnected cp =
     (let cp' = fold remove disconnected cp in cp'\<lparr>xp_metrics := record_xds_push elapsed (xp_metrics cp')\<rparr>)"

inductive rebuild_step :: "nat \<Rightarrow> XdsSystem \<Rightarrow> XdsSystem \<Rightarrow> bool" for i where
  stores: "xc_rebuilds x i = Some (Built snapshot) \<Longrightarrow> rebuild_store snapshot (xc_cp x) = (cp, pc) \<Longrightarrow>
    rebuild_step i x (set_rebuild i pc (x\<lparr>xc_cp := cp\<rparr>))"
| visits: "xc_rebuilds x i = Some (Broadcasting rs initial visited None gone) \<Longrightarrow> (n, sid) \<in> set (xp_connections (xc_cp x)) \<Longrightarrow>
    n \<notin> visited \<Longrightarrow>
    rebuild_step i x (set_rebuild i (Broadcasting rs initial (insert n visited) (Some (n, sid, rs)) gone) x)"
| sends: "xc_rebuilds x i = Some (Broadcasting rs initial visited (Some (n, sid, r # left)) gone) \<Longrightarrow> can_send sid x \<Longrightarrow>
    rebuild_step i x (set_rebuild i (Broadcasting rs initial visited (Some (n, sid, left)) gone) (x\<lparr>xc_cp := send_one sid r (xc_cp x)\<rparr>))"
| fails: "xc_rebuilds x i = Some (Broadcasting rs initial visited (Some (n, sid, r # left)) gone) \<Longrightarrow>
    \<not> chn_open (xp_channels (xc_cp x) sid) \<Longrightarrow>
    rebuild_step i x (set_rebuild i (Broadcasting rs initial visited None (gone @ [n])) x)"
| moves_on: "xc_rebuilds x i = Some (Broadcasting rs initial visited (Some (n, sid, [])) gone) \<Longrightarrow>
    rebuild_step i x (set_rebuild i (Broadcasting rs initial visited None gone) x)"
| finishes: "xc_rebuilds x i = Some (Broadcasting rs initial visited None gone) \<Longrightarrow>
    \<forall>(n, sid) \<in> set (xp_connections (xc_cp x)). n \<in> set initial \<longrightarrow> n \<in> visited \<Longrightarrow>
    rebuild_step i x (set_rebuild i (Finished (Inr ())) (x\<lparr>xc_cp := rebuild_end elapsed gone (xc_cp x)\<rparr>))"

text \<open>\<open>xt_reach enc n x\<close>: the state \<open>x\<close> can be reached with \<open>n\<close> calls of \<open>rebuild_from_config\<close>.\<close>

inductive xt_reach :: "encoder \<Rightarrow> nat \<Rightarrow> XdsSystem \<Rightarrow> bool" for enc where
  start: "XdsControlPlane_new enc config metrics = Inr cp \<Longrightarrow>
    xt_reach enc 0 \<lparr>xc_cp = cp, xc_taken = \<lambda>_. 0, xc_streams = Map.empty, xc_next = 0, xc_rebuilds = Map.empty\<rparr>"
| connect: "xt_reach enc n x \<Longrightarrow>
    xt_reach enc n (x\<lparr>xc_cp := set_open (xc_next x) True (xc_cp x),
      xc_streams := (xc_streams x)(xc_next x \<mapsto> ([], [])), xc_next := xc_next x + 1\<rparr>)"
| receive: "xt_reach enc n x \<Longrightarrow> xc_streams x sid = Some (node_id, []) \<Longrightarrow>
    ads_receive sid node_id message (xc_cp x) = (node_id', cp, responses) \<Longrightarrow>
    xt_reach enc n (x\<lparr>xc_cp := cp, xc_streams := (xc_streams x)(sid \<mapsto> (node_id', responses))\<rparr>)"
| send: "xt_reach enc n x \<Longrightarrow> xc_streams x sid = Some (node_id, r # rs) \<Longrightarrow> can_send sid x \<Longrightarrow>
    xt_reach enc n (x\<lparr>xc_cp := send_one sid r (xc_cp x), xc_streams := (xc_streams x)(sid \<mapsto> (node_id, rs))\<rparr>)"
| send_failed: "xt_reach enc n x \<Longrightarrow> xc_streams x sid = Some (node_id, r # rs) \<Longrightarrow>
    \<not> chn_open (xp_channels (xc_cp x) sid) \<Longrightarrow>
    xt_reach enc n (x\<lparr>xc_streams := (xc_streams x)(sid \<mapsto> (node_id, []))\<rparr>)"
| takes: "xt_reach enc n x \<Longrightarrow> 0 < queued sid x \<Longrightarrow>
    xt_reach enc n (x\<lparr>xc_taken := (xc_taken x)(sid := Suc (xc_taken x sid))\<rparr>)"
| hang_up: "xt_reach enc n x \<Longrightarrow> xt_reach enc n (x\<lparr>xc_cp := set_open sid False (xc_cp x)\<rparr>)"
| stream_end: "xt_reach enc n x \<Longrightarrow> xc_streams x sid = Some (node_id, []) \<Longrightarrow>
    xt_reach enc n (x\<lparr>xc_cp := ads_close node_id (xc_cp x), xc_streams := (xc_streams x)(sid := None)\<rparr>)"
| begins: "xt_reach enc n x \<Longrightarrow> xc_rebuilds x i = None \<Longrightarrow> rebuild_begin enc config (xc_cp x) = (cp, pc) \<Longrightarrow>
    xt_reach enc (Suc n) (set_rebuild i pc (x\<lparr>xc_cp := cp\<rparr>))"
| rebuilds: "xt_reach enc n x \<Longrightarrow> rebuild_step i x x' \<Longrightarrow> xt_reach enc n x'"

end
