(* ===== verification/Startup_Correct.thy ===== *)
theory Startup_Correct
  imports Startup Jwks_Refresh_Correct Interleaving Xds_Tasks Observability_Correct
begin

text \<open>
  Properties of the start: that it succeeds on a valid configuration, and that the state it
  ends in is where the invariants of the other components begin.
\<close>

subsection \<open>The components\<close>

lemma fatal_log_Inr [simp]: "fatal_log message f r = Inr a \<longleftrightarrow> r = Inr a"
  by (cases r) (simp_all add: fatal_log_def)

lemma map_sum_right_Inr: "map_sum (\<lambda>x. x) f r = Inr b \<longleftrightarrow> (\<exists>a. r = Inr a \<and> b = f a)"
  by (cases r) auto

lemma read_config_Inr:
  "read_config S path = Inr (raw, cfg) \<longleftrightarrow> fs_read (su_admin S) path = Inr raw \<and> loads (su_admin S) raw cfg"
  by (auto simp: read_config_def load_config_loads [symmetric] split: sum.splits)

lemma init_metrics_Inr: "init_metrics S = Inr m \<Longrightarrow> m = \<lparr>mr_calls = []\<rparr>"
  by (auto simp: init_metrics_def map_sum_right_Inr MetricsRegistry_new_def map_sum_def split: sum.splits)

lemma init_metrics_ok: "prometheus_spec (su_prometheus S) names \<Longrightarrow> init_metrics S = Inr \<lparr>mr_calls = []\<rparr>"
  using metrics_new_ok [of "su_prometheus S" names] by (auto simp: init_metrics_def map_sum_right_Inr)

lemma init_xds_Inr:
  assumes "init_xds S cfg m = Inr (xds, m')"
  shows "case xds of
      None \<Rightarrow> \<not> xc_enabled (gc_xds cfg) \<and> m' = m
    | Some cp \<Rightarrow> xc_enabled (gc_xds cfg) \<and> XdsSnapshot_build (xds_encoder (su_admin S)) cfg 1 = Inr (xp_snapshot cp)
        \<and> m' = set_xds_snapshot_version 1 m"
  using assms by (auto simp: init_xds_def map_sum_right_Inr XdsControlPlane_new_def and_then_Inr Let_def VersionCounter_new_def split: if_splits)

lemma init_xds_ok:
  assumes "encodes_all (xds_encoder (su_admin S))" "accepted_config u cfg"
  shows "\<exists>xds m'. init_xds S cfg m = Inr (xds, m')"
  using fresh_control_plane [OF assms, of m] by (auto simp: init_xds_def fatal_log_def)

lemma init_rate_limiter_ok:
  assumes "is_ok (su_open_client S ''redis://invalid:0/0'')"
  shows "\<exists>x. init_rate_limiter S cfg e = Inr x"
proof -
  have "RateLimiter_from_config (su_open_client S) (su_connect S) (gc_rate_limits cfg) e \<noteq> None"
    using assms by (auto simp: RateLimiter_from_config_def is_ok_iff Let_def split: sum.splits)
  then obtain x where "RateLimiter_from_config (su_open_client S) (su_connect S) (gc_rate_limits cfg) e = Some x" by blast
  then show ?thesis by (auto simp: init_rate_limiter_def split: prod.splits)
qed

lemma init_plugins_ok:
  "build_runtime (plugins_env (su_admin S)) cfg 1 = Inr rt \<Longrightarrow> init_plugins S cfg = Inr (Some (PluginEngine_new rt))"
  by (simp add: init_plugins_def PluginEngine_from_config_def fatal_log_def)

lemma init_plugins_Inr:
  "init_plugins S cfg = Inr r \<Longrightarrow> \<exists>engine. r = Some engine \<and> build_runtime (plugins_env (su_admin S)) cfg 1 = Inr (pe_runtime engine)"
  by (auto simp: init_plugins_def map_sum_right_Inr PluginEngine_from_config_def and_then_Inr PluginEngine_new_def)

lemma write_envoy_config_ok:
  assumes "accepted_config u cfg" "yaml_to_value (su_admin S) (YMapping []) = Inr (YMapping [])"
    and "\<And>y. is_ok (yaml_to_string (su_admin S) y)" "\<And>t. is_ok (fs_write (su_admin S) path t)"
  shows "\<exists>f. write_envoy_config S cfg path files = Inr f"
proof -
  obtain b where b: "generate_envoy_config (yaml_to_value (su_admin S)) (yaml_to_string (su_admin S)) cfg
      = Some (map_sum Serialization (\<lambda>s. s) (yaml_to_string (su_admin S) b))"
    using generate_valid [where to_value = "yaml_to_value (su_admin S)" and to_string = "yaml_to_string (su_admin S)", OF assms(1,2)] by blast
  obtain t where t: "yaml_to_string (su_admin S) b = Inr t" using assms(3) [of b] by (auto simp: is_ok_iff)
  obtain u' where "fs_write (su_admin S) path t = Inr u'" using assms(4) [of t] by (auto simp: is_ok_iff)
  with b t show ?thesis by (simp add: write_envoy_config_def fatal_log_def)
qed

lemma build_state_Some:
  assumes "build_state sha now cfg raw path envoy_path jwks limiter metrics engine xds = Some st"
  shows "cs_config (as_config_state st) = cfg" "as_metrics st = metrics" "as_plugin_engine st = engine" "as_xds st = xds"
    "as_concurrency_limit st \<le> MAX_PERMITS" "as_jwks_registry st = jwks" "cs_sha256 (as_config_state st) = sha raw"
    "\<forall>n. gs_max_concurrent_requests (gc_gateway cfg) = Some n \<longrightarrow> as_concurrency_limit st = unat n"
  using assms by (auto simp: build_state_def Semaphore_new_def split: option.splits if_splits)

lemma panic_or: "(case x of None \<Rightarrow> Inl Panic | Some st \<Rightarrow> Inr (f st)) = Inr b \<longleftrightarrow> (\<exists>st. x = Some st \<and> b = f st)"
  by (auto split: option.splits)

lemma build_components_Inr:
  assumes "build_components S path raw cfg files e = Inr sd"
  shows "\<exists>xds m engine jwks limiter.
    init_xds S cfg \<lparr>mr_calls = []\<rparr> = Inr (xds, m) \<and> init_plugins S cfg = Inr engine \<and> init_jwks S cfg = Inr (jwks, sd_loops sd)
    \<and> build_state (sha256 (su_admin S)) (su_now S) cfg raw path (env_var S ''ENVOY_CONFIG_PATH'') jwks limiter m engine xds
        = Some (aw_app (sd_world sd))"
proof -
  let ?envoy = "env_var S ''ENVOY_CONFIG_PATH''"
  obtain jwks loops limiter m0 engine xds m st where
    j: "init_jwks S cfg = Inr (jwks, loops)" and m0: "init_metrics S = Inr m0" and p: "init_plugins S cfg = Inr engine" and
    x: "init_xds S cfg m0 = Inr (xds, m)" and
    b: "build_state (sha256 (su_admin S)) (su_now S) cfg raw path ?envoy jwks limiter m engine xds = Some st" and
    sd: "aw_app (sd_world sd) = st" "sd_loops sd = loops"
    using assms unfolding build_components_def Let_def
    by (simp add: and_then_Inr case_prod_beta panic_or, elim exE conjE, simp)
  show ?thesis unfolding sd
    by (intro exI conjI) (rule x [unfolded init_metrics_Inr [OF m0]], rule p, rule j, rule b)
qed

lemma boot_Inr:
  assumes "boot S tg files e = (tg', Inr (sd, servers))"
  shows "\<exists>raw cfg path. path = (case env_var S ''GATEWAY_CONFIG'' of Some p \<Rightarrow> p | None \<Rightarrow> ''configs/gateway.yaml'')
    \<and> fs_read (su_admin S) path = Inr raw \<and> loads (su_admin S) raw cfg \<and> init_tracing (su_otel S) (oc_tracing (gc_observability cfg)) tg = (tg', Inr ())
    \<and> build_components S path raw cfg files e = Inr sd \<and> serve S (aw_app (sd_world sd)) = Inr servers"
proof -
  let ?path = "case env_var S ''GATEWAY_CONFIG'' of Some p \<Rightarrow> p | None \<Rightarrow> ''configs/gateway.yaml''"
  obtain raw cfg where r: "read_config S ?path = Inr (raw, cfg)"
    using assms by (auto simp: boot_def Let_def split: sum.splits)
  then have "fs_read (su_admin S) ?path = Inr raw" "loads (su_admin S) raw cfg" by (simp_all add: read_config_Inr)
  moreover have "init_tracing (su_otel S) (oc_tracing (gc_observability cfg)) tg = (tg', Inr ())
    \<and> build_components S ?path raw cfg files e = Inr sd \<and> serve S (aw_app (sd_world sd)) = Inr servers"
    using assms by (auto simp: boot_def Let_def r and_then_Inr split: prod.splits sum.splits)
  ultimately show ?thesis by blast
qed

text \<open>The servers of a configuration, in the order of their start.\<close>

definition servers_of :: "GatewayConfig \<Rightarrow> (Server \<times> string) list" where
  "servers_of cfg = (AdminApi, gs_admin_address (gc_gateway cfg))
     # (case gs_extauthz_address (gc_gateway cfg) of Some a \<Rightarrow> [(ExtAuthzService, a)] | None \<Rightarrow> [])
     @ (if xc_enabled (gc_xds cfg) then [(XdsService, xc_listen_address (gc_xds cfg))] else [])
     @ (if ep_enabled (gc_ext_proc cfg) then [(ExtProcService, ep_listen_address (gc_ext_proc cfg))] else [])"

lemma serve_cases:
  assumes "cs_config (as_config_state st) = cfg" "as_xds st \<noteq> None \<longleftrightarrow> xc_enabled (gc_xds cfg)"
  shows "serve S st = Inr servers \<Longrightarrow> servers = servers_of cfg"
    "is_ok (tcp_bind S (gs_admin_address (gc_gateway cfg))) \<Longrightarrow>
     (\<forall>a. gs_extauthz_address (gc_gateway cfg) = Some a \<longrightarrow> is_ok (tcp_bind S a)) \<Longrightarrow>
     (xc_enabled (gc_xds cfg) \<longrightarrow> is_ok (SocketAddr_from_str (xc_listen_address (gc_xds cfg)))) \<Longrightarrow>
     (ep_enabled (gc_ext_proc cfg) \<longrightarrow> is_ok (SocketAddr_from_str (ep_listen_address (gc_ext_proc cfg)))) \<Longrightarrow>
     serve S st = Inr (servers_of cfg)"
  using assms
  by (auto simp: serve_def servers_of_def parse_socket_addr_def Let_def and_then_Inr is_ok_iff split: option.splits if_splits)

lemma serve_bad_xds:
  assumes "cs_config (as_config_state st) = cfg" "as_xds st \<noteq> None" "SocketAddr_from_str (xc_listen_address (gc_xds cfg)) = Inl err"
    and "is_ok (tcp_bind S (gs_admin_address (gc_gateway cfg)))"
    and "\<forall>a. gs_extauthz_address (gc_gateway cfg) = Some a \<longrightarrow> is_ok (tcp_bind S a)"
  shows "serve S st = Inl (FatalLog ''invalid xDS listen address'' err)"
  using assms by (auto simp: serve_def parse_socket_addr_def fatal_log_def Let_def is_ok_iff split: option.splits)

lemma init_xds_start:
  assumes "init_xds S cfg m = Inr (Some cp, m')"
  shows "xt_reach (xds_encoder (su_admin S)) 0 \<lparr>xc_cp = cp, xc_taken = \<lambda>_. 0, xc_streams = Map.empty, xc_next = 0, xc_rebuilds = Map.empty\<rparr>"
  by (rule xt_reach.start [where config = cfg and metrics = m])
    (use assms in \<open>auto simp: init_xds_def map_sum_right_Inr split: if_splits\<close>)

lemma built_xds: "build_components S path raw cfg files e = Inr sd \<Longrightarrow>
  cs_config (as_config_state (aw_app (sd_world sd))) = cfg \<and> (as_xds (aw_app (sd_world sd)) \<noteq> None \<longleftrightarrow> xc_enabled (gc_xds cfg))"
  using build_components_Inr [of S path raw cfg files e sd] init_xds_Inr [of S cfg] build_state_Some
  by (fastforce split: option.splits)

text \<open>The refresh loops of a valid configuration all start.\<close>

lemma set_mapping_insert: "set (mapping_insert k v m) \<subseteq> insert (k, v) (set m)"
  by (induction k v m rule: mapping_insert.induct) auto

lemma build_caches_from:
  assumes "build_caches J fetch now ps caches0 = Inr caches" "(n, c) \<in> set caches"
  shows "(n, c) \<in> set caches0 \<or> jc_provider c \<in> set ps \<and> jc_fetched_at c = now"
  using assms
proof (induction ps arbitrary: caches0)
  case (Cons p ps)
  then obtain c' where c': "JwksCache_new J fetch now p = Inr c'"
    "build_caches J fetch now ps (mapping_insert (ap_name p) c' caches0) = Inr caches"
    by (auto simp: and_then_Inr)
  have "jc_provider c' = p \<and> jc_fetched_at c' = now" using c'(1) by (auto simp: JwksCache_new_Inr)
  with Cons.IH [OF c'(2) Cons.prems(2)] set_mapping_insert [of "ap_name p" c' caches0] show ?case by auto
qed simp

lemma loops_started:
  assumes "init_jwks S cfg = Inr (jwks, loops)" "accepted_config u cfg" "p \<in> set (ac_providers (gc_auth cfg))"
  shows "\<exists>cache sys. registry_get jwks (ap_name p) = Some cache \<and> jc_provider cache = p
    \<and> (ap_name p, Some sys) \<in> set loops \<and> sy_cache sys = cache \<and> (\<forall>J. refresh_reach J (su_notify S) sys)"
proof -
  let ?ps = "ac_providers (gc_auth cfg)"
  obtain caches where c: "build_caches (su_jwt S) (su_fetch S) (su_clock S) (ac_providers (gc_auth cfg)) [] = Inr caches"
    "loops = map (\<lambda>(name, cache). (name, spawn_refresh_loop (su_notify S) (su_clock S) cache)) caches" "jwks = \<lparr>jr_caches = caches\<rparr>"
    using assms(1) by (auto simp: init_jwks_def JwksCacheRegistry_from_config_def spawn_all_refresh_loops_def and_then_Inr)
  have d: "distinct (map ap_name ?ps)" "ap_cache_ttl_seconds p \<noteq> 0"
    using assms(2,3) by (auto simp: accepted_config_iff valid_provider_def Let_def)
  obtain cache where cache: "JwksCache_new (su_jwt S) (su_fetch S) (su_clock S) p = Inr cache" "map_of caches (ap_name p) = Some cache"
    using build_caches_get [OF c(1) d(1)] assms(3) by auto
  then have p: "jc_provider cache = p" "jc_fetched_at cache = su_clock S" by (auto simp: JwksCache_new_Inr)
  then have "ttl_of cache \<noteq> 0" using d(2) by (simp add: ttl_of_def unat_eq_0)
  then obtain sys where sys: "spawn_refresh_loop (su_notify S) (su_clock S) cache = Some sys" "sy_cache sys = cache"
    by (simp add: spawn_refresh_loop_def)
  have "(ap_name p, Some sys) \<in> set loops" using map_of_SomeD [OF cache(2)] sys(1) by (force simp: c(2))
  moreover have "refresh_reach J (su_notify S) sys" for J using sys(1) p(2) by (auto intro: refresh_reach.spawned)
  ultimately show ?thesis using p(1) sys(2) cache(2) c(3) by (auto simp: registry_get_def)
qed

subsection \<open>A concrete start\<close>

definition demo_startup :: "(unit, unit, nat, unit, unit, string list, string, f64 \<times> string, task list \<times> bool) startup_env" where
  "demo_startup =
     \<lparr>su_admin = demo_admin demo_other, env_var = \<lambda>_. None, su_otel = demo_otel, info_enabled = \<lambda>_. False,
      su_jwt = sample_jwt, su_fetch = \<lambda>_. Inr \<lparr>doc_keys = []\<rparr>, su_notify = queue_notify, su_clock = 0, su_open_client = \<lambda>_. Inr (),
      su_connect = \<lambda>e _. (e, False), su_ping_conn = \<lambda>e. (e, False), su_prometheus = list_prometheus, su_now = 0,
      tcp_bind = \<lambda>_. Inr ()\<rparr>"

lemma demo_runtime: "is_ok (build_runtime sample_env demo_other 1)"
  by (simp add: build_runtime_def demo_other_def sample_config_def PluginsConfig_default_def)

text \<open>What the environment has to provide for a start on the configuration \<open>cfg\<close> of the text \<open>raw\<close>.\<close>

definition can_start :: "('t, 's, 'k, 'c, 'e, 'p, 'x, 'v, 'n) startup_env \<Rightarrow> string \<Rightarrow> GatewayConfig \<Rightarrow> bool" where
  "can_start S raw cfg \<longleftrightarrow>
     fs_read (su_admin S) (case env_var S ''GATEWAY_CONFIG'' of Some p \<Rightarrow> p | None \<Rightarrow> ''configs/gateway.yaml'') = Inr raw
   \<and> (tc_enabled (oc_tracing (gc_observability cfg)) \<longrightarrow>
        is_ok (build_exporter (su_otel S) (tc_otlp_endpoint (oc_tracing (gc_observability cfg)))))
   \<and> (\<forall>p. env_var S ''ENVOY_CONFIG_PATH'' = Some p \<longrightarrow>
        yaml_to_value (su_admin S) (YMapping []) = Inr (YMapping []) \<and> (\<forall>y. is_ok (yaml_to_string (su_admin S) y))
        \<and> (\<forall>t. is_ok (fs_write (su_admin S) p t)))
   \<and> is_ok (JwksCacheRegistry_from_config (su_jwt S) (su_fetch S) (su_clock S) (gc_auth cfg))
   \<and> is_ok (su_open_client S ''redis://invalid:0/0'')
   \<and> is_ok (build_runtime (plugins_env (su_admin S)) cfg 1) \<and> encodes_all (xds_encoder (su_admin S))
   \<and> (\<forall>n. gs_max_concurrent_requests (gc_gateway cfg) = Some n \<longrightarrow> unat n \<le> MAX_PERMITS)
   \<and> is_ok (tcp_bind S (gs_admin_address (gc_gateway cfg)))
   \<and> (\<forall>a. gs_extauthz_address (gc_gateway cfg) = Some a \<longrightarrow> is_ok (tcp_bind S a))"

lemma can_startD:
  assumes "can_start S raw cfg"
  shows "\<And>p. env_var S ''ENVOY_CONFIG_PATH'' = Some p \<Longrightarrow> yaml_to_value (su_admin S) (YMapping []) = Inr (YMapping [])"
    "\<And>p y. env_var S ''ENVOY_CONFIG_PATH'' = Some p \<Longrightarrow> is_ok (yaml_to_string (su_admin S) y)"
    "\<And>p t. env_var S ''ENVOY_CONFIG_PATH'' = Some p \<Longrightarrow> is_ok (fs_write (su_admin S) p t)"
    "is_ok (JwksCacheRegistry_from_config (su_jwt S) (su_fetch S) (su_clock S) (gc_auth cfg))"
    "is_ok (su_open_client S ''redis://invalid:0/0'')"
    "is_ok (build_runtime (plugins_env (su_admin S)) cfg 1)" "encodes_all (xds_encoder (su_admin S))"
    "\<And>n. gs_max_concurrent_requests (gc_gateway cfg) = Some n \<Longrightarrow> unat n \<le> MAX_PERMITS"
    "tc_enabled (oc_tracing (gc_observability cfg)) \<longrightarrow>
       is_ok (build_exporter (su_otel S) (tc_otlp_endpoint (oc_tracing (gc_observability cfg))))"
  using assms by (simp_all add: can_start_def)

lemma build_components_ok:
  assumes "can_start S raw cfg" "loads (su_admin S) raw cfg" "prometheus_spec (su_prometheus S) names"
  shows "\<exists>sd. build_components S path raw cfg files e = Inr sd"
proof -
  note can = can_startD [OF assms(1)]
  have v: "accepted_config (url_ok (su_admin S)) cfg" using assms(2) by (simp add: loads_def)
  obtain f where f: "(case env_var S ''ENVOY_CONFIG_PATH'' of Some p \<Rightarrow> write_envoy_config S cfg p files | None \<Rightarrow> Inr files) = Inr f"
    using write_envoy_config_ok [OF v can(1-3)] by (cases "env_var S ''ENVOY_CONFIG_PATH''") fastforce+
  obtain jwks loops where j: "init_jwks S cfg = Inr (jwks, loops)" using can(4) by (auto simp: init_jwks_def is_ok_iff and_then_Inr)
  obtain e' lm where l: "init_rate_limiter S cfg e = Inr (e', lm)" using init_rate_limiter_ok [OF can(5)] by (metis surj_pair)
  obtain rt where p: "init_plugins S cfg = Inr (Some (PluginEngine_new rt))"
    using can(6) init_plugins_ok by (auto simp: is_ok_iff)
  obtain xds m where x: "init_xds S cfg \<lparr>mr_calls = []\<rparr> = Inr (xds, m)" using init_xds_ok [OF can(7) v] by blast
  obtain st where b: "build_state (sha256 (su_admin S)) (su_now S) cfg raw path (env_var S ''ENVOY_CONFIG_PATH'')
      jwks lm m (Some (PluginEngine_new rt)) xds = Some st"
    using can(8) by (cases "gs_max_concurrent_requests (gc_gateway cfg)") (auto simp: build_state_def Semaphore_new_def not_less)
  show ?thesis
    unfolding build_components_def Let_def f and_then_simps j prod.case l init_metrics_ok [OF assms(3)] p x b option.case by blast
qed

lemma init_tracing_ok:
  assumes "tg_subscriber tg = None" "tc_enabled t \<longrightarrow> is_ok (build_exporter otel (tc_otlp_endpoint t))"
  shows "\<exists>tg'. init_tracing otel t tg = (tg', Inr ())"
  using assms by (auto simp: init_tracing_def try_init_def is_ok_iff Let_def)

lemma boot_ok:
  assumes "can_start S raw cfg" "loads (su_admin S) raw cfg" "prometheus_spec (su_prometheus S) names" "tg_subscriber tg = None"
    and "xc_enabled (gc_xds cfg) \<longrightarrow> is_ok (SocketAddr_from_str (xc_listen_address (gc_xds cfg)))"
    and "ep_enabled (gc_ext_proc cfg) \<longrightarrow> is_ok (SocketAddr_from_str (ep_listen_address (gc_ext_proc cfg)))"
  shows "\<exists>tg' sd. boot S tg files e = (tg', Inr (sd, servers_of cfg)) \<and> cs_config (as_config_state (aw_app (sd_world sd))) = cfg"
proof -
  let ?path = "case env_var S ''GATEWAY_CONFIG'' of Some p \<Rightarrow> p | None \<Rightarrow> ''configs/gateway.yaml''"
  have r: "read_config S ?path = Inr (raw, cfg)" using assms(1,2) by (simp add: read_config_Inr can_start_def)
  obtain tg' where t: "init_tracing (su_otel S) (oc_tracing (gc_observability cfg)) tg = (tg', Inr ())"
    using init_tracing_ok [OF assms(4) can_startD(9) [OF assms(1)]] by blast
  obtain sd where sd: "build_components S ?path raw cfg files e = Inr sd" using build_components_ok [OF assms(1-3)] by blast
  note b = built_xds [OF sd]
  have "serve S (aw_app (sd_world sd)) = Inr (servers_of cfg)"
    by (rule serve_cases(2)) (use b assms(1,5,6) in \<open>auto simp: can_start_def\<close>)
  then show ?thesis using b unfolding boot_def Let_def r sum.case prod.case t sd and_then_simps by simp
qed

lemma demo_startup_spec:
  "loads (su_admin demo_startup) ''doc'' demo_other" "can_start demo_startup ''doc'' demo_other"
  "prometheus_spec (su_prometheus demo_startup) set"
  "\<not> xc_enabled (gc_xds demo_other)" "\<not> ep_enabled (gc_ext_proc demo_other)"
  using demo_loads(1) demo_admin_spec(1) list_prometheus_spec demo_runtime
  by (simp_all add: can_start_def demo_startup_def demo_admin_def demo_other_def sample_config_def JwksCacheRegistry_from_config_def
      JwksCache_new_def fetch_and_store_def parse_jwks_keys_def XdsConfig_default_def ExtProcConfig_default_def)

lemma demo_boots:
  "\<exists>tg sd. boot demo_startup Tracing_fresh Map.empty () = (tg, Inr (sd, servers_of demo_other))
    \<and> cs_config (as_config_state (aw_app (sd_world sd))) = demo_other"
  by (rule boot_ok [OF demo_startup_spec(2,1,3)]) (use demo_startup_spec(4,5) in \<open>simp_all add: Tracing_fresh_def\<close>)

subsection \<open>Properties\<close>

text \<open>C14. The control plane starts on a configuration that validation accepts, in an environment that
  provides what it needs: the file can be read; no tracing subscriber is set yet and, with
  tracing enabled, the exporter can be built for the endpoint; if \<open>ENVOY_CONFIG_PATH\<close> is set, YAML
  can be written out and the file written; the key set of every provider can be fetched and
  parsed; the Redis client can be made for the address that stands for an unusable one; the metrics
  register; the plugins can be loaded and the xDS resources encoded; \<open>max_concurrent_requests\<close> is at
  most \<open>Semaphore::MAX_PERMITS\<close>; the admin and ext_authz addresses can be bound; and the xDS and
  ext_proc addresses, where enabled, are socket addresses. Then the start succeeds, whether or not
  Redis can be reached; the configuration of the file is in force, and exactly the servers it
  enables are running.\<close>

theorem startup_succeeds:
  assumes "can_start S raw cfg" "loads (su_admin S) raw cfg" "prometheus_spec (su_prometheus S) names" "tg_subscriber tg = None"
    and "xc_enabled (gc_xds cfg) \<longrightarrow> is_ok (SocketAddr_from_str (xc_listen_address (gc_xds cfg)))"
    and "ep_enabled (gc_ext_proc cfg) \<longrightarrow> is_ok (SocketAddr_from_str (ep_listen_address (gc_ext_proc cfg)))"
  shows "\<exists>tg' sd. boot S tg files e = (tg', Inr (sd, servers_of cfg))
    \<and> cs_config (as_config_state (aw_app (sd_world sd))) = cfg \<and> run S (\<lambda>_. None) tg files e = (tg', Serving (servers_of cfg))"
  using boot_ok [OF assms, of files e] by (auto simp: run_def)

theorem startup_succeeds_witness:
  "\<exists>tg. run demo_startup (\<lambda>_. None) Tracing_fresh Map.empty () = (tg, Serving [(AdminApi, ''0.0.0.0:9090'')])"
proof -
  have "servers_of demo_other = [(AdminApi, ''0.0.0.0:9090'')]"
    using demo_startup_spec(4,5) by (simp add: servers_of_def demo_other_def sample_config_def)
  then show ?thesis using startup_succeeds [OF demo_startup_spec(2,1,3), of Tracing_fresh] demo_startup_spec(4,5)
    by (auto simp: Tracing_fresh_def)
qed

text \<open>C15. A control plane that started is where the invariants begin. Its configuration is the one
  of the text that the configured file holds, accepted by validation, and the hash of that text is
  recorded. Its plugin chains and, with xDS enabled, its first snapshot are built from that
  configuration. Every provider of the configuration has a cache in the registry and a refresh
  loop that runs on that cache. No request is in flight, and the servers are those of the
  configuration. All step relations start from there.\<close>

theorem started_control_plane:
  fixes g :: "('c, 'k, 'e, 'l, 'lk) World"
  assumes "boot S tg files e = (tg', Inr (sd, servers))" "w = sd_world sd" "wd_app g = aw_app w"
    and "cfg = cs_config (as_config_state (aw_app w))" "permits = as_concurrency_limit (aw_app w)"
    and "path = (case env_var S ''GATEWAY_CONFIG'' of Some p \<Rightarrow> p | None \<Rightarrow> ''configs/gateway.yaml'')"
  shows "(\<exists>raw. fs_read (su_admin S) path = Inr raw \<and> yaml_from_str (su_admin S) (from_utf8_lossy raw) = Inr cfg
        \<and> cs_sha256 (as_config_state (aw_app w)) = sha256 (su_admin S) raw)
    \<and> accepted_config (url_ok (su_admin S)) cfg \<and> servers = servers_of cfg
    \<and> cp_reach (su_admin S) V w \<and> gw_reach V permits 0 0 g
    \<and> cc_reach V (su_admin S) permits \<lparr>cc_world = g, cc_files = aw_files w, cc_reqs = Map.empty, cc_reloads = Map.empty, cc_queue = []\<rparr>
    \<and> (\<forall>p \<in> set (ac_providers (gc_auth cfg)). \<exists>cache sys. registry_get (as_jwks_registry (aw_app w)) (ap_name p) = Some cache
         \<and> jc_provider cache = p \<and> (ap_name p, Some sys) \<in> set (sd_loops sd) \<and> sy_cache sys = cache
         \<and> (\<forall>J. refresh_reach J (su_notify S) sys))
    \<and> (\<exists>engine. as_plugin_engine (aw_app w) = Some engine
        \<and> build_runtime (plugins_env (su_admin S)) cfg 1 = Inr (pe_runtime engine))
    \<and> (case as_xds (aw_app w) of
         None \<Rightarrow> \<not> xc_enabled (gc_xds cfg)
       | Some cp \<Rightarrow> xc_enabled (gc_xds cfg) \<and> XdsSnapshot_build (xds_encoder (su_admin S)) cfg 1 = Inr (xp_snapshot cp)
           \<and> xt_reach (xds_encoder (su_admin S)) 0
               \<lparr>xc_cp = cp, xc_taken = \<lambda>_. 0, xc_streams = Map.empty, xc_next = 0, xc_rebuilds = Map.empty\<rparr>)"
proof -
  obtain raw cfg' where l: "fs_read (su_admin S) path = Inr raw" "loads (su_admin S) raw cfg'"
    and sd: "build_components S path raw cfg' files e = Inr sd" and sv: "serve S (aw_app (sd_world sd)) = Inr servers"
    using boot_Inr [OF assms(1)] assms(6) by blast
  obtain xds m engine jwks limiter where r: "init_xds S cfg' \<lparr>mr_calls = []\<rparr> = Inr (xds, m)" "init_plugins S cfg' = Inr engine"
    "init_jwks S cfg' = Inr (jwks, sd_loops sd)"
    "build_state (sha256 (su_admin S)) (su_now S) cfg' raw path (env_var S ''ENVOY_CONFIG_PATH'') jwks limiter m engine xds = Some (aw_app w)"
    using build_components_Inr [OF sd] assms(2) by blast
  note st = build_state_Some [OF r(4)]
  have cfg: "cfg' = cfg" using st(1) assms(4) by simp
  have v: "accepted_config (url_ok (su_admin S)) cfg" "yaml_from_str (su_admin S) (from_utf8_lossy raw) = Inr cfg"
    using l(2) cfg by (simp_all add: loads_def)
  have "gauge inflight_requests m = 0"
    using init_xds_Inr [OF r(1)] by (cases xds) (auto simp: set_xds_snapshot_version_def gauge_call, simp_all add: gauge_def)
  then have gw: "gw_reach V permits 0 0 g" using st(2) assms(3,5) by (intro started) simp_all
  have cp: "cp_reach (su_admin S) V w"
    using cp_reach.booted [OF l(2) r(4), of V "aw_files w"] by (cases w) simp
  have cc: "cc_reach V (su_admin S) permits \<lparr>cc_world = g, cc_files = aw_files w, cc_reqs = Map.empty, cc_reloads = Map.empty, cc_queue = []\<rparr>"
    by (rule cc_reach.booted [OF l(2)]) (use r(4) assms(3,5) in simp_all)
  have f: "\<exists>raw. fs_read (su_admin S) path = Inr raw \<and> yaml_from_str (su_admin S) (from_utf8_lossy raw) = Inr cfg
      \<and> cs_sha256 (as_config_state (aw_app w)) = sha256 (su_admin S) raw"
    using l(1) v(2) st(7) by blast
  have lo: "\<forall>p \<in> set (ac_providers (gc_auth cfg)). \<exists>cache sys. registry_get (as_jwks_registry (aw_app w)) (ap_name p) = Some cache
      \<and> jc_provider cache = p \<and> (ap_name p, Some sys) \<in> set (sd_loops sd) \<and> sy_cache sys = cache
      \<and> (\<forall>J. refresh_reach J (su_notify S) sys)"
    unfolding st(6) using loops_started [OF r(3) [unfolded cfg] v(1)] by blast
  have sv': "servers = servers_of cfg"
    using serve_cases(1) [of "aw_app (sd_world sd)" cfg S servers] sv built_xds [OF sd] cfg by simp
  have en: "\<exists>engine. as_plugin_engine (aw_app w) = Some engine
      \<and> build_runtime (plugins_env (su_admin S)) cfg 1 = Inr (pe_runtime engine)"
    using init_plugins_Inr [OF r(2)] st(3) cfg by simp
  have "case as_xds (aw_app w) of None \<Rightarrow> \<not> xc_enabled (gc_xds cfg)
     | Some cp \<Rightarrow> xc_enabled (gc_xds cfg) \<and> XdsSnapshot_build (xds_encoder (su_admin S)) cfg 1 = Inr (xp_snapshot cp)
        \<and> xt_reach (xds_encoder (su_admin S)) 0
               \<lparr>xc_cp = cp, xc_taken = \<lambda>_. 0, xc_streams = Map.empty, xc_next = 0, xc_rebuilds = Map.empty\<rparr>"
    using init_xds_Inr [OF r(1)] init_xds_start [of S cfg' _ _ m] r(1) st(4) cfg by (cases xds) auto
  then show ?thesis using f v(1) sv' cp gw cc lo en by (intro conjI)
qed

theorem started_control_plane_witness:
  "\<exists>tg sd servers. boot demo_startup Tracing_fresh Map.empty () = (tg, Inr (sd, servers)) \<and> servers = servers_of demo_other
    \<and> cp_reach (demo_admin demo_other) demo_env (sd_world sd) \<and> (\<exists>sys. (''main'', Some sys) \<in> set (sd_loops sd))"
proof -
  obtain tg sd where b: "boot demo_startup Tracing_fresh Map.empty () = (tg, Inr (sd, servers_of demo_other))"
    "cs_config (as_config_state (aw_app (sd_world sd))) = demo_other" using demo_boots by blast
  have p: "sample_provider \<in> set (ac_providers (gc_auth demo_other))" "ap_name sample_provider = ''main''"
    by (simp_all add: demo_other_def sample_config_def sample_provider_def)
  have a: "su_admin demo_startup = demo_admin demo_other" by (simp add: demo_startup_def)
  note c = started_control_plane [OF b(1) refl _ refl refl refl, of "(demo_world (sample_limiter False False True) None 1)\<lparr>wd_app := aw_app (sd_world sd)\<rparr>" demo_env,
      simplified, unfolded b(2) a]
  have "cp_reach (demo_admin demo_other) demo_env (sd_world sd)" using c by blast
  moreover have "\<exists>sys. (ap_name sample_provider, Some sys) \<in> set (sd_loops sd)" using c p(1) by blast
  ultimately show ?thesis using b(1) unfolding p(2) by blast
qed

text \<open>C36. A host name in the address of the xDS server ends the process, although validation
  accepts it: the servers before it have started, then \<open>parse_socket_addr\<close> exits. (Envoy and the
  admin address take host names.)\<close>

theorem host_name_address_exits:
  assumes "can_start S raw cfg" "loads (su_admin S) raw cfg" "prometheus_spec (su_prometheus S) names" "tg_subscriber tg = None"
    and "xc_enabled (gc_xds cfg)" "xc_listen_address (gc_xds cfg) = c # cs" "\<not> is_digit c" "c \<noteq> CHR ''[''"
  shows "host_port (xc_listen_address (gc_xds cfg))
    \<and> snd (run S first_end tg files e) = Exited (FatalLog ''invalid xDS listen address'' ''invalid socket address syntax'')"
proof -
  let ?path = "case env_var S ''GATEWAY_CONFIG'' of Some p \<Rightarrow> p | None \<Rightarrow> ''configs/gateway.yaml''"
  have r: "read_config S ?path = Inr (raw, cfg)" using assms(1,2) by (simp add: read_config_Inr can_start_def)
  obtain tg' where t: "init_tracing (su_otel S) (oc_tracing (gc_observability cfg)) tg = (tg', Inr ())"
    using init_tracing_ok [OF assms(4) can_startD(9) [OF assms(1)]] by blast
  obtain sd where sd: "build_components S ?path raw cfg files e = Inr sd" using build_components_ok [OF assms(1-3)] by blast
  note b = built_xds [OF sd]
  have "serve S (aw_app (sd_world sd)) = Inl (FatalLog ''invalid xDS listen address'' ''invalid socket address syntax'')"
    by (rule serve_bad_xds [of _ cfg]) (use b assms(1,5) socket_addr_not_name [OF assms(7,8), of cs] assms(6) in \<open>auto simp: can_start_def\<close>)
  then have "snd (run S first_end tg files e) = Exited (FatalLog ''invalid xDS listen address'' ''invalid socket address syntax'')"
    unfolding run_def boot_def Let_def r sum.case prod.case t sd and_then_simps by simp
  moreover have "host_port (xc_listen_address (gc_xds cfg))"
    using assms(2,5) by (auto simp: loads_def accepted_config_iff valid_addresses_def Let_def)
  ultimately show ?thesis by simp
qed

text \<open>A configuration that is valid and names the address of its xDS server by host name.\<close>

definition demo_named :: GatewayConfig where
  "demo_named = demo_other\<lparr>gc_xds := (gc_xds demo_other)\<lparr>xc_enabled := True, xc_listen_address := ''localhost:18000''\<rparr>\<rparr>"

lemma demo_named_valid: "accepted_config (\<lambda>_. True) demo_named"
proof -
  have "parse_uint (2 ^ 16) ''18000'' = Some 18000" by (simp add: parse_uint_def decimal_value_def digit_value_def is_digit_def)
  then have "host_port ''localhost:18000''" by (intro host_port_I [of _ "''localhost''" "''18000''"]) simp_all
  then show ?thesis using demo_other_valid by (simp add: demo_named_def accepted_config_iff valid_addresses_def Let_def)
qed

theorem host_name_address_exits_witness:
  "\<exists>S :: (unit, unit, nat, unit, unit, string list, string, f64 \<times> string, task list \<times> bool) startup_env.
    loads (su_admin S) ''doc'' demo_named
    \<and> snd (run S (\<lambda>_. None) Tracing_fresh Map.empty ()) = Exited (FatalLog ''invalid xDS listen address'' ''invalid socket address syntax'')"
proof -
  let ?S = "demo_startup\<lparr>su_admin := demo_admin demo_named\<rparr>"
  have l: "loads (su_admin ?S) ''doc'' demo_named" using demo_named_valid by (simp add: loads_def demo_admin_def)
  have "is_ok (build_runtime sample_env demo_named 1)"
    by (simp add: build_runtime_def demo_named_def demo_other_def sample_config_def PluginsConfig_default_def)
  then have c: "can_start ?S ''doc'' demo_named" using demo_startup_spec(2) demo_admin_spec(1)
    by (simp add: can_start_def demo_startup_def demo_admin_def demo_named_def)
  have p: "prometheus_spec (su_prometheus ?S) set" using demo_startup_spec(3) by simp
  from host_name_address_exits [OF c l p, of Tracing_fresh "CHR ''l''" "''ocalhost:18000''"] l
  show ?thesis by (intro exI [of _ ?S]) (simp add: demo_named_def Tracing_fresh_def is_digit_def)
qed

definition demo_traced :: GatewayConfig where
  "demo_traced = demo_other\<lparr>gc_observability := (gc_observability demo_other)\<lparr>oc_tracing :=
     \<lparr>tc_enabled = True, tc_otlp_endpoint = ''http://otel:4317'', tc_sample_rate = Fin (1 / 2)\<rparr>\<rparr>\<rparr>"

lemma demo_traced_valid: "accepted_config (\<lambda>_. True) demo_traced"
  using demo_other_valid by (simp add: demo_traced_def accepted_config_iff valid_addresses_def accepted_tracing_def Let_def)

text \<open>Pending spans are lost when a server fails: the tracer provider is shut down only if the
  first server to end returns without an error. If it fails or its task panics, the process
  exits with the reason and the provider is not flushed.\<close>

theorem run_end:
  assumes "boot S tg files e = (tg', Inr (sd, servers))" "first_end servers = Some (server, ended)"
    and "tg_TRACER_PROVIDER tg' = Some provider"
  shows "case ended of
      ServerOk \<Rightarrow> run S first_end tg files e = (tg'\<lparr>tg_shut_down := tg_shut_down tg' @ [provider]\<rparr>, Returned)
    | ServerErr error \<Rightarrow> run S first_end tg files e = (tg', Exited (FatalLog ''server exited with error'' (server_error server @ error)))
    | ServerPanic error \<Rightarrow> run S first_end tg files e = (tg', Exited (FatalLog ''server task panicked'' error))"
  using assms by (auto simp: run_def shutdown_tracing_def split: ServerEnd.splits)

theorem run_end_witness:
  "\<exists>(S :: (unit, unit, nat, unit, unit, string list, string, f64 \<times> string, task list \<times> bool) startup_env) provider.
    run S (\<lambda>_. Some (AdminApi, ServerErr ''accept failed'')) Tracing_fresh Map.empty ()
      = (Tracing_fresh\<lparr>tg_propagator := True, tg_TRACER_PROVIDER := Some provider, tg_global_provider := Some provider,
           tg_subscriber := Some \<lparr>sb_filter = ''info'', sb_layers = [FmtLayer, OtelLayer provider ''api-gateway'']\<rparr>\<rparr>,
         Exited (FatalLog ''server exited with error'' ''admin API server error: accept failed''))"
proof -
  let ?S = "demo_startup\<lparr>su_admin := demo_admin demo_traced\<rparr>" and ?p = "(Fin (1 / 2), ''http://otel:4317'')"
  let ?tg = "Tracing_fresh\<lparr>tg_propagator := True, tg_TRACER_PROVIDER := Some ?p, tg_global_provider := Some ?p,
           tg_subscriber := Some \<lparr>sb_filter = ''info'', sb_layers = [FmtLayer, OtelLayer ?p ''api-gateway'']\<rparr>\<rparr>"
  have l: "loads (su_admin ?S) ''doc'' demo_traced" using demo_traced_valid by (simp add: loads_def demo_admin_def)
  have "is_ok (build_runtime sample_env demo_traced 1)"
    by (simp add: build_runtime_def demo_traced_def demo_other_def sample_config_def PluginsConfig_default_def)
  then have c: "can_start ?S ''doc'' demo_traced" using demo_startup_spec(2) demo_admin_spec(1)
    by (simp add: can_start_def demo_startup_def demo_admin_def demo_traced_def demo_otel_def)
  have p: "prometheus_spec (su_prometheus ?S) set" using demo_startup_spec(3) by simp
  have x: "\<not> xc_enabled (gc_xds demo_traced)" "\<not> ep_enabled (gc_ext_proc demo_traced)"
    using demo_startup_spec(4,5) by (simp_all add: demo_traced_def)
  from boot_ok [OF c l p, of Tracing_fresh Map.empty "()"] x
  obtain tg sd where b: "boot ?S Tracing_fresh Map.empty () = (tg, Inr (sd, servers_of demo_traced))" by (auto simp: Tracing_fresh_def)
  obtain raw cfg path where t: "loads (su_admin ?S) raw cfg" "init_tracing (su_otel ?S) (oc_tracing (gc_observability cfg)) Tracing_fresh = (tg, Inr ())"
    and sd: "build_components ?S path raw cfg Map.empty () = Inr sd"
    using boot_Inr [OF b] by blast
  have "cs_config (as_config_state (aw_app (sd_world sd))) = demo_traced"
    using b boot_ok [OF c l p, of Tracing_fresh Map.empty "()"] x by (auto simp: Tracing_fresh_def)
  then have "cfg = demo_traced" using built_xds [OF sd] by simp
  with t(2) have tg: "tg = ?tg"
    by (simp add: demo_startup_def init_tracing_def demo_traced_def demo_otel_def try_init_def once_set_def env_filter_def
        fclamp_def Tracing_fresh_def Let_def)
  from run_end [OF b, of "\<lambda>_. Some (AdminApi, ServerErr ''accept failed'')" AdminApi "ServerErr ''accept failed''" ?p] tg
  show ?thesis by (intro exI [of _ ?S] exI [of _ ?p]) simp
qed

end
