(* ===== verification/Interleaving_Correct.thy ===== *)
theory Interleaving_Correct
  imports Interleaving
begin

text \<open>
  Properties of interleaved requests and reloads: the pieces of a request compose to the
  handler; a request is decided under one configuration, and what it was allowed on holds at
  the time; permits; and every request and reload is answered.
\<close>

subsection \<open>The pieces\<close>

lemma fst_map_prod_id: "fst (map_prod (\<lambda>w. w) f p) = fst p"
  by (cases p) simp

lemma only_metrics_pieces:
  "only_metrics w (fst (route_piece V fl w))"
  "only_metrics w (fst (plugins_piece V fl cfg route w))"
  "only_metrics w (fst (auth_piece V fl cfg route pcont hs w))"
proof -
  show "only_metrics w (fst (route_piece V fl w))"
    by (simp add: route_piece_def Let_def method_denied_def fst_map_prod_id split: option.splits)
  show "only_metrics w (fst (plugins_piece V fl cfg route w))"
    using only_metrics_plugins [of w V "fl_times fl" "fl_meta V fl" route "fl_headers fl" "[]"]
    by (auto simp: plugins_piece_def split: prod.splits sum.splits)
  show "only_metrics w (fst (auth_piece V fl cfg route pcont hs w))"
    using only_metrics_auth [of w V "fl_times fl" cfg route "fl_headers fl" hs]
    by (auto simp: auth_piece_def fst_map_prod_id split: prod.splits sum.splits)
qed

lemma pieces_unanswered:
  "\<not> is_answered (snd (route_piece V fl w))" "\<not> is_answered (snd (plugins_piece V fl cfg route w))"
  "\<not> is_answered (snd (auth_piece V fl cfg route pcont hs w))"
  by (simp_all add: route_piece_def plugins_piece_def auth_piece_def Let_def map_prod_def case_prod_beta split: option.splits sum.splits)

lemma only_metrics_state:
  "only_metrics w v \<Longrightarrow> as_config_state (wd_app v) = as_config_state (wd_app w)
     \<and> as_concurrency_limit (wd_app v) = as_concurrency_limit (wd_app w)"
  by (auto simp: only_metrics_def)

lemma rate_limit_state:
  assumes "rate_limit_step V T cfg meta route headers pcont hs sub w = (w', resp)"
  shows "as_config_state (wd_app w') = as_config_state (wd_app w) \<and> as_concurrency_limit (wd_app w') = as_concurrency_limit (wd_app w)"
proof -
  obtain lm e r where r: "RateLimiter_check (ev_from_json V) (ev_invoke V) (tm_rate T) (as_rate_limiter (wd_app w)) (wd_redis w)
    (bucket_key_of V cfg route headers hs) (rl_bucket_capacity (rc_rate_limit route))
    (rl_refill_rate_per_sec (rc_rate_limit route)) = (lm, e, r)" by (rule prod_cases3)
  from only_metrics_state [OF rate_limit_step_spec(1) [OF r assms]] show ?thesis by simp
qed

lemma check_piece_frame:
  assumes "check_piece V fl pc w = (w', pc')"
  shows "as_config_state (wd_app w') = as_config_state (wd_app w)
    \<and> as_concurrency_limit (wd_app w') = as_concurrency_limit (wd_app w) + (if is_answered pc' \<and> \<not> is_answered pc then 1 else 0)"
proof (cases pc)
  case Queued
  with assms only_metrics_state [OF only_metrics_pieces(1) [of w V fl]] pieces_unanswered(1) [of V fl w] show ?thesis by simp
next
  case (Routed cfg route)
  with assms only_metrics_state [OF only_metrics_pieces(2) [of w V fl cfg route]] pieces_unanswered(2) [of V fl cfg route w]
  show ?thesis by simp
next
  case (PluginsRan cfg route pcont hs)
  with assms only_metrics_state [OF only_metrics_pieces(3) [of w V fl cfg route pcont hs]]
    pieces_unanswered(3) [of V fl cfg route pcont hs w] show ?thesis by simp
next
  case (Authenticated cfg route pcont hs sub)
  obtain v resp where s: "rate_limit_step V (fl_times fl) cfg (fl_meta V fl) route (fl_headers fl) pcont hs sub w = (v, resp)" by fastforce
  with assms Authenticated rate_limit_state [OF s] show ?thesis by auto
next
  case (Decided r)
  with assms show ?thesis by (auto simp: check_end_def upd_metrics_def Let_def)
next
  case (Answered r)
  with assms show ?thesis by simp
qed

fun check_rank :: "CheckPc \<Rightarrow> nat" where
  "check_rank Queued = 5"
| "check_rank (Routed _ _) = 4"
| "check_rank (PluginsRan _ _ _ _) = 3"
| "check_rank (Authenticated _ _ _ _ _) = 2"
| "check_rank (Decided _) = 1"
| "check_rank (Answered _) = 0"

lemma check_rank_0 [simp]: "check_rank pc = 0 \<longleftrightarrow> is_answered pc"
  by (cases pc) simp_all

lemma check_piece_rank: "check_piece V fl pc w = (w', pc') \<Longrightarrow> \<not> is_answered pc \<Longrightarrow> check_rank pc' < check_rank pc"
  by (cases pc) (auto simp: route_piece_def plugins_piece_def auth_piece_def Let_def map_prod_def
      split: option.splits if_splits prod.splits sum.splits)

lemma check_piece_queued: "check_piece V fl pc w = (w', pc') \<Longrightarrow> pc' \<noteq> Queued"
  by (cases pc) (auto simp: route_piece_def plugins_piece_def auth_piece_def Let_def map_prod_def
      split: option.splits if_splits prod.splits sum.splits)

text \<open>What holds of a request that holds the lock.\<close>

definition on_route :: "('k, 'e, 'l, 'c, 'i, 'lk) env \<Rightarrow> InFlight \<Rightarrow> GatewayConfig \<Rightarrow> RouteConfig \<Rightarrow> bool" where
  "on_route V fl cfg route \<longleftrightarrow>
     match_route (gc_routes cfg) (mt_host (fl_meta V fl)) (req_path (fl_req fl)) = Some route
   \<and> (\<exists>m \<in> set (rc_methods route). eq_ignore_ascii_case m (req_method (fl_req fl)))"

lemma check_piece_held:
  assumes "check_piece V fl pc w = (w', pc')" "held pc' = Some (cfg, route)"
  shows "held pc = Some (cfg, route) \<or> (pc = Queued \<and> cfg = config_of w \<and> on_route V fl cfg route)"
  using assms
  by (cases pc) (auto simp: route_piece_def plugins_piece_def auth_piece_def Let_def map_prod_def on_route_def list_ex_iff
      fl_meta_def meta_of_def split: option.splits if_splits prod.splits sum.splits)

text \<open>Piece by piece, a request that nothing interrupts is the handler: the five pieces of
  \<open>check_inner\<close> and the end of \<open>check\<close> have the effect and give the answer of the whole.\<close>

theorem pieces_compose_to_check:
  fixes w :: "('r, 'k, 'e, 'l, 'lk) World"
  assumes "entered T w = Some w1" "fl = \<lparr>fl_req = req, fl_id = request_id_of T w, fl_times = T\<rparr>"
    and "check V T req w = (w', resp)"
  shows "((\<lambda>(v, pc). check_piece V fl pc v) ^^ 5) (w1, Queued) = (w', Answered resp)"
proof -
  define step where "step = (\<lambda>(v :: ('r, 'k, 'e, 'l, 'lk) World, pc). check_piece V fl pc v)"
  obtain w2 r where inner: "check_inner V T (req_headers req) (req_method req) (req_path req) (request_id_of T w) w1 = (w2, r)"
    by fastforce
  have last: "step (w2, Decided r) = (w', Answered resp)"
    using assms inner by (auto simp: step_def check_cases fl_headers_def split: if_splits)
  have stay: "step (v, Answered a) = (v, Answered a)" for v a by (simp add: step_def)
  have m: "fl_meta V fl = meta_of V (req_headers req) (req_method req) (req_path req) (request_id_of T w)"
    "fl_headers fl = req_headers req" "fl_times fl = T" "fl_id fl = mt_request_id (fl_meta V fl)"
    by (simp_all add: assms(2) fl_meta_def fl_headers_def meta_of_def)
  have "step (step (step (step (w1, Queued)))) = (w2, Decided r) \<or> step (step (step (w1, Queued))) = (w2, Decided r)
      \<or> step (step (w1, Queued)) = (w2, Decided r) \<or> step (w1, Queued) = (w2, Decided r)"
    using inner unfolding check_inner_pre Let_def m(1) [symmetric]
    by (auto simp: step_def pre_check_def route_piece_def plugins_piece_def auth_piece_def m(2-4) Let_def map_prod_def
        split: option.splits if_splits prod.splits sum.splits)
  then have "step (step (step (step (step (w1, Queued))))) = (w', Answered resp)"
    by (elim disjE) (simp_all only: last stay)
  then show ?thesis by (simp add: numeral_eq_Suc step_def)
qed

subsection \<open>The invariant\<close>

definition config_inv :: "('k, 'e, 'l, 'c, 'i, 'lk) env \<Rightarrow> ('r, 'k, 'e, 'l, 'lk) Gateway \<Rightarrow> bool" where
  "config_inv V s \<longleftrightarrow> (\<forall>i fl pc cfg route. cc_reqs s i = Some (fl, pc) \<longrightarrow> held pc = Some (cfg, route) \<longrightarrow>
     cfg = config_of (cc_world s) \<and> on_route V fl cfg route)"

definition queue_inv :: "('r, 'k, 'e, 'l, 'lk) Gateway \<Rightarrow> bool" where
  "queue_inv s \<longleftrightarrow> distinct (cc_queue s)
     \<and> (\<forall>i. Reader i \<in> set (cc_queue s) \<longleftrightarrow> (\<exists>fl. cc_reqs s i = Some (fl, Queued)))
     \<and> (\<forall>j. Writer j \<in> set (cc_queue s) \<longleftrightarrow> (\<exists>pc. cc_reloads s j = Some pc \<and> awaits_lock pc))"

definition unanswered :: "('r, 'k, 'e, 'l, 'lk) Gateway \<Rightarrow> nat set" where
  "unanswered s = {i. \<exists>fl pc. cc_reqs s i = Some (fl, pc) \<and> \<not> is_answered pc}"

definition permit_inv :: "nat \<Rightarrow> ('r, 'k, 'e, 'l, 'lk) Gateway \<Rightarrow> bool" where
  "permit_inv permits s \<longleftrightarrow> finite (dom (cc_reqs s)) \<and> finite (dom (cc_reloads s))
     \<and> as_concurrency_limit (app_of s) + card (unanswered s) = permits"

fun reload_config :: "ReloadPc \<Rightarrow> (string \<times> GatewayConfig) option" where
  "reload_config (Loaded raw _ cfg) = Some (raw, cfg)"
| "reload_config (PluginsSwapped raw _ cfg) = Some (raw, cfg)"
| "reload_config (AwaitCommit raw _ cfg) = Some (raw, cfg)"
| "reload_config _ = None"

definition loaded_inv :: "('t, 's) admin_env \<Rightarrow> ('r, 'k, 'e, 'l, 'lk) Gateway \<Rightarrow> bool" where
  "loaded_inv A s \<longleftrightarrow> (\<exists>raw. loads A raw (config_of (cc_world s)) \<and> cs_sha256 (as_config_state (app_of s)) = sha256 A raw)
     \<and> (\<forall>j pc raw cfg. cc_reloads s j = Some pc \<longrightarrow> reload_config pc = Some (raw, cfg) \<longrightarrow> loads A raw cfg)"

lemma set_fields [simp]:
  "cc_world (set_reload j pc s) = cc_world s" "cc_reqs (set_reload j pc s) = cc_reqs s"
  "cc_reloads (set_reload j pc s) = (cc_reloads s)(j \<mapsto> pc)"
  "cc_queue (set_reload j pc s) = cc_queue s @ (if awaits_lock pc then [Writer j] else [])"
  "cc_world (set_app st s) = (cc_world s)\<lparr>wd_app := st\<rparr>" "cc_reqs (set_app st s) = cc_reqs s"
  "cc_reloads (set_app st s) = cc_reloads s" "cc_queue (set_app st s) = cc_queue s"
  by (simp_all add: set_reload_def set_app_def)

lemma run_piece_fields:
  assumes "check_piece V fl pc ((cc_world s)\<lparr>wd_slot := slot\<rparr>) = (w', pc')"
  shows "cc_world (run_piece V i fl pc slot s) = w'" "cc_reqs (run_piece V i fl pc slot s) = (cc_reqs s)(i \<mapsto> (fl, pc'))"
    "cc_reloads (run_piece V i fl pc slot s) = cc_reloads s" "cc_queue (run_piece V i fl pc slot s) = cc_queue s"
    "cc_files (run_piece V i fl pc slot s) = cc_files s"
  using assms by (simp_all add: run_piece_def)

lemma reload_pieces:
  "load_piece A now content st = pc \<Longrightarrow> (\<forall>raw cfg. reload_config pc = Some (raw, cfg) \<longrightarrow> loads A raw cfg)"
  "swap_piece A raw now cfg st = (st', pc) \<Longrightarrow> as_config_state st' = as_config_state st
     \<and> as_concurrency_limit st' = as_concurrency_limit st \<and> (reload_config pc = None \<or> reload_config pc = Some (raw, cfg))"
  "rebuild_piece A el raw now cfg st = (st', pc) \<Longrightarrow> as_config_state st' = as_config_state st
     \<and> as_concurrency_limit st' = as_concurrency_limit st \<and> (reload_config pc = None \<or> reload_config pc = Some (raw, cfg))"
proof -
  show "load_piece A now content st = pc \<Longrightarrow> (\<forall>raw cfg. reload_config pc = Some (raw, cfg) \<longrightarrow> loads A raw cfg)"
    by (auto simp: load_piece_def load_config_loads split: sum.splits)
  show "swap_piece A raw now cfg st = (st', pc) \<Longrightarrow> as_config_state st' = as_config_state st
     \<and> as_concurrency_limit st' = as_concurrency_limit st \<and> (reload_config pc = None \<or> reload_config pc = Some (raw, cfg))"
    using reload_plugins_cases [of A cfg st] by (fastforce simp: swap_piece_def split: prod.splits sum.splits)
  show "rebuild_piece A el raw now cfg st = (st', pc) \<Longrightarrow> as_config_state st' = as_config_state st
     \<and> as_concurrency_limit st' = as_concurrency_limit st \<and> (reload_config pc = None \<or> reload_config pc = Some (raw, cfg))"
    using reload_xds_cases [of A el cfg st] by (fastforce simp: rebuild_piece_def split: prod.splits sum.splits)
qed

lemma config_invD:
  "config_inv V s \<Longrightarrow> cc_reqs s i = Some (fl, pc) \<Longrightarrow> held pc = Some (cfg, route) \<Longrightarrow>
     cfg = config_of (cc_world s) \<and> on_route V fl cfg route"
  unfolding config_inv_def by blast

lemma config_inv_piece:
  assumes "config_inv V s" "cc_reqs s i = Some (fl, pc)"
  shows "config_inv V (run_piece V i fl pc slot s)"
proof -
  obtain w' pc' where c: "check_piece V fl pc ((cc_world s)\<lparr>wd_slot := slot\<rparr>) = (w', pc')" by fastforce
  from check_piece_frame [OF c] have same: "config_of w' = config_of (cc_world s)" by simp
  show ?thesis
    unfolding config_inv_def run_piece_fields [OF c] same
  proof (intro allI impI)
    fix i' fl' p cfg route
    assume r: "((cc_reqs s)(i \<mapsto> (fl, pc'))) i' = Some (fl', p)" and h: "held p = Some (cfg, route)"
    show "cfg = config_of (cc_world s) \<and> on_route V fl' cfg route"
    proof (cases "i' = i")
      case True
      with r h check_piece_held [OF c, of cfg route] assms show ?thesis by (auto simp: config_inv_def)
    next
      case False
      with r h assms(1) show ?thesis by (auto simp: config_inv_def)
    qed
  qed
qed

lemma config_inv_no_readers: "readers s = {} \<Longrightarrow> cc_reqs s' = cc_reqs s \<Longrightarrow> config_inv V s'"
  by (auto simp: config_inv_def readers_def)

lemma config_inv_same:
  "config_inv V s \<Longrightarrow> cc_reqs s' = cc_reqs s \<Longrightarrow> as_config_state (app_of s') = as_config_state (app_of s) \<Longrightarrow> config_inv V s'"
  by (simp add: config_inv_def)

lemma config_inv_task: "task_step V A s s' \<Longrightarrow> config_inv V s \<Longrightarrow> config_inv V s'"
proof (induction rule: task_step.induct)
  case (read_locked s i q fl slot)
  then have "config_inv V (s\<lparr>cc_queue := q\<rparr>)" by (simp add: config_inv_def)
  then show ?case by (rule config_inv_piece) (use read_locked in simp)
next
  case (commits s j q raw now cfg aw response)
  then show ?case by (intro config_inv_no_readers [of s]) simp_all
next
  case (refuses s j q now msg st response)
  then show ?case by (intro config_inv_no_readers [of s]) simp_all
next
  case (proceeds s i fl pc slot)
  then show ?case by (intro config_inv_piece)
qed (auto elim!: config_inv_same dest: reload_pieces(2,3))

lemma check_begin_frame:
  assumes "check_begin w = Some w'"
  shows "as_config_state (wd_app w') = as_config_state (wd_app w)"
    "as_concurrency_limit (wd_app w) = Suc (as_concurrency_limit (wd_app w'))"
  using assms by (auto simp: check_begin_def upd_metrics_def split: if_splits)

lemma config_inv_outside: "outside_step s s' \<Longrightarrow> config_inv V s \<Longrightarrow> config_inv V s'"
proof (induction rule: outside_step.induct)
  case (arrives s i T counter rid w req)
  with check_begin_frame(1) [OF arrives.hyps(3)] show ?case by (auto simp: config_inv_def)
qed (auto simp: config_inv_def upd_metrics_def)

lemma queue_inv_piece:
  assumes "queue_inv s" "cc_reqs s i = Some (fl, pc)" "pc \<noteq> Queued"
  shows "queue_inv (run_piece V i fl pc slot s)"
proof -
  obtain w' pc' where c: "check_piece V fl pc ((cc_world s)\<lparr>wd_slot := slot\<rparr>) = (w', pc')" by fastforce
  from check_piece_queued [OF c] assms show ?thesis
    unfolding queue_inv_def run_piece_fields [OF c] by auto
qed

lemma queue_inv_reload:
  assumes "queue_inv s" "\<not> (\<exists>p. cc_reloads s j = Some p \<and> awaits_lock p)"
  shows "queue_inv (set_reload j pc s)"
  using assms by (auto simp: queue_inv_def)

lemma queue_inv_app [simp]: "queue_inv (set_app st s) = queue_inv s"
  by (simp add: queue_inv_def)

lemma queue_inv_pop_writer:
  assumes "queue_inv s" "cc_queue s = Writer j # q"
  shows "queue_inv (set_reload j (Replied r) (s\<lparr>cc_files := f, cc_queue := q\<rparr>))"
    "queue_inv (set_reload j (Replied r) (s\<lparr>cc_queue := q\<rparr>))"
proof -
  from assms have "distinct q" "Writer j \<notin> set q" "\<forall>i. Reader i \<in> set q \<longleftrightarrow> Reader i \<in> set (cc_queue s)"
    "\<forall>k. k \<noteq> j \<longrightarrow> (Writer k \<in> set q \<longleftrightarrow> Writer k \<in> set (cc_queue s))" by (auto simp: queue_inv_def)
  with assms(1) show "queue_inv (set_reload j (Replied r) (s\<lparr>cc_files := f, cc_queue := q\<rparr>))"
    "queue_inv (set_reload j (Replied r) (s\<lparr>cc_queue := q\<rparr>))" by (auto simp: queue_inv_def)
qed

lemma set_reload_app: "set_reload j pc (set_app st s) = set_app st (set_reload j pc s)"
  by (simp add: set_reload_def set_app_def)

lemma queue_inv_read:
  assumes "queue_inv s" "cc_queue s = Reader i # q" "cc_reqs s i = Some (fl, Queued)"
  shows "queue_inv (run_piece V i fl Queued slot (s\<lparr>cc_queue := q\<rparr>))"
proof -
  obtain w' pc' where c: "check_piece V fl Queued ((cc_world (s\<lparr>cc_queue := q\<rparr>))\<lparr>wd_slot := slot\<rparr>) = (w', pc')" by fastforce
  from assms(1,2) have q: "distinct q" "Reader i \<notin> set q" "\<forall>k. k \<noteq> i \<longrightarrow> (Reader k \<in> set q \<longleftrightarrow> Reader k \<in> set (cc_queue s))"
    "\<forall>j. Writer j \<in> set q \<longleftrightarrow> Writer j \<in> set (cc_queue s)" by (auto simp: queue_inv_def)
  from check_piece_queued [OF c] q assms(1) show ?thesis unfolding queue_inv_def run_piece_fields [OF c] by auto
qed

lemma queue_inv_task: "task_step V A s s' \<Longrightarrow> queue_inv s \<Longrightarrow> queue_inv s'"
proof (induction rule: task_step.induct)
  case (commits s j q raw now cfg aw response)
  then show ?case by (simp add: set_reload_app queue_inv_pop_writer)
next
  case (refuses s j q now msg st response)
  then show ?case by (simp add: set_reload_app queue_inv_pop_writer)
qed (auto intro: queue_inv_read queue_inv_piece intro!: queue_inv_reload)

lemma queue_inv_outside: "outside_step s s' \<Longrightarrow> queue_inv s \<Longrightarrow> queue_inv s'"
proof (induction rule: outside_step.induct)
  case (reload_asked s j)
  then show ?case by (intro queue_inv_reload) simp_all
next
  case (arrives s i T counter rid w req)
  then show ?case by (auto simp: queue_inv_def)
next
  case (client_gone s i fl pc)
  then show ?case by (auto simp: queue_inv_def distinct_removeAll)
next
  case (admin_gone s j)
  then show ?case by (auto simp: queue_inv_def distinct_removeAll)
qed (simp_all add: queue_inv_def)

subsection \<open>Permits\<close>

lemma finite_unanswered: "finite (dom (cc_reqs s)) \<Longrightarrow> finite (unanswered s)"
  by (rule finite_subset [of _ "dom (cc_reqs s)"]) (auto simp: unanswered_def)

lemma permit_inv_piece:
  assumes "permit_inv permits s" "cc_reqs s i = Some (fl, pc)" "\<not> is_answered pc"
  shows "permit_inv permits (run_piece V i fl pc slot s)"
proof -
  obtain w' pc' where c: "check_piece V fl pc ((cc_world s)\<lparr>wd_slot := slot\<rparr>) = (w', pc')" by fastforce
  have i: "i \<in> unanswered s" "finite (unanswered s)"
    using assms finite_unanswered [of s] by (auto simp: unanswered_def permit_inv_def)
  have "unanswered (run_piece V i fl pc slot s) = (if is_answered pc' then unanswered s - {i} else unanswered s)"
    using i by (auto simp: unanswered_def run_piece_fields [OF c])
  moreover have "Suc (card (unanswered s - {i})) = card (unanswered s)" using card_Suc_Diff1 [OF i(2,1)] .
  moreover have "as_concurrency_limit (wd_app w') = as_concurrency_limit (app_of s) + (if is_answered pc' then 1 else 0)"
    using check_piece_frame [OF c] assms(3) by simp
  ultimately show ?thesis using assms(1) by (auto simp del: card_Diff_insert simp: permit_inv_def run_piece_fields [OF c] split: if_splits)
qed

lemma permit_inv_task:
  assumes "task_step V A s s'" "permit_inv permits s"
  shows "permit_inv permits s'"
  using assms
proof (induction rule: task_step.induct)
  case (read_locked s i q fl slot)
  then have "permit_inv permits (s\<lparr>cc_queue := q\<rparr>)" by (simp add: permit_inv_def unanswered_def)
  with read_locked.hyps show ?case by (auto intro: permit_inv_piece)
next
  case (proceeds s i fl pc slot)
  then show ?case by (auto intro: permit_inv_piece)
next
  case (commits s j q raw now cfg aw response)
  with reload_commit_cases(1) [OF commits.hyps(4)] show ?case by (auto simp: permit_inv_def unanswered_def)
next
  case (refuses s j q now msg st response)
  then show ?case by (auto simp: permit_inv_def unanswered_def reload_validation_error_def)
qed (auto dest: reload_pieces(2,3) simp: permit_inv_def unanswered_def)

lemma permit_inv_outside: "outside_step s s' \<Longrightarrow> permit_inv permits s \<Longrightarrow> permit_inv permits s'"
proof (induction rule: outside_step.induct)
  case (arrives s i T counter rid w req)
  let ?s = "s\<lparr>cc_world := w, cc_reqs := (cc_reqs s)(i \<mapsto> (\<lparr>fl_req = req, fl_id = rid, fl_times = T\<rparr>, Queued)), cc_queue := cc_queue s @ [Reader i]\<rparr>"
  have "unanswered ?s = insert i (unanswered s)" "i \<notin> unanswered s" "finite (unanswered s)"
    using arrives finite_unanswered [of s] by (auto simp: unanswered_def permit_inv_def)
  with arrives.prems check_begin_frame(2) [OF arrives.hyps(3)] show ?case by (simp add: permit_inv_def)
next
  case (client_gone s i fl pc)
  let ?s = "set_app ((app_of s)\<lparr>as_concurrency_limit := as_concurrency_limit (app_of s) + 1\<rparr>)
      (s\<lparr>cc_reqs := (cc_reqs s)(i := None), cc_queue := removeAll (Reader i) (cc_queue s)\<rparr>)"
  have "unanswered ?s = unanswered s - {i}" "i \<in> unanswered s" "finite (unanswered s)"
    using client_gone finite_unanswered [of s] by (auto simp: unanswered_def permit_inv_def)
  then have "Suc (card (unanswered ?s)) = card (unanswered s)" by (metis card_Suc_Diff1)
  with client_gone.prems show ?case by (simp add: permit_inv_def)
qed (auto simp: permit_inv_def unanswered_def upd_metrics_def)

subsection \<open>The configuration in force\<close>

lemma loaded_inv_same:
  "loaded_inv A s \<Longrightarrow> as_config_state (app_of s') = as_config_state (app_of s) \<Longrightarrow> cc_reloads s' = cc_reloads s \<Longrightarrow> loaded_inv A s'"
  by (simp add: loaded_inv_def)

lemma loaded_inv_reload:
  assumes "loaded_inv A s" "as_config_state st = as_config_state (app_of s)" "\<And>raw cfg. reload_config pc = Some (raw, cfg) \<Longrightarrow> loads A raw cfg"
  shows "loaded_inv A (set_reload j pc (set_app st s))"
  using assms by (auto simp: loaded_inv_def)

lemma loaded_invD: "loaded_inv A s \<Longrightarrow> cc_reloads s j = Some pc \<Longrightarrow> reload_config pc = Some (raw, cfg) \<Longrightarrow> loads A raw cfg"
  by (simp add: loaded_inv_def)

lemma loaded_inv_task: "task_step V A s s' \<Longrightarrow> loaded_inv A s \<Longrightarrow> loaded_inv A s'"
proof (induction rule: task_step.induct)
  case (read_locked s i q fl slot)
  obtain w' pc' where c: "check_piece V fl Queued ((cc_world (s\<lparr>cc_queue := q\<rparr>))\<lparr>wd_slot := slot\<rparr>) = (w', pc')" by fastforce
  from read_locked check_piece_frame [OF c] show ?case by (simp add: loaded_inv_def run_piece_fields [OF c])
next
  case (proceeds s i fl pc slot)
  obtain w' pc' where c: "check_piece V fl pc ((cc_world s)\<lparr>wd_slot := slot\<rparr>) = (w', pc')" by fastforce
  from proceeds check_piece_frame [OF c] show ?case by (simp add: loaded_inv_def run_piece_fields [OF c])
next
  case (loads_config s j now content)
  have "set_reload j (load_piece A now content (app_of s)) s = set_reload j (load_piece A now content (app_of s)) (set_app (app_of s) s)"
    by (simp add: set_app_def)
  then show ?case using loads_config reload_pieces(1) [of A now content "app_of s"] by (simp only:) (intro loaded_inv_reload, simp_all)
next
  case (swaps s j raw now cfg st pc)
  with reload_pieces(2) [OF swaps.hyps(2)] loaded_invD [OF swaps.prems swaps.hyps(1)] show ?case
    by (intro loaded_inv_reload) auto
next
  case (rebuilds s j raw now cfg el st pc)
  with reload_pieces(3) [OF rebuilds.hyps(2)] loaded_invD [OF rebuilds.prems rebuilds.hyps(1)] show ?case
    by (intro loaded_inv_reload) auto
next
  case (commits s j q raw now cfg aw response)
  from loaded_invD [OF commits.prems commits.hyps(3)] have "loads A raw cfg" by simp
  with commits.prems reload_commit_cases(1) [OF commits.hyps(4)] show ?case by (auto simp: loaded_inv_def)
next
  case (refuses s j q now msg st response)
  then show ?case by (auto simp: loaded_inv_def reload_validation_error_def)
qed

lemma loaded_inv_outside: "outside_step s s' \<Longrightarrow> loaded_inv A s \<Longrightarrow> loaded_inv A s'"
proof (induction rule: outside_step.induct)
  case (arrives s i T counter rid w req)
  with check_begin_frame(1) [OF arrives.hyps(3)] show ?case by (auto simp: loaded_inv_def)
qed (auto simp: loaded_inv_def upd_metrics_def)

lemma cc_reach_inv:
  "cc_reach V A permits s \<Longrightarrow> config_inv V s \<and> queue_inv s \<and> permit_inv permits s \<and> loaded_inv A s"
proof (induction rule: cc_reach.induct)
  case (booted raw cfg now path envoy_path jwks limiter metrics engine xds w files)
  from booted(2) have "cs_config (as_config_state (wd_app w)) = cfg \<and> cs_sha256 (as_config_state (wd_app w)) = sha256 A raw"
    unfolding build_state_def by (auto dest!: sym [where t = "wd_app w"])
  with booted show ?case by (auto simp: config_inv_def queue_inv_def permit_inv_def unanswered_def loaded_inv_def)
next
  case (task s s')
  then show ?case by (auto intro: config_inv_task queue_inv_task permit_inv_task loaded_inv_task)
next
  case (outside s s')
  then show ?case by (auto intro: config_inv_outside queue_inv_outside permit_inv_outside loaded_inv_outside)
qed

lemmas cc_reachD = cc_reach_inv [THEN conjunct1] cc_reach_inv [THEN conjunct2, THEN conjunct1]
  cc_reach_inv [THEN conjunct2, THEN conjunct2, THEN conjunct1] cc_reach_inv [THEN conjunct2, THEN conjunct2, THEN conjunct2]

subsection \<open>Authorization\<close>

definition cc_next :: "('k, 'e, 'l, 'c, 'i, 'lk) env \<Rightarrow> ('t, 's) admin_env \<Rightarrow> ('r, 'k, 'e, 'l, 'lk) Gateway \<Rightarrow> ('r, 'k, 'e, 'l, 'lk) Gateway \<Rightarrow> bool" where
  "cc_next V A s s' \<longleftrightarrow> task_step V A s s' \<or> outside_step s s'"

text \<open>What the plugins left behind cannot be mistaken for a header of the gateway.\<close>

definition clean :: "PluginContinue \<Rightarrow> bool" where
  "clean pcont \<longleftrightarrow> (\<forall>(n, v) \<in> set (pn_upstream_headers pcont). \<not> reserved n \<and> to_ascii_lowercase n = n)"

text \<open>The request showed a token that held at an earlier moment \<open>s0\<close> of the run, at the time that the
  clock then had for the request, under the configuration that is still in force.\<close>

definition shown_token ::
  "('k, 'e, 'l, 'c, 'i, 'lk) env \<Rightarrow> ('t, 's) admin_env \<Rightarrow> nat \<Rightarrow> (string \<Rightarrow> 'k \<Rightarrow> Algorithm \<Rightarrow> bool)
    \<Rightarrow> InFlight \<Rightarrow> RouteConfig \<Rightarrow> ('r, 'k, 'e, 'l, 'lk) Gateway \<Rightarrow> ValidatedIdentity \<Rightarrow> bool" where
  "shown_token V A permits verifies fl route s ident \<longleftrightarrow>
     (\<exists>s0. cc_reach V A permits s0 \<and> (cc_next V A)\<^sup>*\<^sup>* s0 s \<and> config_of (cc_world s0) = config_of (cc_world s)
        \<and> proven V verifies (tm_unix (fl_times fl)) (fl_headers fl) route (cc_world s0) ident)"

fun auth_ok ::
  "('k, 'e, 'l, 'c, 'i, 'lk) env \<Rightarrow> ('t, 's) admin_env \<Rightarrow> nat \<Rightarrow> (string \<Rightarrow> 'k \<Rightarrow> Algorithm \<Rightarrow> bool)
    \<Rightarrow> InFlight \<Rightarrow> CheckPc \<Rightarrow> ('r, 'k, 'e, 'l, 'lk) Gateway \<Rightarrow> bool" where
  "auth_ok V A permits verifies fl (PluginsRan cfg route pcont hs) s \<longleftrightarrow> clean pcont"
| "auth_ok V A permits verifies fl (Authenticated cfg route pcont hs sub) s \<longleftrightarrow> clean pcont
     \<and> bucket_key_of V cfg route (fl_headers fl) hs = own_bucket V cfg route (fl_headers fl) hs sub
     \<and> (if rc_auth_required route
        then \<exists>ident. sub = Some (vi_sub ident) \<and> shown_token V A permits verifies fl route s ident
          \<and> (ev_value_ok V (vi_sub ident) \<longrightarrow> map_of hs ''x-auth-sub'' = Some (vi_sub ident))
        else sub = None)"
| "auth_ok V A permits verifies fl _ s \<longleftrightarrow> True"

lemma auth_ok_next:
  assumes "auth_ok V A permits verifies fl pc s" "cc_next V A s s'" "held pc \<noteq> None \<Longrightarrow> config_of (cc_world s') = config_of (cc_world s)"
  shows "auth_ok V A permits verifies fl pc s'"
proof (cases pc)
  case (Authenticated cfg route pcont hs sub)
  have "shown_token V A permits verifies fl route s ident \<Longrightarrow> shown_token V A permits verifies fl route s' ident" for ident
    using assms(2) assms(3) Authenticated unfolding shown_token_def by (auto intro: rtranclp.rtrancl_into_rtrancl)
  with assms(1) Authenticated show ?thesis by (auto split: if_splits)
qed (use assms(1) in auto)

lemma auth_ok_piece:
  assumes "\<forall>now. jwt_spec (ev_jwt V now) verifies now" "cc_reach V A permits s"
    and pc: "cc_reqs s i = Some (fl, pc)" "auth_ok V A permits verifies fl pc s"
    and c: "check_piece V fl pc ((cc_world s)\<lparr>wd_slot := slot\<rparr>) = (w', pc')"
    and s': "cc_next V A s s'" "cc_world s' = w'"
  shows "auth_ok V A permits verifies fl pc' s'"
proof (cases pc)
  case (Routed cfg route)
  obtain w1 r where e: "execute_access_plugins V (fl_times fl) (fl_meta V fl) route (fl_headers fl) [] ((cc_world s)\<lparr>wd_slot := slot\<rparr>) = (w1, r)"
    by fastforce
  show ?thesis
  proof (cases r)
    case (Inr x)
    obtain pcont hs where "x = (pcont, hs)" by fastforce
    with c Routed e Inr plugin_headers_clean [of V _ _ route _ _ _ w1 pcont hs] show ?thesis by (auto simp: plugins_piece_def clean_def)
  qed (use c Routed e in \<open>auto simp: plugins_piece_def\<close>)
next
  case (PluginsRan cfg route pcont hs)
  let ?w = "(cc_world s)\<lparr>wd_slot := slot\<rparr>"
  have cfg: "cfg = config_of (cc_world s)" using cc_reachD(1) [OF assms(2)] pc(1) PluginsRan by (auto simp: config_inv_def)
  have o: "only_metrics (cc_world s) ?w" by (simp add: only_metrics_iff)
  show ?thesis
  proof (cases "apply_auth V (fl_times fl) cfg route (fl_headers fl) hs ?w")
    case (Pair w1 r)
    show ?thesis
    proof (cases r)
      case (Inl deny)
      with Pair c PluginsRan show ?thesis by (auto simp: auth_piece_def map_prod_def split: prod.splits)
    next
      case (Inr x)
      obtain hs' sub where x: "x = (hs', sub)" by fastforce
      have a: "apply_auth V (fl_times fl) (config_of (cc_world s)) route (fl_headers fl) hs ?w = (w1, Inr (hs', sub))"
        using Pair Inr x cfg by simp
      have e: "pc' = Authenticated cfg route pcont hs' sub" "w' = w1" using c PluginsRan Pair Inr x by (simp_all add: auth_piece_def)
      have same: "config_of (cc_world s') = config_of (cc_world s)"
        using s'(2) check_piece_frame [OF c] by simp
      have "\<exists>ident. sub = Some (vi_sub ident) \<and> shown_token V A permits verifies fl route s' ident
          \<and> (ev_value_ok V (vi_sub ident) \<longrightarrow> map_of hs' ''x-auth-sub'' = Some (vi_sub ident))" if "rc_auth_required route"
      proof -
        from apply_auth_proven [OF assms(1) [rule_format] o a that] obtain ident where
          i: "proven V verifies (tm_unix (fl_times fl)) (fl_headers fl) route (cc_world s) ident" "sub = Some (vi_sub ident)"
          "hs' = insert_value V ''x-auth-scopes'' (join_comma (vi_scopes ident))
            (insert_value V ''x-auth-iss'' (vi_iss ident) (insert_value V ''x-auth-sub'' (vi_sub ident) hs))" by blast
        have "shown_token V A permits verifies fl route s' ident"
          unfolding shown_token_def using assms(2) s'(1) same i(1) by (metis r_into_rtranclp)
        with i(2,3) show ?thesis by (intro exI [of _ ident]) (auto simp: map_of_insert_value)
      qed
      moreover have "sub = None" if "\<not> rc_auth_required route" using a that by (simp add: apply_auth_not_required)
      ultimately show ?thesis using pc(2) PluginsRan e bucket_key_own(2) [OF a] cfg by simp
    qed
  qed
qed (use c in \<open>auto simp: route_piece_def Let_def map_prod_def split: option.splits if_splits prod.splits\<close>)

lemma task_step_reqs:
  assumes "task_step V A s s'"
  shows "(\<exists>i fl pc slot pc'. cc_reqs s i = Some (fl, pc) \<and> check_piece V fl pc ((cc_world s)\<lparr>wd_slot := slot\<rparr>) = (cc_world s', pc')
      \<and> cc_reqs s' = (cc_reqs s)(i \<mapsto> (fl, pc')))
    \<or> (cc_reqs s' = cc_reqs s \<and> (readers s = {} \<or> config_of (cc_world s') = config_of (cc_world s)))"
  using assms
proof (induction rule: task_step.induct)
  case (read_locked s i q fl slot)
  obtain w' pc' where c: "check_piece V fl Queued ((cc_world (s\<lparr>cc_queue := q\<rparr>))\<lparr>wd_slot := slot\<rparr>) = (w', pc')" by fastforce
  with read_locked show ?case unfolding run_piece_fields [OF c] by (intro disjI1) (auto intro!: exI)
next
  case (proceeds s i fl pc slot)
  obtain w' pc' where c: "check_piece V fl pc ((cc_world s)\<lparr>wd_slot := slot\<rparr>) = (w', pc')" by fastforce
  with proceeds show ?case unfolding run_piece_fields [OF c] by (intro disjI1) (auto intro!: exI)
qed (auto dest: reload_pieces(2,3))

lemma outside_step_reqs:
  assumes "outside_step s s'"
  shows "config_of (cc_world s') = config_of (cc_world s) \<and>
    (cc_reqs s' i = cc_reqs s i \<or> cc_reqs s' i = None \<or> (\<exists>fl. cc_reqs s' i = Some (fl, Queued)))"
  using assms
proof (induction rule: outside_step.induct)
  case (arrives s i T counter rid w req)
  with check_begin_frame(1) [OF arrives.hyps(3)] show ?case by auto
qed (auto simp: upd_metrics_def)

lemma held_readers: "cc_reqs s i = Some (fl, pc) \<Longrightarrow> held pc \<noteq> None \<Longrightarrow> readers s \<noteq> {}"
  unfolding readers_def by blast

lemma queue_invD:
  assumes "queue_inv s"
  shows "Reader i \<in> set (cc_queue s) \<longleftrightarrow> (\<exists>fl. cc_reqs s i = Some (fl, Queued))"
    "Writer j \<in> set (cc_queue s) \<longleftrightarrow> (\<exists>pc. cc_reloads s j = Some pc \<and> awaits_lock pc)"
  using assms unfolding queue_inv_def by blast+

lemma held_active: "held pc \<noteq> None \<Longrightarrow> pc \<noteq> Queued \<and> \<not> is_answered pc"
  by (cases pc) simp_all

lemma cc_reach_auth:
  assumes jwt: "\<forall>now. jwt_spec (ev_jwt V now) verifies now"
  shows "cc_reach V A permits s \<Longrightarrow> cc_reqs s i = Some (fl, pc) \<Longrightarrow> auth_ok V A permits verifies fl pc s"
proof (induction arbitrary: i fl pc rule: cc_reach.induct)
  case (task s s')
  have n: "cc_next V A s s'" using task.hyps(2) by (simp add: cc_next_def)
  from task_step_reqs [OF task.hyps(2)] show ?case
  proof (elim disjE exE conjE)
    fix j fl' p slot p'
    assume r: "cc_reqs s j = Some (fl', p)" and c: "check_piece V fl' p ((cc_world s)\<lparr>wd_slot := slot\<rparr>) = (cc_world s', p')"
      and u: "cc_reqs s' = (cc_reqs s)(j \<mapsto> (fl', p'))"
    show ?thesis
    proof (cases "i = j")
      case True
      then show ?thesis using auth_ok_piece [OF jwt task.hyps(1) r task.IH [OF r] c n refl] task.prems u by auto
    next
      case False
      then have "cc_reqs s i = Some (fl, pc)" using task.prems u by simp
      from auth_ok_next [OF task.IH [OF this] n] check_piece_frame [OF c] show ?thesis by simp
    qed
  next
    assume r: "cc_reqs s' = cc_reqs s" "readers s = {}"
    then have h: "held pc = None" using held_readers [of s i fl pc] task.prems by (cases "held pc") auto
    show ?thesis by (rule auth_ok_next [OF task.IH n]) (use task.prems r h in auto)
  next
    assume r: "cc_reqs s' = cc_reqs s" "config_of (cc_world s') = config_of (cc_world s)"
    show ?thesis by (rule auth_ok_next [OF task.IH n]) (use task.prems r in auto)
  qed
next
  case (outside s s')
  have n: "cc_next V A s s'" using outside.hyps(2) by (simp add: cc_next_def)
  from outside_step_reqs [OF outside.hyps(2), of i] outside.prems have
    e: "config_of (cc_world s') = config_of (cc_world s)" "cc_reqs s i = Some (fl, pc) \<or> pc = Queued" by auto
  from e(2) show ?case
  proof
    assume "cc_reqs s i = Some (fl, pc)"
    from auth_ok_next [OF outside.IH [OF this] n] e(1) show ?thesis by simp
  qed simp
qed simp

subsection \<open>Progress\<close>

fun reload_rank :: "ReloadPc \<Rightarrow> nat" where
  "reload_rank Requested = 4"
| "reload_rank (Loaded _ _ _) = 3"
| "reload_rank (PluginsSwapped _ _ _) = 2"
| "reload_rank (AwaitCommit _ _ _) = 1"
| "reload_rank (AwaitRefusal _ _) = 1"
| "reload_rank (Replied _) = 0"

text \<open>Pieces that the requests and reloads that are there still have to run.\<close>

definition work :: "('r, 'k, 'e, 'l, 'lk) Gateway \<Rightarrow> nat" where
  "work s = (\<Sum>i \<in> dom (cc_reqs s). check_rank (snd (the (cc_reqs s i)))) + (\<Sum>j \<in> dom (cc_reloads s). reload_rank (the (cc_reloads s j)))"

lemma sum_dom_update:
  assumes "finite (dom m)" "m k = Some v" "(r v' :: nat) < r v"
  shows "(\<Sum>i \<in> dom (m(k \<mapsto> v')). r (the ((m(k \<mapsto> v')) i))) < (\<Sum>i \<in> dom m. r (the (m i)))"
proof -
  have d: "dom (m(k \<mapsto> v')) = dom m" "k \<in> dom m" using assms(2) by auto
  show ?thesis unfolding d(1)
    by (rule sum_strict_mono_ex1) (use assms d in \<open>auto intro!: bexI [of _ k]\<close>)
qed

lemma work_request:
  assumes "finite (dom (cc_reqs s))" "cc_reqs s i = Some (fl, pc)" "check_rank pc' < check_rank pc"
    and "cc_reqs s' = (cc_reqs s)(i \<mapsto> (fl, pc'))" "cc_reloads s' = cc_reloads s"
  shows "work s' < work s"
  using sum_dom_update [of "cc_reqs s" i "(fl, pc)" "\<lambda>x. check_rank (snd x)" "(fl, pc')"] assms by (simp add: work_def)

lemma work_reload:
  assumes "finite (dom (cc_reloads s))" "cc_reloads s j = Some pc" "reload_rank pc' < reload_rank pc"
    and "cc_reloads s' = (cc_reloads s)(j \<mapsto> pc')" "cc_reqs s' = cc_reqs s"
  shows "work s' < work s"
  using sum_dom_update [of "cc_reloads s" j pc reload_rank pc'] assms by (simp add: work_def)

lemma reload_piece_ranks:
  "reload_rank (load_piece A now content st) < 4"
  "swap_piece A raw now cfg st = (st', pc) \<Longrightarrow> reload_rank pc < 3"
  "rebuild_piece A el raw now cfg st = (st', pc) \<Longrightarrow> reload_rank pc < 2"
  by (auto simp: load_piece_def swap_piece_def rebuild_piece_def split: sum.splits prod.splits)

lemma work_decreases:
  assumes "task_step V A s s'" "finite (dom (cc_reqs s))" "finite (dom (cc_reloads s))"
  shows "work s' < work s"
  using assms
proof (induction rule: task_step.induct)
  case (read_locked s i q fl slot)
  obtain w' pc' where c: "check_piece V fl Queued ((cc_world (s\<lparr>cc_queue := q\<rparr>))\<lparr>wd_slot := slot\<rparr>) = (w', pc')" by fastforce
  from read_locked check_piece_rank [OF c] show ?case by (intro work_request [of s i fl Queued pc']) (auto simp: run_piece_fields [OF c])
next
  case (proceeds s i fl pc slot)
  obtain w' pc' where c: "check_piece V fl pc ((cc_world s)\<lparr>wd_slot := slot\<rparr>) = (w', pc')" by fastforce
  from proceeds check_piece_rank [OF c] show ?case by (intro work_request [of s i fl pc pc']) (auto simp: run_piece_fields [OF c])
next
  case (loads_config s j now content)
  with reload_piece_ranks(1) show ?case by (intro work_reload [of s j Requested]) auto
next
  case (swaps s j raw now cfg st pc)
  with reload_piece_ranks(2) [OF swaps.hyps(2)] show ?case by (intro work_reload [of s j "Loaded raw now cfg"]) auto
next
  case (rebuilds s j raw now cfg el st pc)
  with reload_piece_ranks(3) [OF rebuilds.hyps(2)] show ?case by (intro work_reload [of s j "PluginsSwapped raw now cfg"]) auto
next
  case (commits s j q raw now cfg aw response)
  then show ?case by (intro work_reload [of s j "AwaitCommit raw now cfg"]) auto
next
  case (refuses s j q now msg st response)
  then show ?case by (intro work_reload [of s j "AwaitRefusal now msg"]) auto
qed

definition all_done :: "('r, 'k, 'e, 'l, 'lk) Gateway \<Rightarrow> bool" where
  "all_done s \<longleftrightarrow> (\<forall>i fl pc. cc_reqs s i = Some (fl, pc) \<longrightarrow> is_answered pc)
     \<and> (\<forall>j pc. cc_reloads s j = Some pc \<longrightarrow> (\<exists>response. pc = Replied response))"

text \<open>A task that is not at the lock can go on; the head of the queue gets the lock as soon as
  no request holds it, and a request that holds it can go on.\<close>

lemma task_enabled:
  assumes r: "cc_reach V A permits s" and y: "yaml_to_value A (YMapping []) = Inr (YMapping [])" and "\<not> all_done s"
  shows "\<exists>s'. task_step V A s s'"
proof (rule ccontr)
  assume no: "\<nexists>s'. task_step V A s s'"
  have req: "pc = Queued \<or> is_answered pc" if "cc_reqs s i = Some (fl, pc)" for i fl pc
    using no task_step.proceeds [OF that] by blast
  then have readers: "readers s = {}" using held_active unfolding readers_def by blast
  have reload: "awaits_lock pc \<or> (\<exists>response. pc = Replied response)" if "cc_reloads s j = Some pc" for j pc
  proof (cases pc)
    case Requested
    with that no task_step.loads_config [of s j V A] show ?thesis by blast
  next
    case (Loaded raw now cfg)
    obtain st p where "swap_piece A raw now cfg (app_of s) = (st, p)" by fastforce
    with Loaded that no task_step.swaps [of s j raw now cfg A st p V] show ?thesis by blast
  next
    case (PluginsSwapped raw now cfg)
    obtain st p where "rebuild_piece A (Fin 0) raw now cfg (app_of s) = (st, p)" by fastforce
    with PluginsSwapped that no task_step.rebuilds [of s j raw now cfg A "Fin 0" st p V] show ?thesis by blast
  qed simp_all
  have q: "queue_inv s" by (rule cc_reachD(2) [OF r])
  show False
  proof (cases "cc_queue s")
    case Nil
    with req reload queue_invD [OF q] have "all_done s" unfolding all_done_def by (metis empty_iff empty_set)
    with assms(3) show False ..
  next
    case (Cons x q')
    show False
    proof (cases x)
      case (Reader i)
      with Cons obtain fl where "cc_reqs s i = Some (fl, Queued)" using queue_invD(1) [OF q, of i] by auto
      with no Cons Reader task_step.read_locked [of s i q' fl] show False by blast
    next
      case (Writer j)
      with Cons obtain pc where p: "cc_reloads s j = Some pc" "awaits_lock pc" using queue_invD(2) [OF q, of j] by auto
      show False
      proof (cases pc)
        case (AwaitCommit raw now cfg)
        have "loads A raw cfg" using loaded_invD [OF cc_reachD(4) [OF r] p(1)] AwaitCommit by simp
        then obtain aw response where "reload_commit A raw now cfg \<lparr>aw_app = app_of s, aw_files = cc_files s\<rparr> = Some (aw, response)"
          using reload_commit_total [OF y] by (metis loads_def)
        with no Cons Writer readers p AwaitCommit task_step.commits [of s j q' raw now cfg A aw response V] show False by blast
      next
        case (AwaitRefusal now msg)
        obtain st response where "reload_validation_error now msg (app_of s) = (st, response)"
          by (cases "reload_validation_error now msg (app_of s)") blast
        with no Cons Writer readers p AwaitRefusal task_step.refuses [of s j q' now msg st response V A] show False by blast
      qed (use p in simp_all)
    qed
  qed
qed

lemma runs_to_end:
  assumes "yaml_to_value A (YMapping []) = Inr (YMapping [])"
  shows "cc_reach V A permits s \<Longrightarrow> \<exists>s'. (task_step V A)\<^sup>*\<^sup>* s s' \<and> all_done s'"
proof (induction "work s" arbitrary: s rule: less_induct)
  case less
  show ?case
  proof (cases "all_done s")
    case False
    then obtain s1 where s1: "task_step V A s s1" using task_enabled [OF less.prems assms] by blast
    have "work s1 < work s"
      using work_decreases [OF s1] cc_reachD(3) [OF less.prems] by (simp add: permit_inv_def)
    from less.hyps [OF this cc_reach.task [OF less.prems s1]] s1 show ?thesis by (meson converse_rtranclp_into_rtranclp)
  qed blast
qed

subsection \<open>A concrete run\<close>

definition demo_start :: "(unit, nat, unit, unit, unit) Gateway" where
  "demo_start = \<lparr>cc_world = demo_world (sample_limiter False False True) None MAX_PERMITS, cc_files = Map.empty,
     cc_reqs = Map.empty, cc_reloads = Map.empty, cc_queue = []\<rparr>"

lemma demo_start_reach: "cc_reach demo_env (demo_admin demo_other) MAX_PERMITS demo_start"
proof -
  let ?w = "demo_world (sample_limiter False False True) None MAX_PERMITS"
  have "loads (demo_admin demo_other) [] sample_config" using sample_valid by (simp add: loads_def demo_admin_def)
  moreover have "build_state (sha256 (demo_admin demo_other)) 0 sample_config [] [] None (as_jwks_registry (wd_app ?w))
      (as_rate_limiter (wd_app ?w)) (as_metrics (wd_app ?w)) None None = Some (wd_app ?w)"
    by (simp add: build_state_def demo_world_def demo_admin_def Semaphore_new_def sample_config_def)
  moreover have "as_concurrency_limit (wd_app ?w) = MAX_PERMITS" by (simp add: demo_world_def)
  ultimately show ?thesis unfolding demo_start_def by (rule cc_reach.booted)
qed

definition demo_fl :: InFlight where
  "demo_fl = \<lparr>fl_req = \<lparr>req_method = ''GET'', req_path = ''/public/private/x'', req_headers = demo_headers\<rparr>,
     fl_id = snd (generate_request_id 0 0), fl_times = demo_times 0\<rparr>"

text \<open>The request has been let in; it waits for the lock, has its route, has run its plugins.\<close>

definition demo_at :: "CheckPc \<Rightarrow> (unit, nat, unit, unit, unit) Gateway" where
  "demo_at pc = demo_start\<lparr>cc_world := the (check_begin ((cc_world demo_start)\<lparr>wd_counter := fst (generate_request_id 0 0)\<rparr>)),
     cc_reqs := [0 \<mapsto> (demo_fl, pc)], cc_queue := if pc = Queued then [Reader 0] else []\<rparr>"

lemma demo_at_begin:
  "check_begin ((cc_world demo_start)\<lparr>wd_counter := fst (generate_request_id 0 0)\<rparr>) = Some (cc_world (demo_at pc))"
  by (simp add: demo_at_def demo_start_def check_begin_def demo_world_def MAX_PERMITS_def)

lemma demo_at_world:
  "config_of (cc_world (demo_at pc)) = sample_config" "as_plugin_engine (app_of (demo_at pc)) = None"
  "as_jwks_registry (app_of (demo_at pc)) = as_jwks_registry (app_of demo_start)"
  "as_rate_limiter (app_of (demo_at pc)) = sample_limiter False False True"
  "(cc_world (demo_at pc))\<lparr>wd_slot := wd_slot (cc_world (demo_at pc))\<rparr> = cc_world (demo_at pc)"
  by (simp_all add: demo_at_def demo_start_def check_begin_def demo_world_def MAX_PERMITS_def upd_metrics_def)

lemma demo_at_step:
  assumes "check_piece demo_env demo_fl pc (cc_world (demo_at pc)) = (cc_world (demo_at pc), pc')" "pc \<noteq> Queued" "\<not> is_answered pc" "pc' \<noteq> Queued"
    and "cc_reach demo_env A permits (demo_at pc)"
  shows "cc_reach demo_env A permits (demo_at pc')"
proof -
  have "task_step demo_env A (demo_at pc) (run_piece demo_env 0 demo_fl pc (wd_slot (cc_world (demo_at pc))) (demo_at pc))"
    using assms(2,3) by (intro task_step.proceeds) (simp_all add: demo_at_def)
  moreover have "run_piece demo_env 0 demo_fl pc (wd_slot (cc_world (demo_at pc))) (demo_at pc) = demo_at pc'"
    using assms(1,2,4) by (simp add: run_piece_def demo_at_world(5)) (simp add: demo_at_def)
  ultimately show ?thesis using cc_reach.task [OF assms(5)] by metis
qed

lemma demo_fl_fields:
  "fl_headers demo_fl = demo_headers" "fl_times demo_fl = demo_times 0"
  "fl_meta demo_env demo_fl = meta_of demo_env demo_headers ''GET'' ''/public/private/x'' (fl_id demo_fl)"
  by (simp_all add: demo_fl_def fl_headers_def fl_meta_def)

lemma demo_auth_in:
  assumes "as_jwks_registry (wd_app w) = \<lparr>jr_caches = [(''main'', sample_cache\<lparr>jc_keys := [sample_key]\<rparr>)]\<rparr>"
  shows "\<exists>hs2. apply_auth demo_env (demo_times t) sample_config sample_private_route demo_headers hs w = (w, Inr (hs2, Some ''user-1''))"
  using demo_identity assms
  by (simp add: apply_auth_def demo_bearer sample_private_route_def sample_config_def registry_get_def
      sample_provider_def demo_times_def sample_identity_def Let_def)

definition demo_pcont :: PluginContinue where
  "demo_pcont = \<lparr>pn_request = plugin_request demo_env sample_private_route (fl_meta demo_env demo_fl) demo_headers, pn_upstream_headers = []\<rparr>"

lemma demo_pieces:
  "check_piece demo_env demo_fl Queued (cc_world (demo_at pc)) = (cc_world (demo_at pc), Routed sample_config sample_private_route)"
  "check_piece demo_env demo_fl (Routed sample_config sample_private_route) (cc_world (demo_at pc))
     = (cc_world (demo_at pc), PluginsRan sample_config sample_private_route demo_pcont [])"
  "\<exists>hs. check_piece demo_env demo_fl (PluginsRan sample_config sample_private_route demo_pcont []) (cc_world (demo_at pc))
     = (cc_world (demo_at pc), Authenticated sample_config sample_private_route demo_pcont hs (Some ''user-1''))"
  "\<exists>w' resp. check_piece demo_env demo_fl (Authenticated sample_config sample_private_route demo_pcont hs sub) (cc_world (demo_at pc))
     = (w', Decided resp) \<and> rsp_status resp = 200"
proof -
  have m: "match_route (gc_routes sample_config) ''api.example.com'' ''/public/private/x'' = Some sample_private_route"
    using demo_route [of _ None 0] by (simp add: demo_world_def)
  show "check_piece demo_env demo_fl Queued (cc_world (demo_at pc)) = (cc_world (demo_at pc), Routed sample_config sample_private_route)"
    by (simp add: route_piece_def demo_fl_fields demo_host demo_at_world m demo_methods Let_def)
  show "check_piece demo_env demo_fl (Routed sample_config sample_private_route) (cc_world (demo_at pc))
     = (cc_world (demo_at pc), PluginsRan sample_config sample_private_route demo_pcont [])"
    by (simp add: plugins_piece_def execute_access_plugins_def demo_fl_fields demo_at_world demo_pcont_def Let_def)
  have reg: "as_jwks_registry (app_of (demo_at pc)) = \<lparr>jr_caches = [(''main'', sample_cache\<lparr>jc_keys := [sample_key]\<rparr>)]\<rparr>"
    by (simp add: demo_at_world demo_start_def demo_world_def)
  obtain hs' where "apply_auth demo_env (demo_times 0) sample_config sample_private_route demo_headers [] (cc_world (demo_at pc))
      = (cc_world (demo_at pc), Inr (hs', Some ''user-1''))"
    using demo_auth_in [OF reg] by blast
  then show "\<exists>hs. check_piece demo_env demo_fl (PluginsRan sample_config sample_private_route demo_pcont []) (cc_world (demo_at pc))
     = (cc_world (demo_at pc), Authenticated sample_config sample_private_route demo_pcont hs (Some ''user-1''))"
    by (simp add: auth_piece_def demo_fl_fields)
  show "\<exists>w' resp. check_piece demo_env demo_fl (Authenticated sample_config sample_private_route demo_pcont hs sub) (cc_world (demo_at pc))
     = (w', Decided resp) \<and> rsp_status resp = 200"
    by (simp add: demo_fl_fields rate_limit_step_def run_limiter_def demo_at_world demo_times_def sample_limiter_def
        RateLimiter_check_def try_redis_def enter_degraded_def allow_response_def Let_def)
qed

lemma demo_at_reach:
  defines "A \<equiv> demo_admin demo_other"
  shows "cc_reach demo_env A MAX_PERMITS (demo_at Queued)"
    "cc_reach demo_env A MAX_PERMITS (demo_at (Routed sample_config sample_private_route))"
    "\<exists>hs. cc_reach demo_env A MAX_PERMITS (demo_at (Authenticated sample_config sample_private_route demo_pcont hs (Some ''user-1'')))"
proof -
  let ?r = "Routed sample_config sample_private_route" and ?p = "PluginsRan sample_config sample_private_route demo_pcont []"
  have n: "wd_counter (cc_world demo_start) = 0" "cc_reqs demo_start = Map.empty" "cc_queue demo_start = []" "tm_nanos (demo_times 0) = 0"
    by (simp_all add: demo_start_def demo_world_def demo_times_def)
  have "generate_request_id (tm_nanos (demo_times 0)) (wd_counter (cc_world demo_start))
      = (fst (generate_request_id 0 0), snd (generate_request_id 0 0))"
    unfolding n by (simp only: n prod.collapse)
  from outside_step.arrives [OF _ this demo_at_begin [of Queued], of 0 "fl_req demo_fl"]
  have "outside_step demo_start (demo_start\<lparr>cc_world := cc_world (demo_at Queued), cc_reqs := [0 \<mapsto> (demo_fl, Queued)], cc_queue := [Reader 0]\<rparr>)"
    unfolding n by (simp only: demo_fl_def InFlight.simps append_Nil simp_thms)
  moreover have "demo_start\<lparr>cc_world := cc_world (demo_at Queued), cc_reqs := [0 \<mapsto> (demo_fl, Queued)], cc_queue := [Reader 0]\<rparr> = demo_at Queued"
    by (simp add: demo_at_def)
  ultimately have "outside_step demo_start (demo_at Queued)" by simp
  then show q: "cc_reach demo_env A MAX_PERMITS (demo_at Queued)"
    using demo_start_reach unfolding A_def by (metis cc_reach.outside)
  have "task_step demo_env A (demo_at Queued)
      (run_piece demo_env 0 demo_fl Queued (wd_slot (cc_world (demo_at Queued))) ((demo_at Queued)\<lparr>cc_queue := []\<rparr>))"
    by (rule task_step.read_locked) (simp_all add: demo_at_def)
  moreover have "run_piece demo_env 0 demo_fl Queued (wd_slot (cc_world (demo_at Queued))) ((demo_at Queued)\<lparr>cc_queue := []\<rparr>) = demo_at ?r"
    using demo_pieces(1) [of Queued] by (simp add: run_piece_def demo_at_world(5)) (simp add: demo_at_def)
  ultimately show r: "cc_reach demo_env A MAX_PERMITS (demo_at ?r)" using cc_reach.task [OF q] by metis
  have p: "cc_reach demo_env A MAX_PERMITS (demo_at ?p)"
    by (rule demo_at_step [OF demo_pieces(2) _ _ _ r]) simp_all
  obtain hs where h: "check_piece demo_env demo_fl ?p (cc_world (demo_at ?p))
     = (cc_world (demo_at ?p), Authenticated sample_config sample_private_route demo_pcont hs (Some ''user-1''))"
    using demo_pieces(3) [of ?p] by blast
  have "cc_reach demo_env A MAX_PERMITS (demo_at (Authenticated sample_config sample_private_route demo_pcont hs (Some ''user-1'')))"
    by (rule demo_at_step [OF h _ _ _ p]) simp_all
  then show "\<exists>hs. cc_reach demo_env A MAX_PERMITS (demo_at (Authenticated sample_config sample_private_route demo_pcont hs (Some ''user-1'')))"
    by (rule exI [of _ hs])
qed

subsection \<open>Properties\<close>

text \<open>C12. A request is decided under one configuration. However reloads and requests interleave, a
  request that has found its route goes on under the configuration that is in force at every
  moment until its decision: a reload that would replace it waits for the lock. Its route is the
  one that configuration gives for it.\<close>

theorem request_sees_one_configuration:
  assumes "cc_reach V A permits s" "cc_reqs s i = Some (fl, pc)" "held pc = Some (cfg, route)"
  shows "cfg = config_of (cc_world s) \<and> on_route V fl (config_of (cc_world s)) route"
  using config_invD [OF cc_reachD(1) [OF assms(1)] assms(2,3)] by auto

theorem request_sees_one_configuration_witness:
  "sample_config = config_of (cc_world (demo_at (Routed sample_config sample_private_route)))
    \<and> on_route demo_env demo_fl (config_of (cc_world (demo_at (Routed sample_config sample_private_route)))) sample_private_route"
  by (rule request_sees_one_configuration [OF demo_at_reach(2), of 0 demo_fl "Routed sample_config sample_private_route"])
    (simp_all add: demo_at_def)



text \<open>C3. The configuration in force is always one that follows every rule of validation (valid up to
  NaN rates, \<open>accepted_config\<close>), and its recorded hash is that of the file it was read from, over every interleaving of requests, disconnects and any number of reloads;
  and so is every configuration that a reload is about to put in force.\<close>

theorem configuration_valid_throughout:
  assumes "cc_reach V A permits s"
  shows "(\<exists>raw. yaml_from_str A (from_utf8_lossy raw) = Inr (config_of (cc_world s)) \<and> accepted_config (url_ok A) (config_of (cc_world s))
      \<and> cs_sha256 (as_config_state (app_of s)) = sha256 A raw)
    \<and> (\<forall>j pc raw cfg. cc_reloads s j = Some pc \<longrightarrow> reload_config pc = Some (raw, cfg) \<longrightarrow> accepted_config (url_ok A) cfg)"
  using cc_reachD(4) [OF assms] unfolding loaded_inv_def loads_def by blast

theorem configuration_valid_throughout_witness:
  "\<exists>raw. yaml_from_str (demo_admin demo_other) (from_utf8_lossy raw) = Inr (config_of (cc_world (demo_at Queued)))
    \<and> accepted_config (url_ok (demo_admin demo_other)) (config_of (cc_world (demo_at Queued)))"
  using configuration_valid_throughout [OF demo_at_reach(1)] by blast



theorem pieces_compose_to_check_witness:
  "\<exists>w' resp. check demo_env (demo_times 0) (fl_req demo_fl) (cc_world demo_start) = (w', resp)
    \<and> ((\<lambda>(v, pc). check_piece demo_env demo_fl pc v) ^^ 5) (cc_world (demo_at Queued), Queued) = (w', Answered resp)"
proof -
  have n: "wd_counter (cc_world demo_start) = 0" "tm_nanos (demo_times 0) = 0" by (simp_all add: demo_start_def demo_world_def demo_times_def)
  have "entered (demo_times 0) (cc_world demo_start) = Some (cc_world (demo_at Queued))"
    using demo_at_begin [of Queued] by (simp add: entered_def n)
  moreover have "demo_fl = \<lparr>fl_req = fl_req demo_fl, fl_id = request_id_of (demo_times 0) (cc_world demo_start), fl_times = demo_times 0\<rparr>"
    by (simp add: demo_fl_def request_id_of_def n)
  moreover obtain w' resp where "check demo_env (demo_times 0) (fl_req demo_fl) (cc_world demo_start) = (w', resp)" by fastforce
  ultimately show ?thesis using pieces_compose_to_check by blast
qed

end
