(* ===== verification/Xds_Tasks_Correct.thy ===== *)
theory Xds_Tasks_Correct
  imports Xds_Tasks
begin

text \<open>
  Properties of overlapping rebuilds and bounded channels: a version still names one content,
  a channel never holds more than its capacity; and what overlapping and blocking can do.
\<close>

subsection \<open>Versions\<close>

text \<open>Everything a client was sent or is about to be sent, and the snapshots that are about.\<close>

fun rebuild_responses :: "RebuildPc \<Rightarrow> DiscoveryResponse set" where
  "rebuild_responses (Broadcasting rs _ _ cur _) = set rs \<union> (case cur of Some (_, _, left) \<Rightarrow> set left | None \<Rightarrow> {})"
| "rebuild_responses _ = {}"

definition responses_of :: "XdsSystem \<Rightarrow> DiscoveryResponse set" where
  "responses_of x = (\<Union>sid. set (chn_sent (xp_channels (xc_cp x) sid)))
     \<union> (\<Union>(n, rs) \<in> ran (xc_streams x). set rs) \<union> (\<Union>pc \<in> ran (xc_rebuilds x). rebuild_responses pc)"

definition snapshots_of :: "XdsSystem \<Rightarrow> XdsSnapshot set" where
  "snapshots_of x = insert (xp_snapshot (xc_cp x)) {s. Built s \<in> ran (xc_rebuilds x)}"

definition answers :: "XdsSnapshot set \<Rightarrow> DiscoveryResponse set" where
  "answers S = {r. \<exists>s \<in> S. \<exists>t. response_for s t = Some r}"

text \<open>\<open>P\<close> gives the snapshot of each version, up to \<open>n + 1\<close>.\<close>

definition issued :: "(nat \<Rightarrow> XdsSnapshot) \<Rightarrow> nat \<Rightarrow> XdsSystem \<Rightarrow> bool" where
  "issued P n x \<longleftrightarrow> vc_next (xp_versions (xc_cp x)) = of_nat (n + 1)
     \<and> (\<forall>v \<in> {1..n + 1}. xs_version (P v) = of_nat v)
     \<and> snapshots_of x \<subseteq> P ` {1..n + 1} \<and> responses_of x \<subseteq> answers (P ` {1..n + 1})"

lemma answers_mono: "S \<subseteq> S' \<Longrightarrow> answers S \<subseteq> answers S'"
  by (auto simp: answers_def)

lemma issued_step:
  assumes "issued P n x" "xp_versions (xc_cp x') = xp_versions (xc_cp x)"
    and "snapshots_of x' \<subseteq> snapshots_of x" "responses_of x' \<subseteq> responses_of x \<union> answers (snapshots_of x)"
  shows "issued P n x'"
  using assms answers_mono [of "snapshots_of x" "P ` {1..n + 1}"] unfolding issued_def by (simp, blast)

lemma ran_upd: "ran (m(k \<mapsto> v)) \<subseteq> insert v (ran m)"
  by (auto simp: ran_def)

lemma in_ran: "m k = Some v \<Longrightarrow> v \<in> ran m"
  by (auto simp: ran_def)

lemma responses_of_upd:
  assumes "\<And>sid. set (chn_sent (xp_channels (xc_cp x') sid)) \<subseteq> set (chn_sent (xp_channels (xc_cp x) sid)) \<union> R"
    and "\<And>n rs. (n, rs) \<in> ran (xc_streams x') \<Longrightarrow> (n, rs) \<in> ran (xc_streams x) \<or> set rs \<subseteq> R"
    and "\<And>pc. pc \<in> ran (xc_rebuilds x') \<Longrightarrow> pc \<in> ran (xc_rebuilds x) \<or> rebuild_responses pc \<subseteq> R"
  shows "responses_of x' \<subseteq> responses_of x \<union> R"
  using assms unfolding responses_of_def by fast

lemma set_rebuild_fields [simp]:
  "xc_cp (set_rebuild i pc x) = xc_cp x" "xc_taken (set_rebuild i pc x) = xc_taken x" "xc_streams (set_rebuild i pc x) = xc_streams x"
  "xc_next (set_rebuild i pc x) = xc_next x" "xc_rebuilds (set_rebuild i pc x) = (xc_rebuilds x)(i \<mapsto> pc)"
  by (simp_all add: set_rebuild_def)

lemma send_one_fields [simp]:
  "xp_snapshot (send_one sid r cp) = xp_snapshot cp" "xp_versions (send_one sid r cp) = xp_versions cp"
  "xp_connections (send_one sid r cp) = xp_connections cp"
  "chn_sent (xp_channels (send_one sid r cp) sid') = chn_sent (xp_channels cp sid') @ (if sid' = sid then [r] else [])"
  "chn_open (xp_channels (send_one sid r cp) sid') = chn_open (xp_channels cp sid')"
  by (simp_all add: send_one_def)

lemma set_open_fields [simp]:
  "xp_snapshot (set_open sid b cp) = xp_snapshot cp" "xp_versions (set_open sid b cp) = xp_versions cp"
  "chn_sent (xp_channels (set_open sid b cp) sid') = chn_sent (xp_channels cp sid')"
  by (simp_all add: set_open_def)

lemma ads_close_fields [simp]:
  "xp_snapshot (ads_close n cp) = xp_snapshot cp" "xp_versions (ads_close n cp) = xp_versions cp" "xp_channels (ads_close n cp) = xp_channels cp"
  by (simp_all add: ads_close_def remove_def Let_def)

lemma rebuild_end_fields [simp]:
  "xp_snapshot (rebuild_end el ns cp) = xp_snapshot cp" "xp_versions (rebuild_end el ns cp) = xp_versions cp"
  "xp_channels (rebuild_end el ns cp) = xp_channels cp"
  by (simp_all add: rebuild_end_def Let_def)

lemma snapshots_of_upd:
  assumes "xp_snapshot (xc_cp x') = xp_snapshot (xc_cp x)" "xc_rebuilds x' = (xc_rebuilds x)(i \<mapsto> pc)" "\<And>s. pc \<noteq> Built s"
  shows "snapshots_of x' \<subseteq> snapshots_of x"
  using assms ran_upd [of "xc_rebuilds x" i pc] by (auto simp: snapshots_of_def)

lemma pending_response: "xc_rebuilds x i = Some pc \<Longrightarrow> rebuild_responses pc \<subseteq> responses_of x"
  using in_ran [of "xc_rebuilds x" i pc] by (auto simp: responses_of_def)

lemma waiting_response: "xc_streams x sid = Some (n, rs) \<Longrightarrow> set rs \<subseteq> responses_of x"
  using in_ran [of "xc_streams x" sid "(n, rs)"] by (auto simp: responses_of_def)

lemma ran_updD: "v' \<in> ran (m(k \<mapsto> v)) \<Longrightarrow> v' \<in> ran m \<or> v' = v"
  using ran_upd by fast

lemma snapshot_answers: "s \<in> S \<Longrightarrow> response_for s t = Some r \<Longrightarrow> r \<in> answers S"
  by (auto simp: answers_def)

lemma ordered_answers: "s \<in> S \<Longrightarrow> set (ordered_responses s) \<subseteq> answers S"
  using ordered_responses_for snapshot_answers by blast

text \<open>A broadcast goes on with responses that it had.\<close>

lemma issued_pending:
  assumes "issued P n x" "xc_rebuilds x i = Some pc" "rebuild_responses pc' \<subseteq> rebuild_responses pc" "\<And>s. pc' \<noteq> Built s"
    and "xp_snapshot cp = xp_snapshot (xc_cp x)" "xp_versions cp = xp_versions (xc_cp x)"
    and "\<And>sid. set (chn_sent (xp_channels cp sid)) \<subseteq> set (chn_sent (xp_channels (xc_cp x) sid)) \<union> rebuild_responses pc"
  shows "issued P n (set_rebuild i pc' (x\<lparr>xc_cp := cp\<rparr>))"
proof (rule issued_step [OF assms(1)])
  let ?x = "set_rebuild i pc' (x\<lparr>xc_cp := cp\<rparr>)"
  have "responses_of ?x \<subseteq> responses_of x \<union> rebuild_responses pc"
    by (rule responses_of_upd) (use assms(3,7) in \<open>auto dest!: ran_updD\<close>)
  then show "responses_of ?x \<subseteq> responses_of x \<union> answers (snapshots_of x)" using pending_response [OF assms(2)] by blast
  show "snapshots_of ?x \<subseteq> snapshots_of x" by (rule snapshots_of_upd) (use assms(4,5) in simp_all)
qed (simp add: assms(6))

lemma issued_pending_same:
  assumes "issued P n x" "xc_rebuilds x i = Some pc" "rebuild_responses pc' \<subseteq> rebuild_responses pc" "\<And>s. pc' \<noteq> Built s"
  shows "issued P n (set_rebuild i pc' x)"
  using issued_pending [OF assms, of "xc_cp x"] by auto

lemma issued_rebuild_step:
  assumes "rebuild_step i x x'" "issued P n x"
  shows "issued P n x'"
  using assms
proof (induction rule: rebuild_step.induct)
  case (stores x snapshot cp pc)
  have cp: "cp = (xc_cp x)\<lparr>xp_snapshot := snapshot\<rparr>"
    "pc = Broadcasting (ordered_responses snapshot) (map fst (xp_connections (xc_cp x))) {} None []"
    using stores.hyps(2) by (simp_all add: rebuild_store_def)
  have s: "snapshot \<in> snapshots_of x" using in_ran [of "xc_rebuilds x" i, OF stores.hyps(1)] by (simp add: snapshots_of_def)
  show ?case
  proof (rule issued_step [OF stores.prems])
    show "snapshots_of (set_rebuild i pc (x\<lparr>xc_cp := cp\<rparr>)) \<subseteq> snapshots_of x"
      using s ran_upd [of "xc_rebuilds x" i pc] by (auto simp: snapshots_of_def cp)
    show "responses_of (set_rebuild i pc (x\<lparr>xc_cp := cp\<rparr>)) \<subseteq> responses_of x \<union> answers (snapshots_of x)"
      by (rule responses_of_upd) (use ordered_answers [OF s] in \<open>auto simp: cp dest!: ran_updD\<close>)
  qed (simp add: cp)
next
  case (visits x rs initial visited gone n' sid)
  show ?case by (rule issued_pending_same [OF visits.prems visits.hyps(1)]) auto
next
  case (sends x rs initial visited n' sid r left gone)
  show ?case by (rule issued_pending [OF sends.prems sends.hyps(1)]) auto
next
  case (fails x rs initial visited n' sid r left gone)
  show ?case by (rule issued_pending_same [OF fails.prems fails.hyps(1)]) auto
next
  case (moves_on x rs initial visited n' sid gone)
  show ?case by (rule issued_pending_same [OF moves_on.prems moves_on.hyps(1)]) auto
next
  case (finishes x rs initial visited gone elapsed)
  show ?case by (rule issued_pending [OF finishes.prems finishes.hyps(1)]) auto
qed

lemma issued_begin:
  assumes "issued P n x" "rebuild_begin enc config (xc_cp x) = (cp, pc)"
  shows "\<exists>P'. issued P' (Suc n) (set_rebuild i pc (x\<lparr>xc_cp := cp\<rparr>))"
proof -
  let ?v = "of_nat (n + 2) :: u64" and ?x = "set_rebuild i pc (x\<lparr>xc_cp := cp\<rparr>)"
  have ver: "vc_next (xp_versions (xc_cp x)) + 1 = ?v" using assms(1) by (simp add: issued_def algebra_simps)
  obtain s where s: "xs_version s = ?v" "rebuild_responses pc = {}" "pc = Built s \<or> (\<forall>s. pc \<noteq> Built s)"
    and cp: "vc_next (xp_versions cp) = ?v" "xp_snapshot cp = xp_snapshot (xc_cp x)" "xp_channels cp = xp_channels (xc_cp x)"
  proof (cases "XdsSnapshot_build enc config ?v")
    case (Inl e)
    with assms(2) ver that [of "xp_snapshot (xc_cp x)\<lparr>xs_version := ?v\<rparr>"] show ?thesis
      by (auto simp: rebuild_begin_def increment_def Let_def)
  next
    case (Inr s)
    with assms(2) ver snapshot_parts(1) [OF Inr] that [of s] show ?thesis by (auto simp: rebuild_begin_def increment_def Let_def)
  qed
  let ?P = "P(n + 2 := s)"
  have img: "P ` {1..n + 1} \<subseteq> ?P ` {1..n + 2}" "s \<in> ?P ` {1..n + 2}" by (force, rule image_eqI [of _ _ "n + 2"], simp_all)
  have "responses_of ?x \<subseteq> responses_of x \<union> {}"
    by (rule responses_of_upd) (use s(2) cp in \<open>auto dest!: ran_updD\<close>)
  then have "responses_of ?x \<subseteq> answers (?P ` {1..n + 2})"
    using assms(1) answers_mono [OF img(1)] by (auto simp: issued_def)
  moreover have "snapshots_of ?x \<subseteq> insert s (snapshots_of x)"
    using s(3) ran_upd [of "xc_rebuilds x" i pc] cp(2) by (auto simp: snapshots_of_def)
  then have "snapshots_of ?x \<subseteq> ?P ` {1..n + 2}" using assms(1) img unfolding issued_def by blast
  moreover have "\<forall>v \<in> {1..n + 2}. xs_version (?P v) = of_nat v" using assms(1) s(1) by (auto simp: issued_def)
  ultimately show ?thesis using cp(1) by (intro exI [of _ ?P]) (simp add: issued_def)
qed

lemma issued_stream:
  assumes "issued P n x" "xp_snapshot cp = xp_snapshot (xc_cp x)" "xp_versions cp = xp_versions (xc_cp x)"
    and "\<And>sid. set (chn_sent (xp_channels cp sid)) \<subseteq> set (chn_sent (xp_channels (xc_cp x) sid)) \<union> responses_of x \<union> answers (snapshots_of x)"
    and "\<And>m rs. (m, rs) \<in> ran st \<Longrightarrow> (m, rs) \<in> ran (xc_streams x) \<or> set rs \<subseteq> responses_of x \<union> answers (snapshots_of x)"
  shows "issued P n (x\<lparr>xc_cp := cp, xc_streams := st, xc_next := k\<rparr>)"
proof (rule issued_step [OF assms(1)])
  let ?x = "x\<lparr>xc_cp := cp, xc_streams := st, xc_next := k\<rparr>"
  have "responses_of ?x \<subseteq> responses_of x \<union> (responses_of x \<union> answers (snapshots_of x))"
    by (rule responses_of_upd) (use assms(4,5) in auto)
  then show "responses_of ?x \<subseteq> responses_of x \<union> answers (snapshots_of x)" by blast
qed (simp_all add: assms(2,3) snapshots_of_def)

lemma xt_reach_issued: "xt_reach enc n x \<Longrightarrow> \<exists>P. issued P n x"
proof (induction rule: xt_reach.induct)
  case (start config metrics cp)
  then obtain s where "XdsSnapshot_build enc config 1 = Inr s" "xp_snapshot cp = s" "vc_next (xp_versions cp) = 1"
    "\<forall>sid. chn_sent (xp_channels cp sid) = []"
    by (auto simp: XdsControlPlane_new_def and_then_Inr VersionCounter_new_def)
  then show ?case using snapshot_parts(1)
    by (intro exI [of _ "\<lambda>_. s"]) (auto simp: issued_def responses_of_def snapshots_of_def)
next
  case (connect n x)
  then obtain P where "issued P n x" by blast
  then show ?case by (intro exI [of _ P] issued_stream) (auto dest!: ran_updD)
next
  case (receive n x sid node_id message node_id' cp responses)
  then obtain P where P: "issued P n x" by blast
  note e = ads_receive_effect [OF receive.hyps(3)]
  have "set responses \<subseteq> answers (snapshots_of x)"
    using ads_responses_for [of _ "xp_snapshot (xc_cp x)" message] unfolding e(4) answers_def snapshots_of_def by blast
  then have "issued P n (x\<lparr>xc_cp := cp, xc_streams := (xc_streams x)(sid \<mapsto> (node_id', responses)), xc_next := xc_next x\<rparr>)"
    by (intro issued_stream [OF P]) (auto simp: e(1-3) dest!: ran_updD)
  then show ?case by (intro exI [of _ P]) simp
next
  case (send n x sid node_id r rs)
  then obtain P where P: "issued P n x" by blast
  have "issued P n (x\<lparr>xc_cp := send_one sid r (xc_cp x), xc_streams := (xc_streams x)(sid \<mapsto> (node_id, rs)), xc_next := xc_next x\<rparr>)"
    by (rule issued_stream [OF P]) (use waiting_response [OF send.hyps(2)] in \<open>auto dest!: ran_updD\<close>)
  then show ?case by (intro exI [of _ P]) simp
next
  case (send_failed n x sid node_id r rs)
  then obtain P where P: "issued P n x" by blast
  have "issued P n (x\<lparr>xc_cp := xc_cp x, xc_streams := (xc_streams x)(sid \<mapsto> (node_id, [])), xc_next := xc_next x\<rparr>)"
    by (rule issued_stream [OF P]) (auto dest!: ran_updD)
  then show ?case by (intro exI [of _ P]) simp
next
  case (takes n x sid)
  then show ?case by (auto simp: issued_def responses_of_def snapshots_of_def)
next
  case (hang_up n x sid)
  then obtain P where P: "issued P n x" by blast
  have "issued P n (x\<lparr>xc_cp := set_open sid False (xc_cp x), xc_streams := xc_streams x, xc_next := xc_next x\<rparr>)"
    by (rule issued_stream [OF P]) auto
  then show ?case by (intro exI [of _ P]) simp
next
  case (stream_end n x sid node_id)
  then obtain P where P: "issued P n x" by blast
  have "ran ((xc_streams x)(sid := None)) \<subseteq> ran (xc_streams x)" by (auto simp: ran_def)
  then have "issued P n (x\<lparr>xc_cp := ads_close node_id (xc_cp x), xc_streams := (xc_streams x)(sid := None), xc_next := xc_next x\<rparr>)"
    by (intro issued_stream [OF P]) auto
  then show ?case by (intro exI [of _ P]) simp
next
  case (begins n x i config cp pc)
  then show ?case using issued_begin by blast
next
  case (rebuilds n x i x')
  then show ?case using issued_rebuild_step by blast
qed

subsection \<open>Channels\<close>

lemma ads_receive_channels: "ads_receive sid n m cp = (n', cp', rs) \<Longrightarrow> xp_channels cp' = xp_channels cp"
  by (rule ads_receive_effect(3))

lemma rebuild_begin_channels: "rebuild_begin enc config cp = (cp', pc) \<Longrightarrow> xp_channels cp' = xp_channels cp"
  by (auto simp: rebuild_begin_def increment_def Let_def split: sum.splits)

definition bounded_channels :: "XdsSystem \<Rightarrow> bool" where
  "bounded_channels x \<longleftrightarrow> (\<forall>sid. queued sid x \<le> CHANNEL_CAPACITY)"

lemma bounded_send: "bounded_channels x \<Longrightarrow> can_send sid x \<Longrightarrow> xc_cp x' = send_one sid r (xc_cp x) \<Longrightarrow> xc_taken x' = xc_taken x \<Longrightarrow>
  bounded_channels x'"
  by (auto simp: bounded_channels_def can_send_def queued_def)

lemma bounded_same: "bounded_channels x \<Longrightarrow> (\<And>sid. chn_sent (xp_channels (xc_cp x') sid) = chn_sent (xp_channels (xc_cp x) sid)) \<Longrightarrow>
  xc_taken x' = xc_taken x \<Longrightarrow> bounded_channels x'"
  by (simp add: bounded_channels_def queued_def)

lemma bounded_rebuild_step: "rebuild_step i x x' \<Longrightarrow> bounded_channels x \<Longrightarrow> bounded_channels x'"
proof (induction rule: rebuild_step.induct)
  case (sends x rs initial visited n sid r left gone)
  show ?case by (rule bounded_send [OF sends.prems sends.hyps(2)]) simp_all
qed (auto elim!: bounded_same simp: rebuild_store_def)

lemma xt_reach_bounded: "xt_reach enc n x \<Longrightarrow> bounded_channels x"
proof (induction rule: xt_reach.induct)
  case (start config metrics cp)
  then show ?case by (auto simp: XdsControlPlane_new_def and_then_Inr bounded_channels_def queued_def)
next
  case (send n x sid node_id r rs)
  show ?case by (rule bounded_send [OF send.IH send.hyps(3)]) simp_all
next
  case (takes n x sid)
  have "queued sid' (x\<lparr>xc_taken := (xc_taken x)(sid := Suc (xc_taken x sid))\<rparr>) \<le> queued sid' x" for sid'
    by (auto simp: queued_def)
  then show ?case using takes.IH unfolding bounded_channels_def by (meson le_trans)
next
  case (rebuilds n x i x')
  then show ?case by (simp add: bounded_rebuild_step)
qed (auto elim!: bounded_same dest: ads_receive_channels rebuild_begin_channels)

subsection \<open>A rebuild without interference\<close>

abbreviation with_channels :: "XdsSystem \<Rightarrow> (nat \<Rightarrow> Channel) \<Rightarrow> XdsSystem" where
  "with_channels x chans \<equiv> x\<lparr>xc_cp := (xc_cp x)\<lparr>xp_channels := chans\<rparr>\<rparr>"

abbreviation has_room :: "XdsSystem \<Rightarrow> nat \<Rightarrow> nat \<Rightarrow> bool" where
  "has_room x sid k \<equiv> queued sid x + k \<le> CHANNEL_CAPACITY \<and> xc_taken x sid \<le> length (chn_sent (xp_channels (xc_cp x) sid))"

lemma sends_all:
  assumes "xc_rebuilds x i = Some (Broadcasting rs initial visited (Some (n, sid, left)) gone)"
    and "chn_open (xp_channels (xc_cp x) sid)" "has_room x sid (length left)"
  shows "(rebuild_step i)\<^sup>*\<^sup>* x (set_rebuild i (Broadcasting rs initial visited (Some (n, sid, [])) gone)
    (with_channels x ((xp_channels (xc_cp x))(sid := (xp_channels (xc_cp x) sid)\<lparr>chn_sent := chn_sent (xp_channels (xc_cp x) sid) @ left\<rparr>))))"
  using assms
proof (induction left arbitrary: x)
  case Nil
  have "set_rebuild i (Broadcasting rs initial visited (Some (n, sid, [])) gone) x = x"
    using Nil.prems(1) by (simp add: set_rebuild_def map_upd_triv)
  then show ?case by simp
next
  case (Cons r left)
  let ?to = "\<lambda>x left. set_rebuild i (Broadcasting rs initial visited (Some (n, sid, [])) gone)
    (with_channels x ((xp_channels (xc_cp x))(sid := (xp_channels (xc_cp x) sid)\<lparr>chn_sent := chn_sent (xp_channels (xc_cp x) sid) @ left\<rparr>)))"
  let ?x = "set_rebuild i (Broadcasting rs initial visited (Some (n, sid, left)) gone) (x\<lparr>xc_cp := send_one sid r (xc_cp x)\<rparr>)"
  have step: "rebuild_step i x ?x"
    by (rule rebuild_step.sends [OF Cons.prems(1)]) (use Cons.prems(2,3) in \<open>simp add: can_send_def\<close>)
  have rest: "(rebuild_step i)\<^sup>*\<^sup>* ?x (?to ?x left)"
    by (rule Cons.IH) (use Cons.prems(2,3) in \<open>auto simp: queued_def\<close>)
  have "?to ?x left = ?to x (r # left)" by (simp add: set_rebuild_def send_one_def)
  with converse_rtranclp_into_rtranclp [OF step rest] show ?case by (simp only:)
qed

text \<open>One client of a broadcast.\<close>

lemma visit_one:
  assumes "xc_rebuilds x i = Some (Broadcasting rs initial visited None gone)" "(n, sid) \<in> set (xp_connections (xc_cp x))" "n \<notin> visited"
    and "chn_open (xp_channels (xc_cp x) sid) \<longrightarrow> has_room x sid (length rs)"
    and "send_all rs (xp_channels (xc_cp x) sid) = (ch, failed)"
  shows "(rebuild_step i)\<^sup>*\<^sup>* x (set_rebuild i (Broadcasting rs initial (insert n visited) None (gone @ (if failed then [n] else [])))
    (with_channels x ((xp_channels (xc_cp x))(sid := ch))))"
proof -
  let ?at = "\<lambda>left. Broadcasting rs initial (insert n visited) (Some (n, sid, left)) gone"
  let ?v = "set_rebuild i (?at rs) x"
  have v: "rebuild_step i x ?v" by (rule rebuild_step.visits [OF assms(1-3)])
  show ?thesis
  proof (cases "chn_open (xp_channels (xc_cp x) sid)")
    case True
    then have ch: "ch = (xp_channels (xc_cp x) sid)\<lparr>chn_sent := chn_sent (xp_channels (xc_cp x) sid) @ rs\<rparr>" "\<not> failed"
      using assms(5) by (auto simp: send_all_open)
    let ?s = "set_rebuild i (?at []) (with_channels x ((xp_channels (xc_cp x))(sid := ch)))"
    have room: "has_room ?v sid (length rs)" using True assms(4) by (auto simp: queued_def)
    have "(rebuild_step i)\<^sup>*\<^sup>* ?v ?s"
      using sends_all [of ?v i rs initial "insert n visited" n sid rs gone, OF _ _ room] True by (simp add: ch set_rebuild_def)
    moreover have "rebuild_step i ?s (set_rebuild i (Broadcasting rs initial (insert n visited) None gone) ?s)"
      by (rule rebuild_step.moves_on [of _ _ rs initial "insert n visited" n sid gone]) simp
    ultimately have "(rebuild_step i)\<^sup>*\<^sup>* x (set_rebuild i (Broadcasting rs initial (insert n visited) None gone) ?s)"
      using v by (meson converse_rtranclp_into_rtranclp rtranclp.rtrancl_into_rtrancl)
    then show ?thesis using ch(2) by (simp add: set_rebuild_def)
  next
    case False
    show ?thesis
    proof (cases rs)
      case Nil
      then have "ch = xp_channels (xc_cp x) sid" "\<not> failed" using assms(5) by auto
      moreover have "rebuild_step i ?v (set_rebuild i (Broadcasting rs initial (insert n visited) None gone) ?v)"
        by (rule rebuild_step.moves_on [of _ _ rs initial "insert n visited" n sid gone]) (simp add: Nil)
      ultimately show ?thesis using v by (auto simp: set_rebuild_def intro: converse_rtranclp_into_rtranclp)
    next
      case (Cons r left)
      then have "ch = xp_channels (xc_cp x) sid" "failed" using assms(5) False by auto
      moreover have "rebuild_step i ?v (set_rebuild i (Broadcasting rs initial (insert n visited) None (gone @ [n])) ?v)"
        by (rule rebuild_step.fails [of _ _ rs initial "insert n visited" n sid r left gone]) (use False Cons in simp_all)
      ultimately show ?thesis using v by (auto simp: set_rebuild_def intro: converse_rtranclp_into_rtranclp)
    qed
  qed
qed

lemma visit_all:
  assumes "xc_rebuilds x i = Some (Broadcasting rs initial visited None gone)" "set conns \<subseteq> set (xp_connections (xc_cp x))"
    and "distinct (map fst conns)" "distinct (map snd conns)" "fst ` set conns \<inter> visited = {}"
    and "\<forall>(n, sid) \<in> set conns. chn_open (xp_channels (xc_cp x) sid) \<longrightarrow> has_room x sid (length rs)"
    and "broadcast_to rs conns (xp_channels (xc_cp x)) = (chans, disconnected)"
  shows "(rebuild_step i)\<^sup>*\<^sup>* x (set_rebuild i (Broadcasting rs initial (visited \<union> fst ` set conns) None (gone @ disconnected)) (with_channels x chans))"
  using assms
proof (induction conns arbitrary: x visited gone chans disconnected)
  case Nil
  have "set_rebuild i (Broadcasting rs initial visited None gone) x = x"
    using Nil.prems(1) by (simp add: set_rebuild_def map_upd_triv)
  with Nil.prems(7) show ?case by (auto simp: set_rebuild_def)
next
  case (Cons c conns)
  obtain n sid where c: "c = (n, sid)" by (cases c)
  obtain ch failed where ch: "send_all rs (xp_channels (xc_cp x) sid) = (ch, failed)" by fastforce
  let ?x = "set_rebuild i (Broadcasting rs initial (insert n visited) None (gone @ (if failed then [n] else [])))
    (with_channels x ((xp_channels (xc_cp x))(sid := ch)))"
  obtain chans' d where b: "broadcast_to rs conns ((xp_channels (xc_cp x))(sid := ch)) = (chans', d)" by fastforce
  have e: "chans = chans'" "disconnected = (if failed then [n] else []) @ d"
    using Cons.prems(7) ch b by (auto simp: c)
  have "(rebuild_step i)\<^sup>*\<^sup>* x ?x"
    by (rule visit_one [OF Cons.prems(1) _ _ _ ch]) (use Cons.prems(2,5,6) in \<open>auto simp: c\<close>)
  moreover have "(rebuild_step i)\<^sup>*\<^sup>* ?x (set_rebuild i (Broadcasting rs initial (insert n visited \<union> fst ` set conns) None
      ((gone @ (if failed then [n] else [])) @ d)) (with_channels ?x chans'))"
  proof (rule Cons.IH)
    have "(chn_open (xp_channels (xc_cp ?x) sid') \<longrightarrow> has_room ?x sid' (length rs))
        \<longleftrightarrow> (chn_open (xp_channels (xc_cp x) sid') \<longrightarrow> has_room x sid' (length rs))" if "(m, sid') \<in> set conns" for m sid'
    proof -
      have "sid' \<noteq> sid" using Cons.prems(4) that by (force simp: c)
      then show ?thesis by (simp add: queued_def)
    qed
    then show "\<forall>(m, sid') \<in> set conns. chn_open (xp_channels (xc_cp ?x) sid') \<longrightarrow> has_room ?x sid' (length rs)"
      using Cons.prems(6) by (simp only: set_simps ball_simps) blast
    show "broadcast_to rs conns (xp_channels (xc_cp ?x)) = (chans', d)" using b by simp
  qed (use Cons.prems(2-5) in \<open>auto simp: c\<close>)
  ultimately show ?case by (auto simp: c e set_rebuild_def Un_insert_left)
qed

text \<open>The pieces of a rebuild are the rebuild: when no other task interferes and every open channel
  has room, the pieces run to the end and leave the control plane as \<open>rebuild_from_config\<close> does.\<close>

theorem rebuild_pieces_compose:
  assumes "rebuild_from_config enc elapsed config (xc_cp x) = (cp, r)"
    and "distinct (map fst (xp_connections (xc_cp x)))" "distinct (map snd (xp_connections (xc_cp x)))"
    and "\<forall>(n, sid) \<in> set (xp_connections (xc_cp x)). chn_open (xp_channels (xc_cp x) sid) \<longrightarrow> queued sid x + 4 \<le> CHANNEL_CAPACITY
      \<and> xc_taken x sid \<le> length (chn_sent (xp_channels (xc_cp x) sid))"
    and "rebuild_begin enc config (xc_cp x) = (cp1, pc)"
  shows "(rebuild_step i)\<^sup>*\<^sup>* (set_rebuild i pc (x\<lparr>xc_cp := cp1\<rparr>)) (set_rebuild i (Finished r) (x\<lparr>xc_cp := cp\<rparr>))"
proof (cases "XdsSnapshot_build enc config (vc_next (xp_versions (xc_cp x)) + 1)")
  case (Inl e)
  with assms(1,5) show ?thesis by (auto simp: rebuild_from_config_def rebuild_begin_def increment_def Let_def)
next
  case (Inr s)
  let ?rs = "ordered_responses s" and ?conns = "xp_connections (xc_cp x)"
  let ?x1 = "set_rebuild i (Built s) (x\<lparr>xc_cp := cp1\<rparr>)"
  let ?bc = "\<lambda>visited gone. Broadcasting ?rs (map fst ?conns) visited None gone"
  let ?x2 = "set_rebuild i (?bc {} []) (x\<lparr>xc_cp := cp1\<lparr>xp_snapshot := s\<rparr>\<rparr>)"
  have b: "pc = Built s" "xp_connections cp1 = ?conns" "xp_channels cp1 = xp_channels (xc_cp x)"
    using assms(5) Inr by (auto simp: rebuild_begin_def increment_def Let_def)
  obtain chans d where bt: "broadcast_to ?rs ?conns (xp_channels (xc_cp x)) = (chans, d)" by fastforce
  let ?x3 = "set_rebuild i (?bc (fst ` set ?conns) d) (with_channels ?x2 chans)"
  have s1: "rebuild_step i ?x1 ?x2"
    using rebuild_step.stores [of ?x1 i s "cp1\<lparr>xp_snapshot := s\<rparr>" "?bc {} []"] b by (simp add: rebuild_store_def set_rebuild_def)
  have "length ?rs = 4"
    using arg_cong [of _ _ length, OF ordered_responses_built(1) [OF Inr]] by (simp add: TYPE_URLS_IN_ORDER_def)
  then have "\<forall>(n, sid) \<in> set ?conns. chn_open (xp_channels (xc_cp ?x2) sid) \<longrightarrow> has_room ?x2 sid (length ?rs)"
    using assms(4) by (simp add: queued_def b)
  then have s2: "(rebuild_step i)\<^sup>*\<^sup>* ?x2 ?x3"
    using visit_all [of ?x2 i ?rs "map fst ?conns" "{}" "[]" ?conns chans d] assms(2,3) bt by (simp add: b)
  have s3: "rebuild_step i ?x3 (set_rebuild i (Finished (Inr ())) (?x3\<lparr>xc_cp := rebuild_end elapsed d (xc_cp ?x3)\<rparr>))"
    by (rule rebuild_step.finishes [of _ _ ?rs "map fst ?conns" "fst ` set ?conns"]) (auto simp: b)
  have e: "set_rebuild i (Finished (Inr ())) (?x3\<lparr>xc_cp := rebuild_end elapsed d (xc_cp ?x3)\<rparr>)
      = set_rebuild i (Finished r) (x\<lparr>xc_cp := cp\<rparr>)"
  proof -
    have "cp1 = (xc_cp x)\<lparr>xp_versions := fst (increment (xp_versions (xc_cp x))),
        xp_metrics := set_xds_snapshot_version (vc_next (xp_versions (xc_cp x)) + 1) (xp_metrics (xc_cp x))\<rparr>"
      using assms(5) Inr by (simp add: rebuild_begin_def increment_def)
    moreover have "cp = rebuild_end elapsed d ((xc_cp x)\<lparr>xp_versions := fst (increment (xp_versions (xc_cp x))),
        xp_metrics := set_xds_snapshot_version (vc_next (xp_versions (xc_cp x)) + 1) (xp_metrics (xc_cp x)),
        xp_snapshot := s, xp_channels := chans\<rparr>)" "r = Inr ()"
      using assms(1) Inr bt by (simp_all add: rebuild_from_config_def increment_def broadcast_def rebuild_end_def Let_def)
    ultimately show ?thesis by (simp add: set_rebuild_def)
  qed
  from rtranclp.rtrancl_into_rtrancl [where r = "rebuild_step i", OF converse_rtranclp_into_rtranclp [where r = "rebuild_step i", OF s1 s2] s3]
  show ?thesis unfolding b(1) e .
qed

subsection \<open>What every interleaving keeps\<close>

text \<open>C5. A version names one content, also when rebuilds overlap: whatever a client was sent, or a
  task is about to send, carries the version of a snapshot built so far, and two responses of
  the same type with the same version are equal.\<close>

theorem overlapping_version_determines_content:
  assumes "xt_reach enc n x" "n + 1 < 2 ^ 64"
  shows "(\<forall>r \<in> responses_of x. \<exists>v. 1 \<le> v \<and> v \<le> n + 1 \<and> dr_version_info r = show_nat v)
    \<and> (\<forall>r \<in> responses_of x. \<forall>r' \<in> responses_of x.
         dr_version_info r = dr_version_info r' \<and> dr_type_url r = dr_type_url r' \<longrightarrow> r = r')"
proof -
  obtain P where P: "issued P n x" using xt_reach_issued [OF assms(1)] by blast
  have "\<exists>v. 1 \<le> v \<and> v \<le> n + 1 \<and> dr_version_info r = show_nat v \<and> response_for (P v) (dr_type_url r) = Some r"
    if "r \<in> responses_of x" for r
  proof -
    from that P obtain v t where v: "v \<in> {1..n + 1}" "response_for (P v) t = Some r" unfolding issued_def answers_def by blast
    then have "unat (xs_version (P v)) = v" using P assms(2) by (simp add: issued_def unat_of_nat)
    with v show ?thesis by (intro exI [of _ v]) (auto simp: response_for_def)
  qed
  then show ?thesis by (metis option.inject show_nat_inject)
qed

text \<open>No channel ever holds more than its sixteen responses: the memory that a client which
  does not read can take is bounded.\<close>

theorem channel_bounded: "xt_reach enc n x \<Longrightarrow> queued sid x \<le> CHANNEL_CAPACITY"
  using xt_reach_bounded by (simp add: bounded_channels_def)

subsection \<open>What overlapping and blocking can do\<close>

lemma xt_rebuilds: "(rebuild_step i)\<^sup>*\<^sup>* x x' \<Longrightarrow> xt_reach enc n x \<Longrightarrow> xt_reach enc n x'"
  by (induction rule: rtranclp_induct) (auto intro: xt_reach.rebuilds)

lemma broadcast_to_nobody:
  assumes "xc_rebuilds x i = Some (Built s)" "xp_connections (xc_cp x) = []"
  shows "\<exists>cp. (rebuild_step i)\<^sup>*\<^sup>* x (set_rebuild i (Finished (Inr ())) (x\<lparr>xc_cp := cp\<rparr>)) \<and> xp_snapshot cp = s
    \<and> xp_connections cp = [] \<and> xp_versions cp = xp_versions (xc_cp x)"
proof -
  let ?cp = "(xc_cp x)\<lparr>xp_snapshot := s\<rparr>"
  let ?x = "set_rebuild i (Broadcasting (ordered_responses s) [] {} None []) (x\<lparr>xc_cp := ?cp\<rparr>)"
  have "rebuild_step i x ?x" by (rule rebuild_step.stores [OF assms(1)]) (simp add: rebuild_store_def assms(2))
  moreover have "rebuild_step i ?x (set_rebuild i (Finished (Inr ())) (?x\<lparr>xc_cp := rebuild_end (Fin 0) [] (xc_cp ?x)\<rparr>))"
    by (rule rebuild_step.finishes [of _ _ "ordered_responses s" "[]" "{}"]) (simp_all add: assms(2))
  ultimately have "(rebuild_step i)\<^sup>*\<^sup>* x (set_rebuild i (Finished (Inr ())) (?x\<lparr>xc_cp := rebuild_end (Fin 0) [] (xc_cp ?x)\<rparr>))"
    by (meson converse_rtranclp_into_rtranclp r_into_rtranclp)
  then show ?thesis
    by (intro exI [of _ "rebuild_end (Fin 0) [] ?cp"]) (simp add: set_rebuild_def rebuild_end_def Let_def assms(2))
qed

text \<open>C34. Of two overlapping rebuilds the older may win: both return \<open>Ok\<close>, the later call had
  the newer configuration and the higher version, and the snapshot that is left, which every
  client is served from, is that of the earlier call. Nothing compares versions when the snapshot is stored.\<close>

theorem overlapping_rebuilds_keep_older:
  assumes "encodes_all enc" "accepted_config url_parse older" "accepted_config url_parse newer"
  shows "\<exists>x. xt_reach enc 2 x \<and> XdsSnapshot_build enc older 2 = Inr (xp_snapshot (xc_cp x))
    \<and> vc_next (xp_versions (xc_cp x)) = 3 \<and> xc_rebuilds x = [0 \<mapsto> Finished (Inr ()), 1 \<mapsto> Finished (Inr ())]"
proof -
  obtain cp where cp: "XdsControlPlane_new enc older \<lparr>mr_calls = []\<rparr> = Inr cp"
    "vc_next (xp_versions cp) = 1" "xp_connections cp = []"
    using fresh_control_plane [OF assms(1,2)] by blast
  obtain s2 s3 where s: "XdsSnapshot_build enc older 2 = Inr s2" "XdsSnapshot_build enc newer 3 = Inr s3"
    using snapshot_build_ok [OF assms(1,2), of 2] snapshot_build_ok [OF assms(1,3), of 3] by (auto simp: is_ok_iff)
  define x0 where "x0 = \<lparr>xc_cp = cp, xc_taken = \<lambda>_. 0, xc_streams = Map.empty, xc_next = 0, xc_rebuilds = Map.empty\<rparr>"
  have r0: "xt_reach enc 0 x0" unfolding x0_def by (rule xt_reach.start [OF cp(1)])
  obtain cp1 where b1: "rebuild_begin enc older cp = (cp1, Built s2)" "vc_next (xp_versions cp1) = 2" "xp_connections cp1 = []"
    using s(1) cp by (simp add: rebuild_begin_def increment_def)
  define x1 where "x1 = set_rebuild 0 (Built s2) (x0\<lparr>xc_cp := cp1\<rparr>)"
  have r1: "xt_reach enc 1 x1" using xt_reach.begins [OF r0, of 0] b1(1) by (simp add: x0_def x1_def)
  obtain cp2 where b2: "rebuild_begin enc newer cp1 = (cp2, Built s3)" "vc_next (xp_versions cp2) = 3" "xp_connections cp2 = []"
    using s(2) b1 by (simp add: rebuild_begin_def increment_def)
  define x2 where "x2 = set_rebuild 1 (Built s3) (x1\<lparr>xc_cp := cp2\<rparr>)"
  have r2: "xt_reach enc 2 x2" using xt_reach.begins [OF r1, of 1] b2(1) by (simp add: x0_def x1_def x2_def numeral_2_eq_2)
  obtain cp3 where f1: "(rebuild_step 1)\<^sup>*\<^sup>* x2 (set_rebuild 1 (Finished (Inr ())) (x2\<lparr>xc_cp := cp3\<rparr>))"
    "xp_connections cp3 = []" "vc_next (xp_versions cp3) = 3"
    using broadcast_to_nobody [of x2 1 s3] b2 by (auto simp: x2_def)
  define x3 where "x3 = set_rebuild 1 (Finished (Inr ())) (x2\<lparr>xc_cp := cp3\<rparr>)"
  obtain cp4 where f0: "(rebuild_step 0)\<^sup>*\<^sup>* x3 (set_rebuild 0 (Finished (Inr ())) (x3\<lparr>xc_cp := cp4\<rparr>))"
    "xp_snapshot cp4 = s2" "vc_next (xp_versions cp4) = 3"
    using broadcast_to_nobody [of x3 0 s2] f1(2,3) by (auto simp: x3_def x2_def x1_def)
  have "xt_reach enc 2 (set_rebuild 0 (Finished (Inr ())) (x3\<lparr>xc_cp := cp4\<rparr>))"
    using xt_rebuilds [OF f0(1)] xt_rebuilds [OF f1(1) r2] by (simp add: x3_def)
  then show ?thesis using f0(2,3) s(1)
    by (intro exI [of _ "set_rebuild 0 (Finished (Inr ())) (x3\<lparr>xc_cp := cp4\<rparr>)"])
      (auto simp: x3_def x2_def x1_def x0_def fun_eq_iff)
qed

theorem overlapping_rebuilds_keep_older_witness:
  "\<exists>x. xt_reach (\<lambda>_. Inr []) 2 x \<and> XdsSnapshot_build (\<lambda>_. Inr []) sample_config 2 = Inr (xp_snapshot (xc_cp x))"
  using overlapping_rebuilds_keep_older [OF _ sample_valid sample_valid, of "\<lambda>_. Inr []"] by (auto simp: encodes_all_def)

text \<open>A client that subscribes again and again without reading fills its channel.\<close>

definition unread :: "encoder \<Rightarrow> XdsSnapshot \<Rightarrow> nat \<Rightarrow> XdsSystem \<Rightarrow> bool" where
  "unread enc s k x \<longleftrightarrow> xt_reach enc 0 x \<and> xp_snapshot (xc_cp x) = s \<and> vc_next (xp_versions (xc_cp x)) = 1
     \<and> xp_connections (xc_cp x) = [(''envoy-1'', 0)] \<and> chn_open (xp_channels (xc_cp x) 0)
     \<and> length (chn_sent (xp_channels (xc_cp x) 0)) = k \<and> xc_taken x 0 = 0
     \<and> xc_streams x 0 = Some (''envoy-1'', []) \<and> xc_rebuilds x = Map.empty"

lemma ads_receive_again:
  assumes "XdsSnapshot_build enc cfg 1 = Inr s" "xp_snapshot cp = s"
  shows "\<exists>cp' r. ads_receive sid ''envoy-1'' subscribe cp = (''envoy-1'', cp', [r]) \<and> xp_connections cp' = xp_connections cp"
  using ads_receive_first [OF assms(1), of cp sid] assms(2)
  by (auto simp: ads_receive_def ads_register_def ads_update_status_def is_nack_def subscribe_def Let_def register_def split: prod.splits)

lemma unread_more:
  assumes "XdsSnapshot_build enc cfg 1 = Inr s" "unread enc s k x" "k < CHANNEL_CAPACITY"
  shows "\<exists>x'. unread enc s (Suc k) x'"
proof -
  obtain cp r where cp: "ads_receive 0 ''envoy-1'' subscribe (xc_cp x) = (''envoy-1'', cp, [r])" "xp_connections cp = xp_connections (xc_cp x)"
    using ads_receive_again [OF assms(1), of "xc_cp x" 0] assms(2) by (auto simp: unread_def)
  note e = ads_receive_effect [OF cp(1)]
  let ?x1 = "x\<lparr>xc_cp := cp, xc_streams := (xc_streams x)(0 \<mapsto> (''envoy-1'', [r]))\<rparr>"
  let ?x2 = "x\<lparr>xc_cp := send_one 0 r cp, xc_streams := (xc_streams x)(0 \<mapsto> (''envoy-1'', []))\<rparr>"
  have "xt_reach enc 0 ?x1" using xt_reach.receive [OF _ _ cp(1)] assms(2) by (simp add: unread_def)
  from xt_reach.send [OF this, of 0 "''envoy-1''" r "[]"] have "xt_reach enc 0 ?x2"
    using assms(2,3) by (simp add: unread_def can_send_def queued_def e(1-3))
  then show ?thesis using assms(2) cp(2) by (intro exI [of _ ?x2]) (simp add: unread_def e(1-3))
qed

lemma unread_some:
  assumes "encodes_all enc" "accepted_config url_parse cfg" "Suc k \<le> CHANNEL_CAPACITY"
  shows "\<exists>s x. unread enc s (Suc k) x"
proof -
  obtain s cp where cp: "XdsSnapshot_build enc cfg 1 = Inr s" "XdsControlPlane_new enc cfg \<lparr>mr_calls = []\<rparr> = Inr cp"
    "xp_snapshot cp = s" "vc_next (xp_versions cp) = 1" "xp_connections cp = []" "chn_sent (xp_channels cp 0) = []"
    using fresh_control_plane [OF assms(1,2)] by blast
  let ?cp1 = "set_open 0 True cp"
  obtain cp2 r where cp2: "ads_receive 0 [] subscribe ?cp1 = (''envoy-1'', cp2, [r])" "xp_connections cp2 = [(''envoy-1'', 0)]"
    using ads_receive_first [OF cp(1), of ?cp1 0] cp(3,5) by (auto simp: set_open_def)
  note e = ads_receive_effect [OF cp2(1)]
  let ?x = "\<lambda>cp n rs. \<lparr>xc_cp = cp, xc_taken = \<lambda>_. 0, xc_streams = [0 \<mapsto> (n, rs)], xc_next = 1, xc_rebuilds = Map.empty\<rparr>"
  have "xt_reach enc 0 (?x ?cp1 [] [])" using xt_reach.connect [OF xt_reach.start [OF cp(2)]] by simp
  from xt_reach.receive [OF this, of 0 "[]"] cp2(1) have "xt_reach enc 0 (?x cp2 ''envoy-1'' [r])" by simp
  from xt_reach.send [OF this, of 0 "''envoy-1''" r "[]"] have "xt_reach enc 0 (?x (send_one 0 r cp2) ''envoy-1'' [])"
    by (simp add: can_send_def queued_def e(1-3) set_open_def cp(6) CHANNEL_CAPACITY_def)
  then have one: "unread enc s (Suc 0) (?x (send_one 0 r cp2) ''envoy-1'' [])"
    using cp cp2(2) by (simp add: unread_def e(1-3) set_open_def)
  have "\<exists>x. unread enc s (Suc k) x" if "Suc k \<le> CHANNEL_CAPACITY" for k
    using that
  proof (induction k)
    case 0
    show ?case using one by blast
  next
    case (Suc k)
    then show ?case using unread_more [OF cp(1)] by (meson Suc_le_lessD Suc_leD)
  qed
  with assms(3) show ?thesis by blast
qed

lemma unread_full:
  assumes "encodes_all enc" "accepted_config url_parse cfg"
  shows "\<exists>s x. unread enc s CHANNEL_CAPACITY x"
  using unread_some [OF assms, of 15] by (simp add: CHANNEL_CAPACITY_def)

text \<open>C35. A client that does not read stops every rebuild: once its channel is full, a
  rebuild, and with it the reload that called it, has no step left until that client reads or
  hangs up. There is no time-out on the send, and the clients after it are not served either.\<close>

theorem slow_client_blocks_rebuild:
  assumes "encodes_all enc" "accepted_config url_parse cfg"
  shows "\<exists>x. xt_reach enc 1 x \<and> queued 0 x = CHANNEL_CAPACITY \<and> chn_open (xp_channels (xc_cp x) 0)
    \<and> (\<exists>rs initial visited left gone. xc_rebuilds x 0 = Some (Broadcasting rs initial visited (Some (''envoy-1'', 0, left)) gone))
    \<and> (\<nexists>x'. rebuild_step 0 x x')"
proof -
  obtain s x where x: "unread enc s CHANNEL_CAPACITY x" using unread_full [OF assms] by blast
  obtain s2 where s2: "XdsSnapshot_build enc cfg 2 = Inr s2" using snapshot_build_ok [OF assms] by (auto simp: is_ok_iff)
  obtain cp where b: "rebuild_begin enc cfg (xc_cp x) = (cp, Built s2)" "xp_connections cp = [(''envoy-1'', 0)]"
    using s2 x by (auto simp: rebuild_begin_def increment_def unread_def Let_def)
  let ?rs = "ordered_responses s2"
  let ?at = "\<lambda>visited cur. set_rebuild 0 (Broadcasting ?rs [''envoy-1''] visited cur []) (x\<lparr>xc_cp := cp\<lparr>xp_snapshot := s2\<rparr>\<rparr>)"
  let ?x1 = "set_rebuild 0 (Built s2) (x\<lparr>xc_cp := cp\<rparr>)" and ?x3 = "?at {''envoy-1''} (Some (''envoy-1'', 0, ?rs))"
  have "xt_reach enc 1 ?x1" using xt_reach.begins [of enc 0 x 0] b(1) x by (simp add: unread_def)
  moreover have "rebuild_step 0 ?x1 (?at {} None)"
    using rebuild_step.stores [of ?x1 0 s2] b(2) by (simp add: rebuild_store_def set_rebuild_def)
  moreover have "rebuild_step 0 (?at {} None) ?x3"
    using rebuild_step.visits [of "?at {} None" 0 ?rs "[''envoy-1'']" "{}" "[]" "''envoy-1''" 0] b(2) by (simp add: set_rebuild_def)
  ultimately have "xt_reach enc 1 ?x3" by (meson xt_reach.rebuilds)
  moreover have ch: "queued 0 ?x3 = CHANNEL_CAPACITY" "chn_open (xp_channels (xc_cp ?x3) 0)"
    using x rebuild_begin_channels [OF b(1)] by (simp_all add: unread_def queued_def)
  moreover have "?rs \<noteq> []" using ordered_responses_built(1) [OF s2] by (auto simp: TYPE_URLS_IN_ORDER_def)
  then have "\<not> rebuild_step 0 ?x3 x'" for x' using ch by (auto elim!: rebuild_step.cases simp: can_send_def)
  ultimately show ?thesis by (intro exI [of _ ?x3]) simp
qed

theorem slow_client_blocks_rebuild_witness:
  "\<exists>x. xt_reach (\<lambda>_. Inr []) 1 x \<and> queued 0 x = CHANNEL_CAPACITY \<and> (\<nexists>x'. rebuild_step 0 x x')"
  using slow_client_blocks_rebuild [OF _ sample_valid, of "\<lambda>_. Inr []"] by (auto simp: encodes_all_def)

theorem channel_bounded_witness:
  "\<exists>x. xt_reach (\<lambda>_. Inr []) 0 x \<and> queued 0 x = 16 \<and> queued 0 x \<le> CHANNEL_CAPACITY"
proof -
  obtain s x where "unread (\<lambda>_. Inr []) s CHANNEL_CAPACITY x"
    using unread_full [OF _ sample_valid, of "\<lambda>_. Inr []"] by (auto simp: encodes_all_def)
  then have "xt_reach (\<lambda>_. Inr []) 0 x" "queued 0 x = 16" by (auto simp: unread_def queued_def CHANNEL_CAPACITY_def)
  then show ?thesis using channel_bounded by blast
qed

theorem overlapping_version_determines_content_witness:
  "\<exists>x r. xt_reach (\<lambda>_. Inr []) 0 x \<and> r \<in> responses_of x \<and> (\<exists>v. 1 \<le> v \<and> v \<le> 0 + 1 \<and> dr_version_info r = show_nat v)"
proof -
  obtain s x where "unread (\<lambda>_. Inr []) s CHANNEL_CAPACITY x"
    using unread_full [OF _ sample_valid, of "\<lambda>_. Inr []"] by (auto simp: encodes_all_def)
  then have x: "xt_reach (\<lambda>_. Inr []) 0 x" "length (chn_sent (xp_channels (xc_cp x) 0)) = 16"
    by (auto simp: unread_def CHANNEL_CAPACITY_def)
  then obtain r where "r \<in> set (chn_sent (xp_channels (xc_cp x) 0))" by (cases "chn_sent (xp_channels (xc_cp x) 0)") auto
  then have r: "r \<in> responses_of x" by (auto simp: responses_of_def)
  with overlapping_version_determines_content [OF x(1)] x(1) show ?thesis by (intro exI [of _ x] exI [of _ r]) simp
qed

theorem rebuild_pieces_compose_witness:
  "\<exists>x cp r cp1 pc. queued 0 x = 1 \<and> rebuild_from_config (\<lambda>_. Inr []) (Fin 0) sample_config (xc_cp x) = (cp, r)
    \<and> rebuild_begin (\<lambda>_. Inr []) sample_config (xc_cp x) = (cp1, pc)
    \<and> (rebuild_step 0)\<^sup>*\<^sup>* (set_rebuild 0 pc (x\<lparr>xc_cp := cp1\<rparr>)) (set_rebuild 0 (Finished r) (x\<lparr>xc_cp := cp\<rparr>))"
proof -
  obtain s x where x: "unread (\<lambda>_. Inr []) s 1 x"
    using unread_some [OF _ sample_valid, of "\<lambda>_. Inr []" 0] by (auto simp: encodes_all_def CHANNEL_CAPACITY_def)
  obtain cp r cp1 pc where r: "rebuild_from_config (\<lambda>_. Inr []) (Fin 0) sample_config (xc_cp x) = (cp, r)"
    "rebuild_begin (\<lambda>_. Inr []) sample_config (xc_cp x) = (cp1, pc)" by (metis surj_pair)
  have "(rebuild_step 0)\<^sup>*\<^sup>* (set_rebuild 0 pc (x\<lparr>xc_cp := cp1\<rparr>)) (set_rebuild 0 (Finished r) (x\<lparr>xc_cp := cp\<rparr>))"
    by (rule rebuild_pieces_compose [OF r(1) _ _ _ r(2)]) (use x in \<open>simp_all add: unread_def queued_def CHANNEL_CAPACITY_def\<close>)
  with r x show ?thesis by (intro exI [of _ x] exI [of _ cp] exI [of _ r] exI [of _ cp1] exI [of _ pc]) (simp add: unread_def queued_def)
qed

end
