(* ===== verification/Dev_Token.thy ===== *)
theory Dev_Token
  imports Auth_Correct
begin

text \<open>
  The script for development tokens (\<open>scripts/gen-jwt-dev.py\<close>) and what the gateway makes of
  its tokens. Time is in microseconds since the epoch. A naive \<open>datetime\<close> is the microseconds
  that its fields would be in UTC; \<open>utcoffset\<close> gives the offset of local time, in seconds east
  of UTC, that is in force at such fields. Parameters: PyJWT (\<open>encode\<close>, \<open>decode_unverified\<close>),
  \<open>json.dumps\<close> and the file system.
\<close>

subsection \<open>The payload\<close>

datatype Scopes = NoScopes | ScopeStr string | ScopeList "string list"

record Payload =
  pl_sub :: string
  pl_iss :: string
  pl_aud :: "string list"
  pl_iat :: int
  pl_nbf :: int
  pl_exp :: int
  pl_scope :: "string option"
  pl_scp :: "string list option"

text \<open>\<open>datetime.utcnow()\<close> gives the fields of the time in UTC, without a time zone, and
  \<open>timestamp()\<close> takes fields without a time zone for local time. \<open>int\<close> rounds towards zero.\<close>

definition utcnow :: "int \<Rightarrow> int" where
  "utcnow now = now"

definition timestamp :: "(int \<Rightarrow> int) \<Rightarrow> int \<Rightarrow> int" where
  "timestamp utcoffset dt = dt - utcoffset dt * 10 ^ 6"

definition int_seconds :: "int \<Rightarrow> int" where
  "int_seconds us = (if 0 \<le> us then us div 10 ^ 6 else - (- us div 10 ^ 6))"

text \<open>\<open>str.split()\<close>: the white space of Python is that of Unicode and the four information
  separators.\<close>

definition py_ws :: "string list" where
  "py_ws = ws_encodings @ [[CHR 0x1C], [CHR 0x1D], [CHR 0x1E], [CHR 0x1F]]"

function py_split :: "string \<Rightarrow> string \<Rightarrow> string list" where
  "py_split cur s =
     (case leading py_ws s of
        Some w \<Rightarrow> (if cur = [] then [] else [rev cur]) @ py_split [] (drop (length w) s)
      | None \<Rightarrow> (case s of [] \<Rightarrow> (if cur = [] then [] else [rev cur])
                 | c # t \<Rightarrow> py_split (c # cur) t))"
  by pat_completeness auto
termination
  by (relation "measure (\<lambda>(cur, s). length s)") (auto dest: leading_shorter)

declare py_split.simps [simp del]

fun join_space :: "string list \<Rightarrow> string" where
  "join_space [] = []"
| "join_space [x] = x"
| "join_space (x # xs) = x @ '' '' @ join_space xs"

fun scope_claims :: "Scopes \<Rightarrow> string option \<times> string list option" where
  "scope_claims NoScopes = (None, None)"
| "scope_claims (ScopeStr s) = (if s = [] then (None, None) else (Some s, Some (py_split [] s)))"
| "scope_claims (ScopeList ss) = (if ss = [] then (None, None) else (Some (join_space ss), Some ss))"

definition payload_of :: "(int \<Rightarrow> int) \<Rightarrow> int \<Rightarrow> string \<Rightarrow> Scopes \<Rightarrow> int \<Rightarrow> string \<Rightarrow> string \<Rightarrow> Payload" where
  "payload_of utcoffset clock subject scopes expires_in_hours issuer audience =
     (let now = utcnow clock; (scope, scp) = scope_claims scopes
      in \<lparr>pl_sub = subject, pl_iss = issuer, pl_aud = [audience],
          pl_iat = int_seconds (timestamp utcoffset now), pl_nbf = int_seconds (timestamp utcoffset now),
          pl_exp = int_seconds (timestamp utcoffset (now + expires_in_hours * 3600 * 10 ^ 6)),
          pl_scope = scope, pl_scp = scp\<rparr>)"

definition generate_jwt ::
  "(Payload \<Rightarrow> string \<Rightarrow> string \<Rightarrow> (string, string) result) \<Rightarrow> (int \<Rightarrow> int) \<Rightarrow> int \<Rightarrow> string \<Rightarrow> string \<Rightarrow> Scopes \<Rightarrow> int \<Rightarrow> string
    \<Rightarrow> string \<Rightarrow> (string, string) result" where
  "generate_jwt encode utcoffset clock private_key subject scopes expires_in_hours issuer audience =
     encode (payload_of utcoffset clock subject scopes expires_in_hours issuer audience) private_key ''dev-key-1''"

subsection \<open>The command\<close>

record Args =
  ar_sub :: string
  ar_scopes :: "string option"
  ar_issuer :: string
  ar_audience :: string
  ar_hours :: int
  ar_key_file :: string
  ar_decode :: bool

definition Args_default :: "string \<Rightarrow> Args" where
  "Args_default DEFAULT_KEY_FILE =
     \<lparr>ar_sub = ''test-user'', ar_scopes = None, ar_issuer = ''https://dev.example.local/'', ar_audience = ''api-gateway'',
      ar_hours = 24, ar_key_file = DEFAULT_KEY_FILE, ar_decode = False\<rparr>"

record Output =
  out_code :: int
  out_stdout :: "string list"
  out_stderr :: "string list"

text \<open>\<open>main\<close> after the arguments are parsed. \<open>read\<close> is \<open>None\<close> for a file that does not exist; an
  exception of \<open>read_text\<close> is not caught.\<close>

datatype MainResult = Done Output | Uncaught string

definition main ::
  "(Payload \<Rightarrow> string \<Rightarrow> string \<Rightarrow> (string, string) result) \<Rightarrow> (string \<Rightarrow> (string, string) result) \<Rightarrow> (int \<Rightarrow> int) \<Rightarrow> int
    \<Rightarrow> (string \<Rightarrow> (string, string) result option) \<Rightarrow> Args \<Rightarrow> MainResult" where
  "main encode decode_and_dump utcoffset clock read args =
     (case read (ar_key_file args) of
        None \<Rightarrow> Done \<lparr>out_code = 1, out_stdout = [],
          out_stderr = [''Error: private key not found: '' @ ar_key_file args,
            ''Run from the project root or use --key-file to specify the key path.'']\<rparr>
      | Some (Inl e) \<Rightarrow> Uncaught e
      | Some (Inr private_key) \<Rightarrow>
          (let scopes = (case ar_scopes args of None \<Rightarrow> NoScopes | Some s \<Rightarrow> ScopeStr s)
           in case and_then (generate_jwt encode utcoffset clock private_key (ar_sub args) scopes (ar_hours args)
                  (ar_issuer args) (ar_audience args))
                (\<lambda>token. if ar_decode args then decode_and_dump token else Inr token) of
                Inl e \<Rightarrow> Done \<lparr>out_code = 1, out_stdout = [], out_stderr = [''Error: '' @ e]\<rparr>
              | Inr line \<Rightarrow> Done \<lparr>out_code = 0, out_stdout = [line], out_stderr = []\<rparr>))"

subsection \<open>Tokens at the gateway\<close>

definition claims_of :: "Payload \<Rightarrow> Claims" where
  "claims_of p = \<lparr>cl_sub = Some (pl_sub p), cl_iss = Some (pl_iss p), cl_aud = Multiple (pl_aud p),
     cl_exp = Some (pl_exp p), cl_nbf = Some (pl_nbf p), cl_scope = pl_scope p, cl_scp = pl_scp p\<rparr>"

text \<open>The two libraries agree: what \<open>encode\<close> signs with the private key has the given header, and
  \<open>decode\<close> with the public key, where it is asked for RS256, checks issuer, audience, expiry and
  start with the leeway at the time \<open>now\<close>; a token that fails the last check only is reported as
  immature. The claims that can be required are all in the token.\<close>

definition codec ::
  "'k jwt \<Rightarrow> (Payload \<Rightarrow> string \<Rightarrow> string \<Rightarrow> (string, string) result) \<Rightarrow> string \<Rightarrow> 'k \<Rightarrow> int \<Rightarrow> bool" where
  "codec J encode private public now \<longleftrightarrow>
     (\<forall>p kid tok. encode p private kid = Inr tok \<longrightarrow>
        decode_header J tok = Some \<lparr>hd_alg = RS256, hd_kid = Some kid\<rparr>
      \<and> (\<forall>va. va_algorithm va = RS256 \<and> pl_iss p \<in> set (va_iss va) \<and> set (pl_aud p) \<inter> set (va_aud va) \<noteq> {} \<and> now - uint (va_leeway va) \<le> pl_exp p \<longrightarrow>
           decode J tok public va =
             (if now + uint (va_leeway va) < pl_nbf p \<and> va_validate_nbf va then Inl EkImmatureSignature else Inr (claims_of p))))"

lemma int_seconds_pos: "0 \<le> us \<Longrightarrow> int_seconds us = us div 10 ^ 6"
  by (simp add: int_seconds_def)

lemma dev_token_decoded:
  assumes "codec J encode private public now"
    and "generate_jwt encode utcoffset clock private subject scopes hours (ap_issuer provider) (ap_audience provider) = Inr token"
    and "find (\<lambda>k. jk_kid k = ''dev-key-1'') keys = Some key" "jk_decoding_key key = public"
    and "p = payload_of utcoffset clock subject scopes hours (ap_issuer provider) (ap_audience provider)"
    and "now - uint (ap_clock_skew_seconds provider) \<le> pl_exp p"
  shows "validate_token J token provider keys required =
    (if now + uint (ap_clock_skew_seconds provider) < pl_nbf p then Inl TokenNotYetValid
     else and_then (check_scopes (extract_scopes (claims_of p)) required) (\<lambda>_. identity_of (claims_of p) (extract_scopes (claims_of p))))"
proof -
  have enc: "encode p private ''dev-key-1'' = Inr token" using assms(2,5) by (simp add: generate_jwt_def)
  have h: "decode_header J token = Some \<lparr>hd_alg = RS256, hd_kid = Some ''dev-key-1''\<rparr>" using assms(1) enc by (simp add: codec_def)
  have ia: "pl_iss p = ap_issuer provider" "pl_aud p = [ap_audience provider]"
    by (simp_all add: assms(5) payload_of_def Let_def split: prod.splits)
  have "decode J token public (provider_validation provider) =
      (if now + uint (ap_clock_skew_seconds provider) < pl_nbf p then Inl EkImmatureSignature else Inr (claims_of p))"
    using assms(1) enc assms(6) ia unfolding codec_def by (simp add: provider_validation_def)
  then show ?thesis
    using h assms(3,4) by (simp add: validate_token_def decode_and_verify_def Let_def)
qed

lemma payload_simps:
  "pl_nbf (payload_of utcoffset clock subject scopes hours issuer audience) = int_seconds (timestamp utcoffset clock)"
  "pl_exp (payload_of utcoffset clock subject scopes hours issuer audience) = int_seconds (timestamp utcoffset (clock + hours * 3600 * 10 ^ 6))"
  "pl_scope (payload_of utcoffset clock subject scopes hours issuer audience) = fst (scope_claims scopes)"
  "pl_sub (payload_of utcoffset clock subject scopes hours issuer audience) = subject"
  by (simp_all add: payload_of_def utcnow_def Let_def split: prod.splits)

text \<open>C32. A development token is accepted where local time is UTC: with the issuer and audience of
  the provider, the key \<open>dev-key-1\<close> in the cache and the required scopes among those given,
  separated by white space, the gateway accepts the token during the whole of the documented
  window, from the second it was made until before the second its hours are over, with the clock
  skew at both ends; and the identity has the given subject and scopes.\<close>

theorem dev_token_accepted:
  assumes "codec J encode private public now" "0 \<le> clock" "0 \<le> hours" "skew = uint (ap_clock_skew_seconds provider)"
    and "clock div 10 ^ 6 - skew \<le> now" "now < clock div 10 ^ 6 + hours * 3600 + skew"
    and "generate_jwt encode (\<lambda>_. 0) clock private subject (ScopeStr scopes) hours (ap_issuer provider) (ap_audience provider) = Inr token"
    and "find (\<lambda>k. jk_kid k = ''dev-key-1'') keys = Some key" "jk_decoding_key key = public"
    and "scopes \<noteq> []" "set required \<subseteq> set (split_whitespace scopes)"
  shows "\<exists>ident. validate_token J token provider keys required = Inr ident \<and> vi_sub ident = subject \<and> vi_scopes ident = split_whitespace scopes"
proof -
  let ?p = "payload_of (\<lambda>_. 0) clock subject (ScopeStr scopes) hours (ap_issuer provider) (ap_audience provider)"
  have "(clock + hours * 3600 * 10 ^ 6) div 10 ^ 6 = clock div 10 ^ 6 + hours * 3600" by simp
  then have e: "pl_exp ?p = clock div 10 ^ 6 + hours * 3600" "pl_nbf ?p = clock div 10 ^ 6"
    using assms(2,3) by (simp_all add: payload_simps timestamp_def int_seconds_pos)
  have x: "now - uint (ap_clock_skew_seconds provider) \<le> pl_exp ?p" unfolding e using assms(4,6) by linarith
  have n: "\<not> now + uint (ap_clock_skew_seconds provider) < pl_nbf ?p" unfolding e using assms(4,5) by linarith
  have s: "extract_scopes (claims_of ?p) = split_whitespace scopes"
    using assms(10) by (simp add: extract_scopes_def claims_of_def payload_simps)
  have "check_scopes (split_whitespace scopes) required = Inr ()" using assms(11) check_scopes_Inr by blast
  then show ?thesis
    using dev_token_decoded [OF assms(1,7-9) refl x, of required] n s by (simp add: identity_of_def claims_of_def payload_simps)
qed

text \<open>C37. West of Greenwich a fresh development token is refused: \<open>utcnow().timestamp()\<close> takes the time
  in UTC for local time, so that the token starts to be valid only as many seconds later as
  local time is behind.\<close>

theorem dev_token_west_refused:
  assumes "codec J encode private public (clock div 10 ^ 6)" "0 \<le> clock" "0 \<le> hours"
    and "generate_jwt encode (\<lambda>_. - behind) clock private subject scopes hours (ap_issuer provider) (ap_audience provider) = Inr token"
    and "find (\<lambda>k. jk_kid k = ''dev-key-1'') keys = Some key" "jk_decoding_key key = public"
    and "uint (ap_clock_skew_seconds provider) < behind"
  shows "validate_token J token provider keys required = Inl TokenNotYetValid"
proof -
  let ?p = "payload_of (\<lambda>_. - behind) clock subject scopes hours (ap_issuer provider) (ap_audience provider)"
  have b: "0 \<le> behind" using assms(7) uint_nonnegative [of "ap_clock_skew_seconds provider"] by linarith
  have d: "(clock + t * 10 ^ 6) div 10 ^ 6 = clock div 10 ^ 6 + t" for t :: int by simp
  have n: "pl_nbf ?p = clock div 10 ^ 6 + behind"
    using assms(2) b d [of behind] by (simp add: payload_simps timestamp_def int_seconds_pos)
  have e: "pl_exp ?p = clock div 10 ^ 6 + (hours * 3600 + behind)"
    using assms(2,3) b d [of "hours * 3600 + behind"] by (simp add: payload_simps timestamp_def int_seconds_pos algebra_simps)
  have "clock div 10 ^ 6 - uint (ap_clock_skew_seconds provider) \<le> pl_exp ?p"
    unfolding e using assms(3) b uint_nonnegative [of "ap_clock_skew_seconds provider"] by linarith
  from dev_token_decoded [OF assms(1,4-6) refl this, of required] show ?thesis using n assms(7) by simp
qed

text \<open>A text of visible ASCII characters is one word.\<close>

definition graphic :: "string \<Rightarrow> bool" where
  "graphic s \<longleftrightarrow> (\<forall>c \<in> set s. 33 \<le> (of_char c :: nat) \<and> (of_char c :: nat) \<le> 126)"

lemma ws_first:
  assumes "w \<in> set ws_encodings"
  shows "\<exists>c t. w = c # t \<and> \<not> (33 \<le> (of_char c :: nat) \<and> (of_char c :: nat) \<le> 126)"
proof -
  have "list_all (\<lambda>w. case w of [] \<Rightarrow> False | c # t \<Rightarrow> \<not> (33 \<le> (of_char c :: nat) \<and> (of_char c :: nat) \<le> 126)) ws_encodings"
    by code_simp
  then have "case w of [] \<Rightarrow> False | c # t \<Rightarrow> \<not> (33 \<le> (of_char c :: nat) \<and> (of_char c :: nat) \<le> 126)"
    using assms unfolding list_all_iff by (rule bspec)
  then show ?thesis by (auto split: list.splits)
qed

lemma leading_graphic: "graphic s \<Longrightarrow> leading ws_encodings s = None"
  using ws_first by (fastforce simp: leading_def find_None_iff graphic_def prefix_def)

lemma split_ws_graphic: "graphic s \<Longrightarrow> split_ws cur s = (if rev cur @ s = [] then [] else [rev cur @ s])"
proof (induction s arbitrary: cur)
  case Nil
  then show ?case using leading_graphic [of "[]"] by (simp add: split_ws.simps [of cur "[]"])
next
  case (Cons c s)
  then have "graphic s" by (simp add: graphic_def)
  with Cons leading_graphic [of "c # s"] show ?case by (simp add: split_ws.simps [of cur "c # s"])
qed

text \<open>Scopes separated by commas, as the usage text of the script shows them, are one scope: the
  gateway turns the token away from every route that requires one of them.\<close>

theorem dev_token_comma_scopes_refused:
  assumes "codec J encode private public (clock div 10 ^ 6)" "0 \<le> clock" "0 \<le> hours"
    and "graphic scopes" "scopes = one @ '','' @ others" "req \<noteq> scopes" "req \<in> set required"
    and "generate_jwt encode (\<lambda>_. 0) clock private subject (ScopeStr scopes) hours (ap_issuer provider) (ap_audience provider) = Inr token"
    and "find (\<lambda>k. jk_kid k = ''dev-key-1'') keys = Some key" "jk_decoding_key key = public"
  shows "validate_token J token provider keys required = Inl InsufficientScopes"
proof -
  let ?p = "payload_of (\<lambda>_. 0) clock subject (ScopeStr scopes) hours (ap_issuer provider) (ap_audience provider)"
  have d: "(clock + t * 10 ^ 6) div 10 ^ 6 = clock div 10 ^ 6 + t" for t :: int by simp
  have n: "pl_nbf ?p = clock div 10 ^ 6" "pl_exp ?p = clock div 10 ^ 6 + hours * 3600"
    using assms(2,3) d [of "hours * 3600"] by (simp_all add: payload_simps timestamp_def int_seconds_pos)
  note u = uint_nonnegative [of "ap_clock_skew_seconds provider"]
  have x: "clock div 10 ^ 6 - uint (ap_clock_skew_seconds provider) \<le> pl_exp ?p" unfolding n using assms(3) u by linarith
  have m: "\<not> clock div 10 ^ 6 + uint (ap_clock_skew_seconds provider) < pl_nbf ?p" unfolding n using u by linarith
  have "scopes \<noteq> []" using assms(5) by simp
  then have s: "extract_scopes (claims_of ?p) = [scopes]"
    using split_ws_graphic [OF assms(4), of "[]"] by (simp add: extract_scopes_def claims_of_def payload_simps split_whitespace_def)
  have "check_scopes [scopes] required \<noteq> Inr ()" using check_scopes_Inr [of "[scopes]" required] assms(6,7) by auto
  then have "check_scopes [scopes] required = Inl InsufficientScopes"
    by (cases "check_scopes [scopes] required") (auto dest: check_scopes_Inl)
  then show ?thesis using dev_token_decoded [OF assms(1,8-10) refl x, of required] m s by simp
qed

subsection \<open>Concrete libraries\<close>

definition demo_encode :: "Payload \<Rightarrow> Payload \<Rightarrow> string \<Rightarrow> string \<Rightarrow> (string, string) result" where
  "demo_encode p q private kid = (if q = p \<and> kid = ''dev-key-1'' then Inr ''tok'' else Inl ''unsupported'')"

definition demo_codec :: "Payload \<Rightarrow> int \<Rightarrow> nat jwt" where
  "demo_codec p now =
     \<lparr>decode_header = \<lambda>_. Some \<lparr>hd_alg = RS256, hd_kid = Some ''dev-key-1''\<rparr>,
      decode = \<lambda>_ _ va. (if va_algorithm va \<noteq> RS256 then Inl EkOther else if now + uint (va_leeway va) < pl_nbf p \<and> va_validate_nbf va then Inl EkImmatureSignature else Inr (claims_of p)),
      from_rsa_components = \<lambda>_ _. Inr 0\<rparr>"

lemma demo_codec_spec: "codec (demo_codec p now) (demo_encode p) private public now"
  by (auto simp: codec_def demo_codec_def demo_encode_def split: if_splits)

definition dev_key :: "nat JwksKey" where
  "dev_key = \<lparr>jk_kid = ''dev-key-1'', jk_decoding_key = 0\<rparr>"

abbreviation dev_payload :: "int \<Rightarrow> string \<Rightarrow> Payload" where
  "dev_payload ofs scopes \<equiv> payload_of (\<lambda>_. ofs) 1700000000000000 ''user-1'' (ScopeStr scopes) 24
     (ap_issuer sample_provider) (ap_audience sample_provider)"

lemma dev_generated:
  "generate_jwt (demo_encode (dev_payload ofs scopes)) (\<lambda>_. ofs) 1700000000000000 private ''user-1'' (ScopeStr scopes) 24
     (ap_issuer sample_provider) (ap_audience sample_provider) = Inr ''tok''"
  by (simp add: generate_jwt_def demo_encode_def)

theorem dev_token_accepted_witness:
  "\<exists>ident. validate_token (demo_codec (dev_payload 0 ''api.read'') 1700000000) ''tok'' sample_provider [dev_key] [''api.read''] = Inr ident
    \<and> vi_sub ident = ''user-1''"
proof -
  have "split_whitespace ''api.read'' = [''api.read'']"
    using split_ws_graphic [of "''api.read''" "[]"] by (simp add: split_whitespace_def graphic_def)
  moreover have "uint (ap_clock_skew_seconds sample_provider) = 30" by (simp add: sample_provider_def)
  ultimately show ?thesis
    using dev_token_accepted [of "demo_codec (dev_payload 0 ''api.read'') 1700000000" "demo_encode (dev_payload 0 ''api.read'')" "''pem''" 0
      1700000000 1700000000000000 24 30 sample_provider "''user-1''" "''api.read''" "''tok''" "[dev_key]" dev_key "[''api.read'']"]
    by (auto simp: demo_codec_spec dev_generated dev_key_def)
qed

theorem dev_token_west_refused_witness:
  "validate_token (demo_codec (dev_payload (- 18000) ''api.read'') 1700000000) ''tok'' sample_provider [dev_key] [''api.read''] = Inl TokenNotYetValid"
proof -
  have skew: "uint (ap_clock_skew_seconds sample_provider) = 30" by (simp add: sample_provider_def)
  show ?thesis using dev_token_west_refused [of "demo_codec (dev_payload (- 18000) ''api.read'') 1700000000" "demo_encode (dev_payload (- 18000) ''api.read'')" "''pem''" 0
      1700000000000000 24 18000 "''user-1''" "ScopeStr ''api.read''" sample_provider "''tok''" "[dev_key]" dev_key "[''api.read'']"]
    skew by (simp add: demo_codec_spec dev_generated dev_key_def)
qed

theorem dev_token_comma_scopes_refused_witness:
  "validate_token (demo_codec (dev_payload 0 ''api.read,api.write'') 1700000000) ''tok'' sample_provider [dev_key] [''api.read''] = Inl InsufficientScopes"
proof (rule dev_token_comma_scopes_refused [where clock = 1700000000000000 and hours = 24 and scopes = "''api.read,api.write''" and
      one = "''api.read''" and others = "''api.write''" and req = "''api.read''" and key = dev_key])
  have "1700000000000000 div 10 ^ 6 = (1700000000 :: int)" by simp
  then show "codec (demo_codec (dev_payload 0 ''api.read,api.write'') 1700000000) (demo_encode (dev_payload 0 ''api.read,api.write''))
      ''pem'' 0 (1700000000000000 div 10 ^ 6)" by (simp only: demo_codec_spec)
  show "graphic ''api.read,api.write''" by (simp add: graphic_def)
  show "generate_jwt (demo_encode (dev_payload 0 ''api.read,api.write'')) (\<lambda>_. 0) 1700000000000000 ''pem'' ''user-1''
      (ScopeStr ''api.read,api.write'') 24 (ap_issuer sample_provider) (ap_audience sample_provider) = Inr ''tok''"
    by (rule dev_generated)
qed (simp_all add: dev_key_def)

end
