(* ===== verification/Spec2Isabelle.thy ===== *)
theory Spec2Isabelle
  imports Config_Correct Limiter_Correct Auth_Correct Observability_Correct Ext_Proc Xds_Correct
    Plugins_Correct Sandbox Gateway_Correct Admin_Correct Startup_Correct
    Jwks_Refresh_Correct Interleaving_Correct Xds_Tasks_Correct Dev_Token
begin

text \<open>
  A verification of the OpenApiGateway control plane.

  \<^bold>\<open>The program.\<close> The control plane loads a configuration file, generates from it the
  configuration of an Envoy proxy (a bootstrap file, or resources served over xDS), and
  answers, for every request that Envoy sees, whether it may pass: the authorization handler
  finds the route, runs the Lua plugins of the route, checks the token and asks the rate
  limiter. An admin API reports state and reloads the configuration while requests are served.

  \<^bold>\<open>Theories.\<close> Each component has a theory with its definitions and one with its
  properties (\<open>_Correct\<close>); definitions have the names of the source.
  \<^item> \<open>Prelude\<close>: \<open>Result\<close> as a sum with \<open>and_then\<close> for the question mark, byte strings and
    the string functions of the standard library, insertion-ordered maps, machine words.
    \<open>F64\<close>: IEEE binary64 with round to nearest even, infinities and NaN, exact on rationals,
    with the error bound \<open>u_rnd\<close> of one rounding. \<open>Utf8\<close>, \<open>Socket_Addr\<close>: the readers of
    the standard library for UTF-8 and for socket addresses.
  \<^item> \<open>Token_Bucket\<close>, \<open>Bucket_Correct\<close> (\<open>ratelimit/bucket.rs\<close>): the in-memory bucket. The
    locale \<open>token_bucket\<close> is the contract from which an admission bound follows; it is
    interpreted on \<open>LocalBucket\<close> (\<open>lb\<close>) and on the Redis script (\<open>rb\<close>).
  \<^item> \<open>Lua_Script\<close>, \<open>Lua_Refine\<close> (\<open>ratelimit/lua.rs\<close>): the Redis script statement by
    statement, and its refinement of an abstract bucket. \<open>Limiter\<close>, \<open>Limiter_Correct\<close>
    (\<open>ratelimit/limiter.rs\<close>): Redis first, then the fallback buckets, fail open or refusal.
  \<^item> \<open>Config_Types\<close>, \<open>Validation\<close>, \<open>Sample_Config\<close> (\<open>shared/src\<close>,
    \<open>config/validation.rs\<close>, \<open>loader.rs\<close>): the structures and the checks, with the rules of
    \<open>specs/config-schema.md\<close> as specification (\<open>valid_config\<close>); \<open>accepted_config\<close> is the same
    but for NaN rates, which the checks let pass. \<open>Route_Groups\<close>, \<open>Envoy_Gen\<close>, \<open>Config_Correct\<close>
    (\<open>config/envoy_gen.rs\<close>, \<open>envoy_ext_authz.rs\<close>): the bootstrap. The locale \<open>grouping\<close>
    is what both generators of virtual hosts promise; it is interpreted for each.
  \<^item> \<open>Auth\<close>, \<open>Auth_Correct\<close> (\<open>auth\<close>): tokens, key caches, their refresh, the registry.
    \<open>Jwks_Refresh\<close>, \<open>Jwks_Refresh_Correct\<close>: the refresh loop of a cache and the requests that
    wait for it, as tasks that meet at a \<open>Notify\<close> (\<open>refresh_step\<close>, \<open>refresh_reach\<close>).
  \<^item> \<open>Observability\<close>, \<open>Observability_Correct\<close> (\<open>observability\<close>): a metrics registry is
    the sequence of calls made on its metrics; the access log; request ids.
  \<^item> \<open>Ext_Proc\<close> (\<open>extproc\<close>): the external processor and its stream.
  \<^item> \<open>Xds\<close>, \<open>Xds_Server\<close>, \<open>Xds_Correct\<close> (\<open>xds\<close>): resources, snapshots and the
    streams; \<open>xds_reach\<close> is the step relation of all streams, sends and rebuilds.
    \<open>Xds_Tasks\<close>, \<open>Xds_Tasks_Correct\<close>: rebuilds that overlap, cut at every send, over channels
    of bounded capacity (\<open>xt_reach\<close>).
  \<^item> \<open>Plugins\<close>, \<open>Plugin_Exec\<close>, \<open>Sandbox\<close>, \<open>Plugins_Correct\<close> (\<open>plugins\<close>): discovery
    and chains, execution, and the Lua globals over a heap of tables.
  \<^item> \<open>App_State\<close>, \<open>Ext_Authz\<close>, \<open>Ext_Authz_Correct\<close>, \<open>Gateway_Correct\<close>
    (\<open>admin/state.rs\<close>, \<open>extauthz\<close>): the shared state and the request path. A handler is
    a function on the record \<open>World\<close>; \<open>gw_reach\<close> interleaves requests.
  \<^item> \<open>Admin\<close>, \<open>Admin_Correct\<close> (\<open>admin\<close>): the admin API; a reload is composed of the steps
    between its awaits, and \<open>cp_reach\<close> interleaves them with requests.
  \<^item> \<open>Interleaving\<close>, \<open>Interleaving_Correct\<close> (\<open>extauthz/handler.rs\<close>, \<open>admin/handlers.rs\<close>):
    requests and reloads cut into the pieces between their awaits, with the fair lock of the
    configuration explicit (\<open>cc_reach\<close>). The pieces of one task in a row are the handler.
  \<^item> \<open>Tracing_Init\<close>, \<open>Startup\<close>, \<open>Startup_Correct\<close> (\<open>observability/tracing_init.rs\<close>,
    \<open>startup.rs\<close>, \<open>main.rs\<close>): tracing setup, the start and the end of the process, every
    fatal exit a value. A state that started is one from which all step relations begin.
  \<^item> \<open>Dev_Token\<close> (\<open>scripts/gen-jwt-dev.py\<close>): the tokens of the development script and what the
    gateway makes of them.

  \<^bold>\<open>What is shown.\<close> Admission: the buckets, the script and the gateway as a whole let at
  most capacity plus rate times time pass, up to an explicit rounding term. Authorization: an
  allowed request showed a verified token, not expired when it was checked, where its route asks
  for one, and was admitted under its own bucket; where the subject is a header value, the upstream
  sees the subject of that token. Configuration: validation accepts exactly the configurations
  that are valid up to NaN rates, these always generate, start and reload, a failed reload changes
  nothing, and the configuration in force is an accepted one over every interleaving. xDS: a version names one
  content, also when rebuilds overlap, and both generators agree on the virtual hosts.
  Concurrency: a request is decided under one configuration, authorization holds whatever
  other tasks do meanwhile, the pieces of a task compose to the sequential definitions, no
  schedule leaves a request or a reload unanswered, and a wait for a key refresh ends within
  its time limit. Plugins: chains are what the
  configuration says, cannot set reserved upstream headers, and let a request on exactly past
  plugins that passed. Resources: permits bound the requests in flight, each request is
  counted and logged once (one that is turned away for overload only in the counter of overloads),
  and metrics are called as declared. Some theorems state where the
  code departs from its intent: a failed plugin engine lets requests pass, a plugin's exit does
  not short-circuit where its error arrives wrapped as mlua documents, concurrent reloads can mix, requests with an unknown key turn each
  other away, the older of two overlapping rebuilds can win, an older xDS version can follow a
  newer one, a client that does not read blocks a reload, acknowledgements are answered
  without end, overlapping host lists give duplicate domains, a NaN rate passes validation,
  a host name in an xDS address ends the start, development tokens made west of
  Greenwich are not yet valid, and what plugins add for the upstream is not passed on by the
  Envoy that the bootstrap configures.

  \<^bold>\<open>Parameters.\<close> Code outside the repository is an argument: Redis and its client, the JWT,
  HTTP, YAML, JSON schema, prometheus, OpenTelemetry, protobuf and Lua libraries, the \<open>Notify\<close>
  of tokio, the file system, the hash and the clocks. What is relied on of them is a named hypothesis (\<open>jwt_spec\<close>, \<open>redis_spec\<close>,
  \<open>lua_json_spec\<close>, \<open>http_spec\<close>, \<open>prometheus_spec\<close>, \<open>encodes_all\<close>, \<open>fresh_lua\<close>,
  \<open>notify_spec\<close>), and
  each property that uses one is applied to a concrete instance. The JWT library reads the system
  clock, so it is a function of the time: of the second of the request's own check in
  \<open>Ext_Authz\<close> and of the moment of each step in \<open>Jwks_Refresh\<close>. \<open>jwt_spec\<close> says of it what its
  documentation says: claims are required only where the validation lists them, and checked where
  they are there.

  \<^bold>\<open>Bounds.\<close> No definition has fuel: every loop of the source is a recursion over a list or
  a step relation. The admission bounds ask for capacities below \<open>2^53\<close>, rates up to \<open>2^64\<close>,
  and clocks below \<open>2^64\<close> seconds, or \<open>10^14\<close> milliseconds for Redis, because Lua prints
  fourteen digits. Versions are compared up to \<open>2^64\<close> rebuilds.

  \<^bold>\<open>Not modelled.\<close> Tracing spans and events, how axum and tonic serve a connection, and the
  code that is generated from the protocol files, the shell scripts. In \<open>Interleaving\<close> the awaits on Redis, on a
  key refresh, on plugins and on the sends of an xDS rebuild lie inside one piece; the last
  and the key refresh are cut further in \<open>Xds_Tasks\<close> and \<open>Jwks_Refresh\<close>. The shard locks of
  \<open>DashMap\<close> are not modelled. Lua code is represented by the calls it makes on the gateway API
  and by its result; a plugin that keeps the functions of an earlier gateway and calls them later,
  or calls the API from \<open>new\<close>, is not covered. Content types are those that axum documents for
  its bodies.
\<close>

subsection \<open>Headers on their way through Envoy\<close>

text \<open>Of the headers of an allowing answer, Envoy adds to the upstream request those whose name
  matches a pattern of \<open>allowed_upstream_headers\<close> of its \<open>ext_authz\<close> filter.\<close>

definition upstream_patterns :: "yaml \<Rightarrow> yaml list" where
  "upstream_patterns http_filter =
     (case ypath [''typed_config'', ''http_service'', ''authorization_response'', ''allowed_upstream_headers'', ''patterns''] http_filter of
        Some v \<Rightarrow> yitems v | None \<Rightarrow> [])"

definition pattern_matches :: "string \<Rightarrow> yaml \<Rightarrow> bool" where
  "pattern_matches name pattern \<longleftrightarrow>
     (case (yget ''exact'' pattern, yget ''prefix'' pattern) of
        (Some (YString e), _) \<Rightarrow> name = e
      | (_, Some (YString p)) \<Rightarrow> starts_with name p
      | _ \<Rightarrow> False)"

definition forwarded :: "yaml \<Rightarrow> string \<Rightarrow> bool" where
  "forwarded http_filter name \<longleftrightarrow> list_ex (pattern_matches name) (upstream_patterns http_filter)"

lemma upstream_patterns_generated:
  "upstream_patterns build_ext_authz_filter = [ymap [(''prefix'', val ''x-auth-'')], ymap [(''prefix'', val ''x-ratelimit-'')]]"
  by code_simp

lemma forwarded_generated:
  "forwarded build_ext_authz_filter name \<longleftrightarrow> starts_with name ''x-auth-'' \<or> starts_with name ''x-ratelimit-''"
proof -
  have "yget ''exact'' (ymap [(''prefix'', v)]) = None" "yget ''prefix'' (ymap [(''prefix'', v)]) = Some v" for v
    by (simp_all add: ymap_def val_def mapping_of_def)
  then show ?thesis
    by (simp add: forwarded_def upstream_patterns_generated pattern_matches_def) (simp add: val_def)
qed

text \<open>C38. What plugins add for the upstream never gets there: with the bootstrap that the control
  plane generates, no header that a chain sets with \<open>gateway.service.request.set_header\<close> matches a
  pattern under which Envoy passes headers on to the upstream, since the patterns are prefixes
  that plugins are forbidden to use. Nor does one of the four \<open>x-rate-limit-\<close> headers of the gateway.\<close>

theorem plugin_upstream_headers_not_forwarded:
  assumes "execute_access L el request engine slot = (slot', Inr (Continue up resp us))" "(n, v) \<in> set up"
  shows "\<not> forwarded build_ext_authz_filter n
    \<and> list_all (\<lambda>h. \<not> forwarded build_ext_authz_filter h)
        [''x-rate-limit-limit'', ''x-rate-limit-remaining'', ''x-rate-limit-mode'', ''x-rate-limit-reset'']
    \<and> forwarded build_ext_authz_filter ''x-auth-sub''"
proof -
  have "\<not> reserved n" using execute_access_clean [OF assms(1)] assms(2) by blast
  then show ?thesis by (simp add: forwarded_generated reserved_def RESERVED_HEADER_PREFIXES_def starts_with_def)
qed

theorem plugin_upstream_headers_not_forwarded_witness:
  "snd (execute_access (scripted [SetUpstreamHeader ''x-trace'' ''1''] (Inr ())) no_time sample_request sample_engine sample_slot)
     = Inr (Continue [(''x-trace'', ''1'')] [] 0) \<and> \<not> forwarded build_ext_authz_filter ''x-trace''"
proof -
  have l: "to_ascii_lowercase ''x-trace'' = ''x-trace''" "\<not> reserved ''x-trace''" by code_simp+
  obtain slot' where e: "execute_access (scripted [SetUpstreamHeader ''x-trace'' ''1''] (Inr ())) no_time sample_request sample_engine sample_slot
      = (slot', Inr (Continue [(''x-trace'', ''1'')] [] 0))"
    by (simp add: sample_exec_defs l)
  from plugin_upstream_headers_not_forwarded [OF e, of "''x-trace''" "''1''"] e show ?thesis by simp
qed

end
